theory Spec2Isabelle
  imports Complex_Main
begin

section \<open>Touch input of the voxel world: a shallow embedding\<close>

text \<open>
  The three touch controllers of \<^verbatim>\<open>src/input\<close> are embedded as state-passing
  functions. JavaScript numbers are idealised as \<^typ>\<open>real\<close> (no rounding, no NaN);
  \<^verbatim>\<open>Date.now()\<close> is an argument of every handler that reads the clock, read once per
  handler; the host's \<^verbatim>\<open>requestAnimationFrame\<close> and \<^verbatim>\<open>setTimeout\<close> queues and the calls
  received by the collaborators are fields of the controller state. When the host runs
  a frame or fires a timer is an input like a touch event. \<^verbatim>\<open>preventDefault\<close> and the
  adding and removing of DOM listeners change nothing a controller reads and are left
  out.
\<close>

subsection \<open>DOM touch events\<close>

record Touch =
  touch_identifier :: int
  clientX :: real
  clientY :: real

record TouchEvent =
  ev_touches :: "Touch list"
  ev_changedTouches :: "Touch list"

subsection \<open>CameraTouchController: data\<close>

datatype GestureType = GNone | Rotate | Pinch | Pan

record TouchPoint =
  tid :: int
  tx :: real
  ty :: real
  ttimestamp :: real

record Velocity =
  vx :: real
  vy :: real
  vtimestamp :: real

text \<open>The mutable variables captured by the \<^verbatim>\<open>animate\<close> closure of \<^verbatim>\<open>startMomentum\<close>.\<close>

record Anim =
  lastX :: real
  lastY :: real
  velocityX :: real
  velocityY :: real

text \<open>Calls received by the camera collaborator, in order.\<close>

datatype CameraCall = rotateCamera real real | zoomCamera real | panCamera real real

text \<open>
  A JavaScript \<^verbatim>\<open>Map\<close> keeps insertion order; it is an association list with
  distinct keys. \<^verbatim>\<open>frameCallbacks\<close> and \<^verbatim>\<open>nextHandle\<close> are the host's list of
  animation frame callbacks; \<^verbatim>\<open>cameraCalls\<close> is the collaborator's log.
\<close>

record CameraTouchController =
  enabled :: bool
  touches :: "(int \<times> TouchPoint) list"
  gestureType :: GestureType
  previousDistance :: real
  previousMidpoint :: "real \<times> real"
  rotationSensitivity :: real
  zoomSensitivity :: real
  panSensitivity :: real
  momentumEnabled :: bool
  velocity :: Velocity
  momentumAnimationId :: "nat option"
  frameCallbacks :: "(nat \<times> Anim) list"
  nextHandle :: nat
  cameraCalls :: "CameraCall list"

definition MOMENTUM_FRICTION :: real where
  "MOMENTUM_FRICTION = 92 / 100"

definition MOMENTUM_MIN_VELOCITY :: real where
  "MOMENTUM_MIN_VELOCITY = 1 / 10"

definition zeroVelocity :: Velocity where
  "zeroVelocity = \<lparr>vx = 0, vy = 0, vtimestamp = 0\<rparr>"

definition initialController :: CameraTouchController where
  "initialController =
     \<lparr>enabled = True, touches = [], gestureType = GNone, previousDistance = 0,
      previousMidpoint = (0, 0), rotationSensitivity = 1, zoomSensitivity = 1,
      panSensitivity = 1, momentumEnabled = True, velocity = zeroVelocity,
      momentumAnimationId = None, frameCallbacks = [], nextHandle = 1, cameraCalls = []\<rparr>"

subsection \<open>Map operations\<close>

fun mapSet :: "int \<Rightarrow> 'v \<Rightarrow> (int \<times> 'v) list \<Rightarrow> (int \<times> 'v) list" where
  "mapSet k v [] = [(k, v)]"
| "mapSet k v ((k', v') # m) = (if k' = k then (k, v) # m else (k', v') # mapSet k v m)"

definition mapDelete :: "int \<Rightarrow> (int \<times> 'v) list \<Rightarrow> (int \<times> 'v) list" where
  "mapDelete k m = filter (\<lambda>e. fst e \<noteq> k) m"

definition mapValues :: "(int \<times> 'v) list \<Rightarrow> 'v list" where
  "mapValues m = map snd m"

definition newTouchPoint :: "Touch \<Rightarrow> real \<Rightarrow> TouchPoint" where
  "newTouchPoint t now = \<lparr>tid = touch_identifier t, tx = clientX t, ty = clientY t, ttimestamp = now\<rparr>"

text \<open>The loop \<^verbatim>\<open>for (i < event.touches.length) this.touches.set(...)\<close>.\<close>

fun trackTouches :: "Touch list \<Rightarrow> real \<Rightarrow> (int \<times> TouchPoint) list \<Rightarrow> (int \<times> TouchPoint) list" where
  "trackTouches [] now m = m"
| "trackTouches (t # ts) now m = trackTouches ts now (mapSet (touch_identifier t) (newTouchPoint t now) m)"

fun deleteTouches :: "Touch list \<Rightarrow> (int \<times> TouchPoint) list \<Rightarrow> (int \<times> TouchPoint) list" where
  "deleteTouches [] m = m"
| "deleteTouches (t # ts) m = deleteTouches ts (mapDelete (touch_identifier t) m)"

subsection \<open>Geometry\<close>

definition calculateDistance :: "TouchPoint \<Rightarrow> TouchPoint \<Rightarrow> real" where
  "calculateDistance touch1 touch2 =
     (let dx = tx touch2 - tx touch1; dy = ty touch2 - ty touch1
      in sqrt (dx * dx + dy * dy))"

definition calculateMidpoint :: "TouchPoint \<Rightarrow> TouchPoint \<Rightarrow> real \<times> real" where
  "calculateMidpoint touch1 touch2 =
     ((tx touch1 + tx touch2) / 2, (ty touch1 + ty touch2) / 2)"

subsection \<open>Host animation frames\<close>

definition cancelAnimationFrame :: "nat \<Rightarrow> CameraTouchController \<Rightarrow> CameraTouchController" where
  "cancelAnimationFrame h s = s\<lparr>frameCallbacks := filter (\<lambda>e. fst e \<noteq> h) (frameCallbacks s)\<rparr>"

definition requestAnimationFrame :: "Anim \<Rightarrow> CameraTouchController \<Rightarrow> nat \<times> CameraTouchController" where
  "requestAnimationFrame a s =
     (nextHandle s,
      s\<lparr>frameCallbacks := frameCallbacks s @ [(nextHandle s, a)], nextHandle := Suc (nextHandle s)\<rparr>)"

subsection \<open>CameraTouchController: operations\<close>

definition stopMomentum :: "CameraTouchController \<Rightarrow> CameraTouchController" where
  "stopMomentum s =
     (let s1 = (case momentumAnimationId s of
                  Some h \<Rightarrow> (cancelAnimationFrame h s)\<lparr>momentumAnimationId := None\<rparr>
                | None \<Rightarrow> s)
      in s1\<lparr>velocity := zeroVelocity\<rparr>)"

definition updateGestureType :: "CameraTouchController \<Rightarrow> CameraTouchController" where
  "updateGestureType s =
     (let touchCount = length (touches s) in
      if touchCount = 0 then s\<lparr>gestureType := GNone\<rparr>
      else if touchCount = 1 then s\<lparr>gestureType := Rotate\<rparr>
      else if touchCount = 2 then
        (let touchArray = mapValues (touches s);
             distance = calculateDistance (touchArray ! 0) (touchArray ! 1)
         in if previousDistance s = 0 then s\<lparr>gestureType := Pinch\<rparr>
            else (let distanceChange = \<bar>distance - previousDistance s\<bar>
                  in if distanceChange > 5 then s\<lparr>gestureType := Pinch\<rparr>
                     else s\<lparr>gestureType := Pan\<rparr>))
      else s)"

text \<open>
  \<^verbatim>\<open>handleRotateGesture\<close> is called with exactly one tracked touch, so the empty case of
  its first \<^verbatim>\<open>case\<close> (where the source would read a field of \<^verbatim>\<open>undefined\<close>) is never
  taken; likewise \<^verbatim>\<open>updateGestureType\<close> indexes the array only when it has two elements.
\<close>

definition handleRotateGesture :: "(int \<times> TouchPoint) list \<Rightarrow> CameraTouchController \<Rightarrow> CameraTouchController" where
  "handleRotateGesture previousTouches s =
     (case mapValues (touches s) of
        [] \<Rightarrow> s
      | currentTouch # _ \<Rightarrow>
          (case map_of previousTouches (tid currentTouch) of
             None \<Rightarrow> s
           | Some previousTouch \<Rightarrow>
               (let deltaX = (tx currentTouch - tx previousTouch) * rotationSensitivity s;
                    deltaY = (ty currentTouch - ty previousTouch) * rotationSensitivity s
                in s\<lparr>cameraCalls := cameraCalls s @ [rotateCamera deltaX deltaY]\<rparr>)))"

definition handlePinchGesture :: "CameraTouchController \<Rightarrow> CameraTouchController" where
  "handlePinchGesture s =
     (case mapValues (touches s) of
        touch0 # touch1 # _ \<Rightarrow>
          (let currentDistance = calculateDistance touch0 touch1;
               s1 = (if previousDistance s > 0 then
                       (let distanceChange = currentDistance - previousDistance s;
                            zoomDelta = - distanceChange * (1 / 100) * zoomSensitivity s
                        in s\<lparr>cameraCalls := cameraCalls s @ [zoomCamera zoomDelta]\<rparr>)
                     else s)
           in s1\<lparr>previousDistance := currentDistance\<rparr>)
      | _ \<Rightarrow> s)"

definition handlePanGesture :: "CameraTouchController \<Rightarrow> CameraTouchController" where
  "handlePanGesture s =
     (case mapValues (touches s) of
        touch0 # touch1 # _ \<Rightarrow>
          (let currentMidpoint = calculateMidpoint touch0 touch1;
               s1 = (if fst (previousMidpoint s) \<noteq> 0 \<and> snd (previousMidpoint s) \<noteq> 0 then
                       (let deltaX = (fst currentMidpoint - fst (previousMidpoint s)) * panSensitivity s;
                            deltaY = (snd currentMidpoint - snd (previousMidpoint s)) * panSensitivity s
                        in s\<lparr>cameraCalls := cameraCalls s @ [panCamera deltaX deltaY]\<rparr>)
                     else s)
           in s1\<lparr>previousMidpoint := currentMidpoint\<rparr>)
      | _ \<Rightarrow> s)"

definition calculateVelocity :: "real \<Rightarrow> CameraTouchController \<Rightarrow> CameraTouchController" where
  "calculateVelocity now s =
     (case mapValues (touches s) of
        [] \<Rightarrow> s
      | currentTouch # _ \<Rightarrow>
          (let dt = now - vtimestamp (velocity s) in
           if dt > 0 \<and> dt < 100 then
             s\<lparr>velocity := \<lparr>vx = ((tx currentTouch - vx (velocity s)) / dt) * (1667 / 100),
                             vy = ((ty currentTouch - vy (velocity s)) / dt) * (1667 / 100),
                             vtimestamp = now\<rparr>\<rparr>
           else
             s\<lparr>velocity := \<lparr>vx = tx currentTouch, vy = ty currentTouch, vtimestamp = now\<rparr>\<rparr>))"

definition startMomentum :: "CameraTouchController \<Rightarrow> CameraTouchController" where
  "startMomentum s =
     (if \<not> momentumEnabled s then s
      else
        (let s1 = stopMomentum s;
             a = \<lparr>lastX = 0, lastY = 0, velocityX = vx (velocity s1), velocityY = vy (velocity s1)\<rparr>;
             (h, s2) = requestAnimationFrame a s1
         in s2\<lparr>momentumAnimationId := Some h\<rparr>))"

text \<open>One run of the \<^verbatim>\<open>animate\<close> closure with captured variables \<open>a\<close>.\<close>

definition animate :: "Anim \<Rightarrow> CameraTouchController \<Rightarrow> CameraTouchController" where
  "animate a s =
     (let velocityX' = velocityX a * MOMENTUM_FRICTION;
          velocityY' = velocityY a * MOMENTUM_FRICTION
      in if \<bar>velocityX'\<bar> < MOMENTUM_MIN_VELOCITY \<and> \<bar>velocityY'\<bar> < MOMENTUM_MIN_VELOCITY
         then stopMomentum s
         else
           (let deltaX = velocityX' - lastX a;
                deltaY = velocityY' - lastY a;
                s1 = (if \<bar>deltaX\<bar> > 1 / 100 \<or> \<bar>deltaY\<bar> > 1 / 100
                      then s\<lparr>cameraCalls := cameraCalls s @
                              [rotateCamera (deltaX * rotationSensitivity s) (deltaY * rotationSensitivity s)]\<rparr>
                      else s);
                a' = \<lparr>lastX = velocityX', lastY = velocityY',
                      velocityX = velocityX', velocityY = velocityY'\<rparr>;
                (h, s2) = requestAnimationFrame a' s1
            in s2\<lparr>momentumAnimationId := Some h\<rparr>))"

definition handleTouchStart :: "TouchEvent \<Rightarrow> real \<Rightarrow> CameraTouchController \<Rightarrow> CameraTouchController" where
  "handleTouchStart event now s =
     (if \<not> enabled s then s
      else
        (let s1 = stopMomentum s;
             s2 = s1\<lparr>touches := trackTouches (ev_touches event) now (touches s1)\<rparr>;
             s3 = updateGestureType s2
         in if gestureType s3 = Pinch \<or> gestureType s3 = Pan then
              (case mapValues (touches s3) of
                 touch0 # touch1 # _ \<Rightarrow>
                   s3\<lparr>previousDistance := calculateDistance touch0 touch1,
                      previousMidpoint := calculateMidpoint touch0 touch1\<rparr>
               | _ \<Rightarrow> s3)
            else s3))"

definition handleTouchMove :: "TouchEvent \<Rightarrow> real \<Rightarrow> CameraTouchController \<Rightarrow> CameraTouchController" where
  "handleTouchMove event now s =
     (if \<not> enabled s then s
      else
        (let previousTouches = touches s;
             s1 = s\<lparr>touches := trackTouches (ev_touches event) now []\<rparr>;
             s2 = updateGestureType s1
         in if gestureType s2 = Rotate \<and> length (touches s2) = 1 then handleRotateGesture previousTouches s2
            else if gestureType s2 = Pinch \<and> length (touches s2) = 2 then handlePinchGesture s2
            else if gestureType s2 = Pan \<and> length (touches s2) = 2 then handlePanGesture s2
            else s2))"

definition handleTouchEnd :: "TouchEvent \<Rightarrow> real \<Rightarrow> CameraTouchController \<Rightarrow> CameraTouchController" where
  "handleTouchEnd event now s =
     (if \<not> enabled s then s
      else
        (let s1 = (if momentumEnabled s \<and> gestureType s = Rotate \<and> length (touches s) = 1
                   then startMomentum (calculateVelocity now s) else s);
             s2 = s1\<lparr>touches := deleteTouches (ev_changedTouches event) (touches s1)\<rparr>;
             s3 = s2\<lparr>touches := trackTouches (ev_touches event) now []\<rparr>
         in updateGestureType s3))"

definition handleTouchCancel :: "TouchEvent \<Rightarrow> real \<Rightarrow> CameraTouchController \<Rightarrow> CameraTouchController" where
  "handleTouchCancel event now s = handleTouchEnd event now s"

definition setRotationSensitivity :: "real \<Rightarrow> CameraTouchController \<Rightarrow> CameraTouchController" where
  "setRotationSensitivity sensitivity s = s\<lparr>rotationSensitivity := sensitivity\<rparr>"

definition setZoomSensitivity :: "real \<Rightarrow> CameraTouchController \<Rightarrow> CameraTouchController" where
  "setZoomSensitivity sensitivity s = s\<lparr>zoomSensitivity := sensitivity\<rparr>"

definition setPanSensitivity :: "real \<Rightarrow> CameraTouchController \<Rightarrow> CameraTouchController" where
  "setPanSensitivity sensitivity s = s\<lparr>panSensitivity := sensitivity\<rparr>"

definition setMomentumEnabled :: "bool \<Rightarrow> CameraTouchController \<Rightarrow> CameraTouchController" where
  "setMomentumEnabled b s =
     (let s1 = s\<lparr>momentumEnabled := b\<rparr> in if \<not> b then stopMomentum s1 else s1)"

definition enable :: "CameraTouchController \<Rightarrow> CameraTouchController" where
  "enable s = s\<lparr>enabled := True\<rparr>"

definition disable :: "CameraTouchController \<Rightarrow> CameraTouchController" where
  "disable s = stopMomentum (s\<lparr>enabled := False, touches := [], gestureType := GNone\<rparr>)"

definition destroy :: "CameraTouchController \<Rightarrow> CameraTouchController" where
  "destroy s = (stopMomentum s)\<lparr>touches := []\<rparr>"

subsection \<open>The host's frame tick and event histories\<close>

text \<open>
  A frame runs the callbacks that were in the list when the frame began, in order, each
  removed just before it runs; one cancelled by an earlier callback of the same frame is
  skipped, and one requested during the frame waits for the next frame.
\<close>

fun runCallbacks :: "nat list \<Rightarrow> CameraTouchController \<Rightarrow> CameraTouchController" where
  "runCallbacks [] s = s"
| "runCallbacks (h # hs) s =
     (case map_of (frameCallbacks s) h of
        None \<Rightarrow> runCallbacks hs s
      | Some a \<Rightarrow> runCallbacks hs (animate a (cancelAnimationFrame h s)))"

definition animationFrame :: "CameraTouchController \<Rightarrow> CameraTouchController" where
  "animationFrame s = runCallbacks (map fst (frameCallbacks s)) s"

definition frames :: "nat \<Rightarrow> CameraTouchController \<Rightarrow> CameraTouchController" where
  "frames n s = (animationFrame ^^ n) s"

datatype Event =
    TouchStart TouchEvent real
  | TouchMove TouchEvent real
  | TouchEnd TouchEvent real
  | TouchCancel TouchEvent real
  | AnimationFrame
  | SetRotationSensitivity real
  | SetZoomSensitivity real
  | SetPanSensitivity real
  | SetMomentumEnabled bool
  | Enable
  | Disable
  | Destroy

fun step :: "Event \<Rightarrow> CameraTouchController \<Rightarrow> CameraTouchController" where
  "step (TouchStart e now) s = handleTouchStart e now s"
| "step (TouchMove e now) s = handleTouchMove e now s"
| "step (TouchEnd e now) s = handleTouchEnd e now s"
| "step (TouchCancel e now) s = handleTouchCancel e now s"
| "step AnimationFrame s = animationFrame s"
| "step (SetRotationSensitivity r) s = setRotationSensitivity r s"
| "step (SetZoomSensitivity r) s = setZoomSensitivity r s"
| "step (SetPanSensitivity r) s = setPanSensitivity r s"
| "step (SetMomentumEnabled b) s = setMomentumEnabled b s"
| "step Enable s = enable s"
| "step Disable s = disable s"
| "step Destroy s = destroy s"

fun run :: "Event list \<Rightarrow> CameraTouchController \<Rightarrow> CameraTouchController" where
  "run [] s = s"
| "run (e # es) s = run es (step e s)"

subsection \<open>Listeners, exceptions and the environment of the other two controllers\<close>

text \<open>
  A handler that lets an exception escape leaves the object as it was at the throw:
  \<open>Thrown\<close> carries that state. \<^verbatim>\<open>Date.now()\<close> and the canvas rectangle read by a
  handler are passed to it as an \<open>Env\<close>.
\<close>

datatype 'a Completion = Normal 'a | Thrown 'a

fun bindC :: "'a Completion \<Rightarrow> ('a \<Rightarrow> 'a Completion) \<Rightarrow> 'a Completion" where
  "bindC (Normal s) f = f s"
| "bindC (Thrown s) f = Thrown s"

fun stateOf :: "'a Completion \<Rightarrow> 'a" where
  "stateOf (Normal s) = s"
| "stateOf (Thrown s) = s"

fun isThrown :: "'a Completion \<Rightarrow> bool" where
  "isThrown (Normal s) = False"
| "isThrown (Thrown s) = True"

record Env =
  env_now :: real
  rect_left :: real
  rect_top :: real

datatype GestureEvent =
    TapEvent real real
  | LongPressEvent real real
  | DragEvent real real nat real real
  | PinchEvent real real real real

text \<open>
  A registered callback is opaque: it has an identity (for \<^verbatim>\<open>indexOf\<close>) and it either
  returns or throws on the event it is given. Callbacks are taken not to call back into
  the controller.
\<close>

record Listener =
  listenerId :: nat
  throwsOn :: "GestureEvent \<Rightarrow> bool"

subsection \<open>TouchManager\<close>

record TouchPoint_TM =
  id_TM :: int
  x_TM :: real
  y_TM :: real
  startX_TM :: real
  startY_TM :: real
  timestamp_TM :: real

text \<open>
  \<^verbatim>\<open>timeouts_TM\<close> is the host's list of pending \<^verbatim>\<open>setTimeout\<close> callbacks (handle and
  the touch id captured by the closure); \<^verbatim>\<open>invocations\<close> logs every listener call.
\<close>

record TouchManager =
  activeTouches :: "(int \<times> TouchPoint_TM) list"
  longPressTimers :: "(int \<times> nat) list"
  tapCallbacks :: "Listener list"
  longPressCallbacks_TM :: "Listener list"
  dragCallbacks :: "Listener list"
  pinchCallbacks :: "Listener list"
  timeouts_TM :: "(nat \<times> int) list"
  nextTimer_TM :: nat
  invocations :: "(nat \<times> GestureEvent) list"

definition TAP_THRESHOLD_MS :: real where
  "TAP_THRESHOLD_MS = 300"

definition TAP_MOVE_THRESHOLD_PX :: real where
  "TAP_MOVE_THRESHOLD_PX = 10"

definition LONG_PRESS_MOVE_THRESHOLD_PX :: real where
  "LONG_PRESS_MOVE_THRESHOLD_PX = 10"

definition initialTouchManager :: TouchManager where
  "initialTouchManager =
     \<lparr>activeTouches = [], longPressTimers = [], tapCallbacks = [], longPressCallbacks_TM = [],
      dragCallbacks = [], pinchCallbacks = [], timeouts_TM = [], nextTimer_TM = 1,
      invocations = []\<rparr>"

text \<open>\<^verbatim>\<open>callbacks.forEach(callback => callback(event))\<close>: a throw ends the iteration.\<close>

fun forEachListener :: "Listener list \<Rightarrow> GestureEvent \<Rightarrow> TouchManager \<Rightarrow> TouchManager Completion" where
  "forEachListener [] event s = Normal s"
| "forEachListener (l # ls) event s =
     (let s1 = s\<lparr>invocations := invocations s @ [(listenerId l, event)]\<rparr>
      in if throwsOn l event then Thrown s1 else forEachListener ls event s1)"

definition triggerTapCallbacks :: "GestureEvent \<Rightarrow> TouchManager \<Rightarrow> TouchManager Completion" where
  "triggerTapCallbacks event s = forEachListener (tapCallbacks s) event s"

definition triggerLongPressCallbacks :: "GestureEvent \<Rightarrow> TouchManager \<Rightarrow> TouchManager Completion" where
  "triggerLongPressCallbacks event s = forEachListener (longPressCallbacks_TM s) event s"

definition triggerDragCallbacks :: "GestureEvent \<Rightarrow> TouchManager \<Rightarrow> TouchManager Completion" where
  "triggerDragCallbacks event s = forEachListener (dragCallbacks s) event s"

definition triggerPinchCallbacks :: "GestureEvent \<Rightarrow> TouchManager \<Rightarrow> TouchManager Completion" where
  "triggerPinchCallbacks event s = forEachListener (pinchCallbacks s) event s"

definition startLongPressTimer_TM :: "TouchPoint_TM \<Rightarrow> TouchManager \<Rightarrow> TouchManager" where
  "startLongPressTimer_TM touchPoint s =
     (let timer = nextTimer_TM s
      in s\<lparr>timeouts_TM := timeouts_TM s @ [(timer, id_TM touchPoint)],
           nextTimer_TM := Suc timer,
           longPressTimers := mapSet (id_TM touchPoint) timer (longPressTimers s)\<rparr>)"

text \<open>\<^verbatim>\<open>if (timer)\<close> is false for a missing entry and for the handle 0.\<close>

definition cancelLongPressTimer :: "int \<Rightarrow> TouchManager \<Rightarrow> TouchManager" where
  "cancelLongPressTimer touchId s =
     (case map_of (longPressTimers s) touchId of
        None \<Rightarrow> s
      | Some timer \<Rightarrow>
          if timer \<noteq> 0 then
            s\<lparr>timeouts_TM := filter (\<lambda>e. fst e \<noteq> timer) (timeouts_TM s),
              longPressTimers := mapDelete touchId (longPressTimers s)\<rparr>
          else s)"

text \<open>The body of the long press timer's closure for touch id \<open>touchId\<close>.\<close>

definition longPressTimeout_TM :: "int \<Rightarrow> TouchManager \<Rightarrow> TouchManager Completion" where
  "longPressTimeout_TM touchId s =
     (case map_of (activeTouches s) touchId of
        None \<Rightarrow> Normal s
      | Some currentTouch \<Rightarrow>
          (let distance = sqrt ((x_TM currentTouch - startX_TM currentTouch)\<^sup>2 +
                                (y_TM currentTouch - startY_TM currentTouch)\<^sup>2)
           in bindC (if distance \<le> LONG_PRESS_MOVE_THRESHOLD_PX
                     then triggerLongPressCallbacks (LongPressEvent (x_TM currentTouch) (y_TM currentTouch)) s
                     else Normal s)
                (\<lambda>s1. Normal (s1\<lparr>longPressTimers := mapDelete touchId (longPressTimers s1)\<rparr>))))"

definition runTimeout_TM :: "nat \<Rightarrow> TouchManager \<Rightarrow> TouchManager Completion" where
  "runTimeout_TM h s =
     (case map_of (timeouts_TM s) h of
        None \<Rightarrow> Normal s
      | Some touchId \<Rightarrow>
          longPressTimeout_TM touchId (s\<lparr>timeouts_TM := filter (\<lambda>e. fst e \<noteq> h) (timeouts_TM s)\<rparr>))"

fun startTouches_TM :: "Env \<Rightarrow> Touch list \<Rightarrow> TouchManager \<Rightarrow> TouchManager" where
  "startTouches_TM env [] s = s"
| "startTouches_TM env (touch # ts) s =
     (let x = clientX touch - rect_left env;
          y = clientY touch - rect_top env;
          touchPoint = \<lparr>id_TM = touch_identifier touch, x_TM = x, y_TM = y,
                        startX_TM = x, startY_TM = y, timestamp_TM = env_now env\<rparr>;
          s1 = s\<lparr>activeTouches := mapSet (touch_identifier touch) touchPoint (activeTouches s)\<rparr>
      in startTouches_TM env ts (startLongPressTimer_TM touchPoint s1))"

definition handleTouchStart_TM :: "Env \<Rightarrow> TouchEvent \<Rightarrow> TouchManager \<Rightarrow> TouchManager" where
  "handleTouchStart_TM env e s = startTouches_TM env (ev_touches e) s"

definition handleTwoFingerGestures :: "Env \<Rightarrow> Touch \<Rightarrow> Touch \<Rightarrow> TouchManager \<Rightarrow> TouchManager Completion" where
  "handleTwoFingerGestures env touch1 touch2 s =
     (let x1 = clientX touch1 - rect_left env;
          y1 = clientY touch1 - rect_top env;
          x2 = clientX touch2 - rect_left env;
          y2 = clientY touch2 - rect_top env;
          distance = sqrt ((x2 - x1)\<^sup>2 + (y2 - y1)\<^sup>2);
          centerX = (x1 + x2) / 2;
          centerY = (y1 + y2) / 2
      in case (map_of (activeTouches s) (touch_identifier touch1),
               map_of (activeTouches s) (touch_identifier touch2)) of
           (Some touchPoint1, Some touchPoint2) \<Rightarrow>
             (let previousDistance = sqrt ((x_TM touchPoint2 - x_TM touchPoint1)\<^sup>2 +
                                           (y_TM touchPoint2 - y_TM touchPoint1)\<^sup>2)
              in bindC (if previousDistance > 0
                        then (let scale = distance / previousDistance; deltaScale = scale - 1
                              in triggerPinchCallbacks (PinchEvent scale deltaScale centerX centerY) s)
                        else Normal s)
                   (\<lambda>s1. let deltaX = (x1 + x2) / 2 - (x_TM touchPoint1 + x_TM touchPoint2) / 2;
                              deltaY = (y1 + y2) / 2 - (y_TM touchPoint1 + y_TM touchPoint2) / 2
                          in if \<bar>deltaX\<bar> > 1 / 10 \<or> \<bar>deltaY\<bar> > 1 / 10
                             then triggerDragCallbacks (DragEvent deltaX deltaY 2 centerX centerY) s1
                             else Normal s1))
         | _ \<Rightarrow> Normal s)"

text \<open>The second pass of \<^verbatim>\<open>handleTouchMove\<close>: positions are updated, missing touches added.\<close>

fun updateTouches_TM :: "Env \<Rightarrow> Touch list \<Rightarrow> TouchManager \<Rightarrow> TouchManager" where
  "updateTouches_TM env [] s = s"
| "updateTouches_TM env (touch # ts) s =
     (let x = clientX touch - rect_left env;
          y = clientY touch - rect_top env
      in case map_of (activeTouches s) (touch_identifier touch) of
           None \<Rightarrow>
             updateTouches_TM env ts
               (s\<lparr>activeTouches := mapSet (touch_identifier touch)
                      \<lparr>id_TM = touch_identifier touch, x_TM = x, y_TM = y,
                       startX_TM = x, startY_TM = y, timestamp_TM = env_now env\<rparr> (activeTouches s)\<rparr>)
         | Some touchPoint \<Rightarrow>
             (let totalDistance = sqrt ((x - startX_TM touchPoint)\<^sup>2 + (y - startY_TM touchPoint)\<^sup>2);
                  s1 = (if totalDistance > LONG_PRESS_MOVE_THRESHOLD_PX
                        then cancelLongPressTimer (id_TM touchPoint) s else s)
              in updateTouches_TM env ts
                   (s1\<lparr>activeTouches := mapSet (touch_identifier touch)
                          (touchPoint\<lparr>x_TM := x, y_TM := y\<rparr>) (activeTouches s1)\<rparr>)))"

definition handleTouchMove_TM :: "Env \<Rightarrow> TouchEvent \<Rightarrow> TouchManager \<Rightarrow> TouchManager Completion" where
  "handleTouchMove_TM env e s =
     (case ev_touches e of
        [] \<Rightarrow> Normal s
      | [touch] \<Rightarrow>
          bindC (case map_of (activeTouches s) (touch_identifier touch) of
                   None \<Rightarrow> Normal s
                 | Some touchPoint \<Rightarrow>
                     (let x = clientX touch - rect_left env;
                          y = clientY touch - rect_top env;
                          deltaX = x - x_TM touchPoint;
                          deltaY = y - y_TM touchPoint
                      in if \<bar>deltaX\<bar> > 1 / 10 \<or> \<bar>deltaY\<bar> > 1 / 10
                         then triggerDragCallbacks (DragEvent deltaX deltaY 1 x y) s
                         else Normal s))
            (\<lambda>s1. Normal (updateTouches_TM env (ev_touches e) s1))
      | [touch1, touch2] \<Rightarrow>
          bindC (handleTwoFingerGestures env touch1 touch2 s)
            (\<lambda>s1. Normal (updateTouches_TM env (ev_touches e) s1))
      | _ \<Rightarrow> Normal (updateTouches_TM env (ev_touches e) s))"

text \<open>The loop of \<^verbatim>\<open>handleTouchEnd\<close> over \<^verbatim>\<open>e.changedTouches\<close>.\<close>

fun endTouches_TM :: "Env \<Rightarrow> Touch list \<Rightarrow> TouchManager \<Rightarrow> TouchManager Completion" where
  "endTouches_TM env [] s = Normal s"
| "endTouches_TM env (touch # ts) s =
     (case map_of (activeTouches s) (touch_identifier touch) of
        None \<Rightarrow> endTouches_TM env ts s
      | Some touchPoint \<Rightarrow>
          (let s1 = cancelLongPressTimer (touch_identifier touch) s;
               duration = env_now env - timestamp_TM touchPoint;
               distance = sqrt ((clientX touch - rect_left env - startX_TM touchPoint)\<^sup>2 +
                                (clientY touch - rect_top env - startY_TM touchPoint)\<^sup>2)
           in bindC (if duration < TAP_THRESHOLD_MS \<and> distance < TAP_MOVE_THRESHOLD_PX
                     then triggerTapCallbacks (TapEvent (startX_TM touchPoint) (startY_TM touchPoint)) s1
                     else Normal s1)
                (\<lambda>s2. endTouches_TM env ts
                         (s2\<lparr>activeTouches := mapDelete (touch_identifier touch) (activeTouches s2)\<rparr>))))"

definition handleTouchEnd_TM :: "Env \<Rightarrow> TouchEvent \<Rightarrow> TouchManager \<Rightarrow> TouchManager Completion" where
  "handleTouchEnd_TM env e s = endTouches_TM env (ev_changedTouches e) s"

fun cancelTouches_TM :: "Touch list \<Rightarrow> TouchManager \<Rightarrow> TouchManager" where
  "cancelTouches_TM [] s = s"
| "cancelTouches_TM (touch # ts) s =
     (let s1 = cancelLongPressTimer (touch_identifier touch) s
      in cancelTouches_TM ts (s1\<lparr>activeTouches := mapDelete (touch_identifier touch) (activeTouches s1)\<rparr>))"

definition handleTouchCancel_TM :: "TouchEvent \<Rightarrow> TouchManager \<Rightarrow> TouchManager" where
  "handleTouchCancel_TM e s = cancelTouches_TM (ev_changedTouches e) s"

definition onTap :: "Listener \<Rightarrow> TouchManager \<Rightarrow> TouchManager" where
  "onTap callback s = s\<lparr>tapCallbacks := tapCallbacks s @ [callback]\<rparr>"

definition onLongPress_TM :: "Listener \<Rightarrow> TouchManager \<Rightarrow> TouchManager" where
  "onLongPress_TM callback s = s\<lparr>longPressCallbacks_TM := longPressCallbacks_TM s @ [callback]\<rparr>"

definition onDrag :: "Listener \<Rightarrow> TouchManager \<Rightarrow> TouchManager" where
  "onDrag callback s = s\<lparr>dragCallbacks := dragCallbacks s @ [callback]\<rparr>"

definition onPinch :: "Listener \<Rightarrow> TouchManager \<Rightarrow> TouchManager" where
  "onPinch callback s = s\<lparr>pinchCallbacks := pinchCallbacks s @ [callback]\<rparr>"

text \<open>The unsubscribe closure: \<^verbatim>\<open>indexOf\<close> by identity, then \<^verbatim>\<open>splice(index, 1)\<close>.\<close>

fun spliceListener :: "nat \<Rightarrow> Listener list \<Rightarrow> Listener list" where
  "spliceListener i [] = []"
| "spliceListener i (l # ls) = (if listenerId l = i then ls else l # spliceListener i ls)"

definition unsubscribeTap :: "Listener \<Rightarrow> TouchManager \<Rightarrow> TouchManager" where
  "unsubscribeTap callback s = s\<lparr>tapCallbacks := spliceListener (listenerId callback) (tapCallbacks s)\<rparr>"

definition destroy_TM :: "TouchManager \<Rightarrow> TouchManager" where
  "destroy_TM s =
     s\<lparr>timeouts_TM := filter (\<lambda>e. fst e \<notin> set (map snd (longPressTimers s))) (timeouts_TM s),
       longPressTimers := [], activeTouches := []\<rparr>"

text \<open>Inputs of a TouchManager over time; a timer fires when the host says so.\<close>

datatype Input_TM =
    Start_TM Env TouchEvent
  | Move_TM Env TouchEvent
  | End_TM Env TouchEvent
  | Cancel_TM TouchEvent
  | Timeout_TM nat

text \<open>
  An exception that escapes a handler is reported by the host's event dispatch; the
  object keeps the state it had at the throw and later events are still delivered.
\<close>

fun step_TM :: "Input_TM \<Rightarrow> TouchManager \<Rightarrow> TouchManager" where
  "step_TM (Start_TM env e) s = handleTouchStart_TM env e s"
| "step_TM (Move_TM env e) s = stateOf (handleTouchMove_TM env e s)"
| "step_TM (End_TM env e) s = stateOf (handleTouchEnd_TM env e s)"
| "step_TM (Cancel_TM e) s = handleTouchCancel_TM e s"
| "step_TM (Timeout_TM h) s = stateOf (runTimeout_TM h s)"

fun run_TM :: "Input_TM list \<Rightarrow> TouchManager \<Rightarrow> TouchManager" where
  "run_TM [] s = s"
| "run_TM (i # is) s = run_TM is (step_TM i s)"

subsection \<open>TouchBlockController\<close>

text \<open>
  The enum \<^verbatim>\<open>BlockType\<close> of \<^verbatim>\<open>types/VoxelTypes\<close>, with the members and the order its
  unit test lists (\<^verbatim>\<open>AIR\<close> is 0).
\<close>

datatype BlockType =
  AIR | GRASS | DIRT | STONE | SAND | WATER | WOOD | LEAVES | SNOW | COBBLESTONE | BEDROCK

record TouchPoint_TBC =
  x_TBC :: real
  y_TBC :: real
  startX_TBC :: real
  startY_TBC :: real
  timestamp_TBC :: real
  moved :: bool

text \<open>Calls made to the collaborators: the block callbacks, the long press listeners, the vibrator.\<close>

datatype BlockCall =
    onPlaceBlock real real BlockType
  | onRemoveBlock real real
  | longPressCallback nat real real
  | vibrate nat

text \<open>
  \<^verbatim>\<open>timeouts_TBC\<close> is the host's list of pending long press timeouts (handle and the
  coordinates captured by the closure). The tap feedback element and its 400 ms removal
  timer touch only the document and are left out.
\<close>

record TouchBlockController =
  enabled_TBC :: bool
  currentTouch :: "TouchPoint_TBC option"
  touchCount :: nat
  currentBlock :: BlockType
  quickDeleteMode :: bool
  longPressTimer :: "nat option"
  tapMovementThreshold :: real
  tapDurationThreshold :: real
  longPressDuration :: real
  longPressCallbacks :: "nat list"
  getBlockAtPosition :: "real \<Rightarrow> real \<Rightarrow> BlockType"
  vibrateSupported :: bool
  timeouts_TBC :: "(nat \<times> real \<times> real) list"
  nextTimer_TBC :: nat
  blockCalls :: "BlockCall list"

definition initialTouchBlockController :: "(real \<Rightarrow> real \<Rightarrow> BlockType) \<Rightarrow> bool \<Rightarrow> TouchBlockController" where
  "initialTouchBlockController query vib =
     \<lparr>enabled_TBC = True, currentTouch = None, touchCount = 0, currentBlock = GRASS,
      quickDeleteMode = False, longPressTimer = None, tapMovementThreshold = 10,
      tapDurationThreshold = 300, longPressDuration = 500, longPressCallbacks = [],
      getBlockAtPosition = query, vibrateSupported = vib, timeouts_TBC = [],
      nextTimer_TBC = 1, blockCalls = []\<rparr>"

definition cancelLongPress :: "TouchBlockController \<Rightarrow> TouchBlockController" where
  "cancelLongPress s =
     (case longPressTimer s of
        None \<Rightarrow> s
      | Some h \<Rightarrow> s\<lparr>timeouts_TBC := filter (\<lambda>e. fst e \<noteq> h) (timeouts_TBC s), longPressTimer := None\<rparr>)"

definition startLongPressTimer :: "real \<Rightarrow> real \<Rightarrow> TouchBlockController \<Rightarrow> TouchBlockController" where
  "startLongPressTimer x y s =
     (let s1 = cancelLongPress s; h = nextTimer_TBC s1
      in s1\<lparr>timeouts_TBC := timeouts_TBC s1 @ [(h, x, y)], nextTimer_TBC := Suc h,
            longPressTimer := Some h\<rparr>)"

text \<open>The body of the long press timer's closure, which captured \<open>x\<close> and \<open>y\<close>.\<close>

definition longPressTimeout :: "real \<Rightarrow> real \<Rightarrow> TouchBlockController \<Rightarrow> TouchBlockController" where
  "longPressTimeout x y s =
     (case currentTouch s of
        None \<Rightarrow> s
      | Some ct \<Rightarrow>
          if moved ct then s
          else s\<lparr>quickDeleteMode := True,
                 blockCalls := blockCalls s @ map (\<lambda>c. longPressCallback c x y) (longPressCallbacks s)
                                 @ (if vibrateSupported s then [vibrate 50] else [])\<rparr>)"

definition runTimeout_TBC :: "nat \<Rightarrow> TouchBlockController \<Rightarrow> TouchBlockController" where
  "runTimeout_TBC h s =
     (case map_of (timeouts_TBC s) h of
        None \<Rightarrow> s
      | Some (x, y) \<Rightarrow> longPressTimeout x y (s\<lparr>timeouts_TBC := filter (\<lambda>e. fst e \<noteq> h) (timeouts_TBC s)\<rparr>))"

definition handleTap :: "real \<Rightarrow> real \<Rightarrow> TouchBlockController \<Rightarrow> TouchBlockController" where
  "handleTap x y s =
     (let existingBlock = getBlockAtPosition s x y
      in if existingBlock \<noteq> AIR then s\<lparr>blockCalls := blockCalls s @ [onRemoveBlock x y]\<rparr>
         else s\<lparr>blockCalls := blockCalls s @ [onPlaceBlock x y (currentBlock s)]\<rparr>)"

definition handleTouchStart_TBC :: "Env \<Rightarrow> TouchEvent \<Rightarrow> TouchBlockController \<Rightarrow> TouchBlockController" where
  "handleTouchStart_TBC env event s =
     (if \<not> enabled_TBC s then s
      else
        (let s1 = s\<lparr>touchCount := length (ev_touches event)\<rparr>
         in case ev_touches event of
              [touch] \<Rightarrow>
                (let x = clientX touch - rect_left env;
                     y = clientY touch - rect_top env;
                     s2 = s1\<lparr>currentTouch := Some \<lparr>x_TBC = x, y_TBC = y, startX_TBC = x, startY_TBC = y,
                                                    timestamp_TBC = env_now env, moved = False\<rparr>\<rparr>
                 in startLongPressTimer x y s2)
            | _ \<Rightarrow> cancelLongPress s1))"

definition handleTouchMove_TBC :: "Env \<Rightarrow> TouchEvent \<Rightarrow> TouchBlockController \<Rightarrow> TouchBlockController" where
  "handleTouchMove_TBC env event s =
     (if \<not> enabled_TBC s then s
      else case currentTouch s of
        None \<Rightarrow> s
      | Some ct \<Rightarrow>
          (let s1 = s\<lparr>touchCount := length (ev_touches event)\<rparr>
           in case ev_touches event of
                [touch] \<Rightarrow>
                  (let x = clientX touch - rect_left env;
                       y = clientY touch - rect_top env;
                       deltaX = x - startX_TBC ct;
                       deltaY = y - startY_TBC ct;
                       distance = sqrt (deltaX * deltaX + deltaY * deltaY)
                   in if distance > tapMovementThreshold s1
                      then (cancelLongPress s1)\<lparr>currentTouch := Some (ct\<lparr>moved := True, x_TBC := x, y_TBC := y\<rparr>)\<rparr>
                      else s1\<lparr>currentTouch := Some (ct\<lparr>x_TBC := x, y_TBC := y\<rparr>)\<rparr>)
              | _ \<Rightarrow> s1))"

text \<open>
  \<^verbatim>\<open>event.changedTouches[0]\<close> of an empty list is \<^verbatim>\<open>undefined\<close>, and reading its
  \<^verbatim>\<open>clientX\<close> throws.
\<close>

definition handleTouchEnd_TBC :: "Env \<Rightarrow> TouchEvent \<Rightarrow> TouchBlockController \<Rightarrow> TouchBlockController Completion" where
  "handleTouchEnd_TBC env event s =
     (if \<not> enabled_TBC s then Normal s
      else
        (let s1 = cancelLongPress s;
             s2 = s1\<lparr>touchCount := length (ev_touches event)\<rparr>
         in case currentTouch s2 of
              None \<Rightarrow> Normal (s2\<lparr>currentTouch := None, quickDeleteMode := False\<rparr>)
            | Some ct \<Rightarrow>
                if touchCount s2 > 0 then Normal (s2\<lparr>currentTouch := None, quickDeleteMode := False\<rparr>)
                else
                  (case ev_changedTouches event of
                     [] \<Rightarrow> Thrown s2
                   | touch # _ \<Rightarrow>
                       (let x = clientX touch - rect_left env;
                            y = clientY touch - rect_top env;
                            duration = env_now env - timestamp_TBC ct;
                            isTap = (\<not> moved ct \<and> duration < tapDurationThreshold s2);
                            s3 = (if isTap then handleTap x y s2 else s2)
                        in Normal (s3\<lparr>currentTouch := None, quickDeleteMode := False\<rparr>)))))"

definition handleTouchCancel_TBC :: "Env \<Rightarrow> TouchEvent \<Rightarrow> TouchBlockController \<Rightarrow> TouchBlockController Completion" where
  "handleTouchCancel_TBC env event s = handleTouchEnd_TBC env event s"

definition setCurrentBlock :: "BlockType \<Rightarrow> TouchBlockController \<Rightarrow> TouchBlockController" where
  "setCurrentBlock blockType s = s\<lparr>currentBlock := blockType\<rparr>"

definition onLongPress :: "nat \<Rightarrow> TouchBlockController \<Rightarrow> TouchBlockController" where
  "onLongPress callback s = s\<lparr>longPressCallbacks := longPressCallbacks s @ [callback]\<rparr>"

definition setTapMovementThreshold :: "real \<Rightarrow> TouchBlockController \<Rightarrow> TouchBlockController" where
  "setTapMovementThreshold threshold s = s\<lparr>tapMovementThreshold := threshold\<rparr>"

definition setTapDurationThreshold :: "real \<Rightarrow> TouchBlockController \<Rightarrow> TouchBlockController" where
  "setTapDurationThreshold threshold s = s\<lparr>tapDurationThreshold := threshold\<rparr>"

definition enable_TBC :: "TouchBlockController \<Rightarrow> TouchBlockController" where
  "enable_TBC s = s\<lparr>enabled_TBC := True\<rparr>"

definition disable_TBC :: "TouchBlockController \<Rightarrow> TouchBlockController" where
  "disable_TBC s = (cancelLongPress (s\<lparr>enabled_TBC := False, currentTouch := None\<rparr>))\<lparr>quickDeleteMode := False\<rparr>"

definition destroy_TBC :: "TouchBlockController \<Rightarrow> TouchBlockController" where
  "destroy_TBC s = (cancelLongPress s)\<lparr>currentTouch := None\<rparr>"

datatype Input_TBC =
    Start_TBC Env TouchEvent
  | Move_TBC Env TouchEvent
  | End_TBC Env TouchEvent
  | Cancel_TBC Env TouchEvent
  | Timeout_TBC nat

fun step_TBC :: "Input_TBC \<Rightarrow> TouchBlockController \<Rightarrow> TouchBlockController" where
  "step_TBC (Start_TBC env e) s = handleTouchStart_TBC env e s"
| "step_TBC (Move_TBC env e) s = handleTouchMove_TBC env e s"
| "step_TBC (End_TBC env e) s = stateOf (handleTouchEnd_TBC env e s)"
| "step_TBC (Cancel_TBC env e) s = stateOf (handleTouchCancel_TBC env e s)"
| "step_TBC (Timeout_TBC h) s = runTimeout_TBC h s"

fun run_TBC :: "Input_TBC list \<Rightarrow> TouchBlockController \<Rightarrow> TouchBlockController" where
  "run_TBC [] s = s"
| "run_TBC (i # is) s = run_TBC is (step_TBC i s)"

subsection \<open>Building concrete events\<close>

definition touch :: "int \<Rightarrow> real \<Rightarrow> real \<Rightarrow> Touch" where
  "touch i a b = \<lparr>touch_identifier = i, clientX = a, clientY = b\<rparr>"

definition touchEvent :: "Touch list \<Rightarrow> Touch list \<Rightarrow> TouchEvent" where
  "touchEvent ts cs = \<lparr>ev_touches = ts, ev_changedTouches = cs\<rparr>"

definition envAt :: "real \<Rightarrow> Env" where
  "envAt t = \<lparr>env_now = t, rect_left = 0, rect_top = 0\<rparr>"

definition twoFingers :: "real \<Rightarrow> real \<Rightarrow> real \<Rightarrow> TouchEvent" where
  "twoFingers a b c = touchEvent [touch 0 a c, touch 1 b c] []"

definition oneFinger :: "real \<Rightarrow> real \<Rightarrow> TouchEvent" where
  "oneFinger a b = touchEvent [touch 0 a b] []"

definition released :: "Touch list \<Rightarrow> TouchEvent" where
  "released cs = touchEvent [] cs"

subsection \<open>Vocabulary of the properties\<close>

text \<open>
  Every scheduled animation frame callback is the one the controller remembers in
  \<^verbatim>\<open>momentumAnimationId\<close>: the shape of the host's list in every state the controller
  can reach (lemma \<open>trackedFrames_reachable\<close>).
\<close>

definition trackedFrames :: "CameraTouchController \<Rightarrow> bool" where
  "trackedFrames s =
     (case frameCallbacks s of
        [] \<Rightarrow> True
      | [e] \<Rightarrow> momentumAnimationId s = Some (fst e)
      | _ \<Rightarrow> False)"

text \<open>
  Vocabulary for momentum sessions: the closure variables after \<open>k\<close> multiplications by
  the friction factor, the stop test at step \<open>k\<close>, the magnitudes of a camera call on
  each axis, and the calls made between two states.
\<close>

definition decayed :: "Anim \<Rightarrow> nat \<Rightarrow> Anim" where
  "decayed a k =
     \<lparr>lastX = velocityX a * MOMENTUM_FRICTION ^ k, lastY = velocityY a * MOMENTUM_FRICTION ^ k,
      velocityX = velocityX a * MOMENTUM_FRICTION ^ k, velocityY = velocityY a * MOMENTUM_FRICTION ^ k\<rparr>"

definition belowThreshold :: "Anim \<Rightarrow> nat \<Rightarrow> bool" where
  "belowThreshold a k =
     (\<bar>velocityX a * MOMENTUM_FRICTION ^ k\<bar> < MOMENTUM_MIN_VELOCITY
      \<and> \<bar>velocityY a * MOMENTUM_FRICTION ^ k\<bar> < MOMENTUM_MIN_VELOCITY)"

fun magnitudeX :: "CameraCall \<Rightarrow> real" where
  "magnitudeX (rotateCamera dx dy) = \<bar>dx\<bar>"
| "magnitudeX (zoomCamera d) = \<bar>d\<bar>"
| "magnitudeX (panCamera dx dy) = \<bar>dx\<bar>"

fun magnitudeY :: "CameraCall \<Rightarrow> real" where
  "magnitudeY (rotateCamera dx dy) = \<bar>dy\<bar>"
| "magnitudeY (zoomCamera d) = 0"
| "magnitudeY (panCamera dx dy) = \<bar>dy\<bar>"

definition notLarger :: "CameraCall \<Rightarrow> CameraCall \<Rightarrow> bool" where
  "notLarger c d = (magnitudeX d \<le> magnitudeX c \<and> magnitudeY d \<le> magnitudeY c)"

definition smallerCall :: "CameraCall \<Rightarrow> CameraCall \<Rightarrow> bool" where
  "smallerCall c d = (notLarger c d \<and> (magnitudeX d < magnitudeX c \<or> magnitudeY d < magnitudeY c))"

definition newCalls :: "CameraTouchController \<Rightarrow> CameraTouchController \<Rightarrow> CameraCall list" where
  "newCalls s s' = drop (length (cameraCalls s)) (cameraCalls s')"

text \<open>
  A controller with one scheduled momentum session whose closure holds \<open>last = 0\<close> and
  the velocity \<open>(u, v)\<close>. (\<^verbatim>\<open>startMomentum\<close> itself only ever schedules \<open>u = v = 0\<close>: it
  clears the stored velocity before the closure reads it, lemma \<open>startMomentum_tracked\<close>.)
\<close>

definition seededSession :: "real \<Rightarrow> real \<Rightarrow> CameraTouchController" where
  "seededSession u v =
     initialController\<lparr>frameCallbacks := [(1, \<lparr>lastX = 0, lastY = 0, velocityX = u, velocityY = v\<rparr>)],
                        momentumAnimationId := Some 1, nextHandle := 2\<rparr>"

text \<open>Two listeners: one that always throws, one that never does.\<close>

definition throwingListener :: "nat \<Rightarrow> Listener" where
  "throwingListener i = \<lparr>listenerId = i, throwsOn = (\<lambda>event. True)\<rparr>"

definition quietListener :: "nat \<Rightarrow> Listener" where
  "quietListener i = \<lparr>listenerId = i, throwsOn = (\<lambda>event. False)\<rparr>"

text \<open>A manager with a throwing tap listener registered before a quiet one.\<close>

definition tapSetup :: "TouchManager" where
  "tapSetup = onTap (quietListener 2) (onTap (throwingListener 1) initialTouchManager)"

text \<open>
  Samples of a single contact between its start and its release: a move with one touch,
  or the long press timer firing. \<open>movedBeyond\<close> is the test \<^verbatim>\<open>handleTouchMove\<close> makes on a
  move sample, against the start position \<open>(sx, sy)\<close>.
\<close>

fun movedBeyond :: "real \<Rightarrow> real \<Rightarrow> real \<Rightarrow> Input_TBC \<Rightarrow> bool" where
  "movedBeyond sx sy thr (Move_TBC env e) =
     (case ev_touches e of
        [t] \<Rightarrow> sqrt ((clientX t - rect_left env - sx) * (clientX t - rect_left env - sx)
                    + (clientY t - rect_top env - sy) * (clientY t - rect_top env - sy)) > thr
      | _ \<Rightarrow> False)"
| "movedBeyond sx sy thr _ = False"

fun singleContactSample :: "Input_TBC \<Rightarrow> bool" where
  "singleContactSample (Move_TBC env e) = (length (ev_touches e) = 1)"
| "singleContactSample (Timeout_TBC h) = True"
| "singleContactSample _ = False"

text \<open>A manager with one quiet tap listener; a block controller over an empty world.\<close>

definition tapListener :: TouchManager where
  "tapListener = onTap (quietListener 1) initialTouchManager"

definition emptyWorld :: TouchBlockController where
  "emptyWorld = initialTouchBlockController (\<lambda>x y. AIR) False"

text \<open>
  Inputs while a second contact is down (anything but a touch start with exactly one
  contact and a release of all contacts at once), and inputs that start no new tap
  candidate (anything but a touch start with exactly one contact).
\<close>

fun multiTouchPhase :: "Input_TBC \<Rightarrow> bool" where
  "multiTouchPhase (Start_TBC env e) = (length (ev_touches e) \<noteq> 1)"
| "multiTouchPhase (Move_TBC env e) = True"
| "multiTouchPhase (End_TBC env e) = (ev_touches e \<noteq> [])"
| "multiTouchPhase (Cancel_TBC env e) = (ev_touches e \<noteq> [])"
| "multiTouchPhase (Timeout_TBC h) = True"

fun noNewCandidate :: "Input_TBC \<Rightarrow> bool" where
  "noNewCandidate (Start_TBC env e) = (length (ev_touches e) \<noteq> 1)"
| "noNewCandidate i = True"

text \<open>The only pending long press timeout is the one in \<^verbatim>\<open>longPressTimer\<close>.\<close>

definition timersTracked :: "TouchBlockController \<Rightarrow> bool" where
  "timersTracked s =
     (case timeouts_TBC s of
        [] \<Rightarrow> True
      | [t] \<Rightarrow> longPressTimer s = Some (fst t)
      | _ \<Rightarrow> False)"

text \<open>One contact is down at (100, 100), a long press listener is registered.\<close>

definition heldContact :: TouchBlockController where
  "heldContact = step_TBC (Start_TBC (envAt 0) (oneFinger 100 100)) (onLongPress 7 emptyWorld)"

text \<open>
  What \<^verbatim>\<open>handleTouchEnd\<close> of TouchManager does for one ended touch when no tap listener
  throws: the listener calls it makes, decided from the record stored under the touch's
  identifier (none without a record). \<open>recordedStart\<close> reads the start point and the
  timestamp of a stored record, and \<open>keepsRecord i\<close> holds of the inputs that neither end
  or cancel the contact \<open>i\<close> nor are a touch start that lists it.
\<close>

definition tapOutcome :: "Env \<Rightarrow> TouchManager \<Rightarrow> Touch \<Rightarrow> (nat \<times> GestureEvent) list" where
  "tapOutcome env m t =
     (case map_of (activeTouches m) (touch_identifier t) of
        None \<Rightarrow> []
      | Some p \<Rightarrow>
          if env_now env - timestamp_TM p < TAP_THRESHOLD_MS
             \<and> sqrt ((clientX t - rect_left env - startX_TM p)\<^sup>2
                     + (clientY t - rect_top env - startY_TM p)\<^sup>2) < TAP_MOVE_THRESHOLD_PX
          then map (\<lambda>c. (listenerId c, TapEvent (startX_TM p) (startY_TM p))) (tapCallbacks m)
          else [])"

definition recordedStart :: "TouchManager \<Rightarrow> int \<Rightarrow> (real \<times> real \<times> real) option" where
  "recordedStart m i =
     map_option (\<lambda>p. (startX_TM p, startY_TM p, timestamp_TM p)) (map_of (activeTouches m) i)"

fun keepsRecord :: "int \<Rightarrow> Input_TM \<Rightarrow> bool" where
  "keepsRecord i (Start_TM env e) = (i \<notin> set (map touch_identifier (ev_touches e)))"
| "keepsRecord i (Move_TM env e) = True"
| "keepsRecord i (End_TM env e) = (i \<notin> set (map touch_identifier (ev_changedTouches e)))"
| "keepsRecord i (Cancel_TM e) = (i \<notin> set (map touch_identifier (ev_changedTouches e)))"
| "keepsRecord i (Timeout_TM h) = True"

section \<open>CameraTouchController: properties\<close>

lemmas camera_defs =
  handleTouchStart_def handleTouchMove_def handleTouchEnd_def handleTouchCancel_def
  updateGestureType_def handleRotateGesture_def handlePinchGesture_def handlePanGesture_def
  calculateVelocity_def startMomentum_def stopMomentum_def animate_def
  cancelAnimationFrame_def requestAnimationFrame_def animationFrame_def
  setRotationSensitivity_def setZoomSensitivity_def setPanSensitivity_def
  setMomentumEnabled_def enable_def disable_def destroy_def
  mapValues_def mapDelete_def newTouchPoint_def calculateMidpoint_def
  initialController_def zeroVelocity_def touch_def touchEvent_def Let_def
  MOMENTUM_FRICTION_def MOMENTUM_MIN_VELOCITY_def
  twoFingers_def oneFinger_def released_def

lemma calculateDistance_horizontal:
  "ty a = ty b \<Longrightarrow> calculateDistance a b = \<bar>tx b - tx a\<bar>"
  by (simp add: calculateDistance_def)

lemma calculateDistance_nonneg: "0 \<le> calculateDistance a b"
  by (simp add: calculateDistance_def Let_def)

lemma handleTouchMove_two:
  assumes "enabled s" and "ev_touches e = [t1, t2]"
      and "touch_identifier t1 \<noteq> touch_identifier t2"
  shows "handleTouchMove e now s =
     (let p1 = newTouchPoint t1 now; p2 = newTouchPoint t2 now;
          s1 = s\<lparr>touches := [(touch_identifier t1, p1), (touch_identifier t2, p2)]\<rparr>
      in if previousDistance s = 0 \<or> \<bar>calculateDistance p1 p2 - previousDistance s\<bar> > 5
         then handlePinchGesture (s1\<lparr>gestureType := Pinch\<rparr>)
         else handlePanGesture (s1\<lparr>gestureType := Pan\<rparr>))"
  using assms
  by (simp add: handleTouchMove_def updateGestureType_def Let_def mapValues_def)

subsection \<open>Pan samples and the stored midpoint\<close>

text \<open>
  Claim C10. On a move sample with two contacts that is classified Pan, \<^verbatim>\<open>panCamera\<close> is
  called, with the midpoint delta scaled by the pan sensitivity, exactly when both
  coordinates of the stored previous midpoint are nonzero; whether or not it is called,
  the stored midpoint becomes the current midpoint.
\<close>

theorem pan_sample_midpoint_guard:
  assumes "enabled s" and "ev_touches e = [t1, t2]"
      and "touch_identifier t1 \<noteq> touch_identifier t2"
      and "gestureType (handleTouchMove e now s) = Pan"
  shows "cameraCalls (handleTouchMove e now s) =
           cameraCalls s @
           (if fst (previousMidpoint s) \<noteq> 0 \<and> snd (previousMidpoint s) \<noteq> 0
            then [panCamera
                    ((fst (calculateMidpoint (newTouchPoint t1 now) (newTouchPoint t2 now)) - fst (previousMidpoint s)) * panSensitivity s)
                    ((snd (calculateMidpoint (newTouchPoint t1 now) (newTouchPoint t2 now)) - snd (previousMidpoint s)) * panSensitivity s)]
            else [])
         \<and> previousMidpoint (handleTouchMove e now s) =
             calculateMidpoint (newTouchPoint t1 now) (newTouchPoint t2 now)"
  using assms(4) unfolding handleTouchMove_two[OF assms(1-3)]
  by (simp add: Let_def handlePinchGesture_def handlePanGesture_def mapValues_def split: if_splits)

text \<open>
  Two Pan samples after a two finger start: the first finds the midpoint (150, 100) and
  pans; it leaves the midpoint (170, 0), so the second does not pan, yet stores (170, 50).
\<close>

theorem pan_sample_midpoint_guard_witness:
  "enabled (handleTouchStart (twoFingers 100 200 100) 0 initialController)
   \<and> ev_touches (twoFingers 120 220 0) = [touch 0 120 0, touch 1 220 0]
   \<and> touch_identifier (touch 0 120 0) \<noteq> touch_identifier (touch 1 220 0)
   \<and> gestureType (handleTouchMove (twoFingers 120 220 0) 16
         (handleTouchStart (twoFingers 100 200 100) 0 initialController)) = Pan
   \<and> cameraCalls (handleTouchMove (twoFingers 120 220 0) 16
         (handleTouchStart (twoFingers 100 200 100) 0 initialController)) = [panCamera 20 (- 100)]
   \<and> gestureType (handleTouchMove (twoFingers 120 220 50) 32 (handleTouchMove (twoFingers 120 220 0) 16
         (handleTouchStart (twoFingers 100 200 100) 0 initialController))) = Pan
   \<and> cameraCalls (handleTouchMove (twoFingers 120 220 50) 32 (handleTouchMove (twoFingers 120 220 0) 16
         (handleTouchStart (twoFingers 100 200 100) 0 initialController))) = [panCamera 20 (- 100)]
   \<and> previousMidpoint (handleTouchMove (twoFingers 120 220 50) 32 (handleTouchMove (twoFingers 120 220 0) 16
         (handleTouchStart (twoFingers 100 200 100) 0 initialController))) = (170, 50)"
proof -
  let ?s0 = "handleTouchStart (twoFingers 100 200 100) 0 initialController"
  let ?s1 = "handleTouchMove (twoFingers 120 220 0) 16 ?s0"
  have h1: "enabled ?s0"
    by (simp add: camera_defs calculateDistance_horizontal)
  have h2: "ev_touches (twoFingers 120 220 0) = [touch 0 120 0, touch 1 220 0]"
    by (simp add: twoFingers_def touchEvent_def)
  have h3: "touch_identifier (touch 0 120 0) \<noteq> touch_identifier (touch 1 220 0)"
    by (simp add: touch_def)
  have h4: "gestureType ?s1 = Pan"
    by (simp add: camera_defs calculateDistance_horizontal)
  note a = pan_sample_midpoint_guard[OF h1 h2 h3 h4]
  have e1: "enabled ?s1"
    by (simp add: camera_defs calculateDistance_horizontal)
  have h2': "ev_touches (twoFingers 120 220 50) = [touch 0 120 50, touch 1 220 50]"
    by (simp add: twoFingers_def touchEvent_def)
  have h3': "touch_identifier (touch 0 120 50) \<noteq> touch_identifier (touch 1 220 50)"
    by (simp add: touch_def)
  have h4': "gestureType (handleTouchMove (twoFingers 120 220 50) 32 ?s1) = Pan"
    by (simp add: camera_defs calculateDistance_horizontal)
  note b = pan_sample_midpoint_guard[OF e1 h2' h3' h4']
  have pm0: "previousMidpoint ?s0 = (150, 100)" "panSensitivity ?s0 = 1" "cameraCalls ?s0 = []"
    by (simp_all add: camera_defs calculateDistance_horizontal)
  have pm1: "previousMidpoint ?s1 = (170, 0)" "panSensitivity ?s1 = 1"
    by (simp_all add: camera_defs calculateDistance_horizontal)
  show ?thesis
    using h1 h2 h3 h4 h4' a b
    by (simp add: pm0 pm1 calculateMidpoint_def newTouchPoint_def touch_def)
qed

lemma handleTouchMove_two_gesture:
  assumes "enabled s" and "ev_touches e = [t1, t2]"
      and "touch_identifier t1 \<noteq> touch_identifier t2"
  shows "gestureType (handleTouchMove e now s) =
           (if previousDistance s = 0 \<or>
               \<bar>calculateDistance (newTouchPoint t1 now) (newTouchPoint t2 now) - previousDistance s\<bar> > 5
            then Pinch else Pan)"
  unfolding handleTouchMove_two[OF assms(1-3)]
  by (simp add: Let_def handlePinchGesture_def handlePanGesture_def mapValues_def)

subsection \<open>Pinch samples and the zoom delta\<close>

text \<open>
  Claim C9, as amended. On a move sample with two contacts that is classified Pinch while
  the stored previous distance is positive, \<^verbatim>\<open>zoomCamera\<close> is called once, with
  \<open>- distanceChange * 0.01 * zoomSensitivity\<close>; when the zoom sensitivity is positive, a
  decreasing inter-contact distance makes this delta strictly positive.
\<close>

theorem pinch_sample_zoom:
  assumes "enabled s" and "ev_touches e = [t1, t2]"
      and "touch_identifier t1 \<noteq> touch_identifier t2"
      and "gestureType (handleTouchMove e now s) = Pinch"
      and "previousDistance s > 0"
  shows "cameraCalls (handleTouchMove e now s) =
           cameraCalls s @
           [zoomCamera (- (calculateDistance (newTouchPoint t1 now) (newTouchPoint t2 now) - previousDistance s)
                          * (1 / 100) * zoomSensitivity s)]
         \<and> (zoomSensitivity s > 0 \<and>
              calculateDistance (newTouchPoint t1 now) (newTouchPoint t2 now) < previousDistance s
              \<longrightarrow> 0 < - (calculateDistance (newTouchPoint t1 now) (newTouchPoint t2 now) - previousDistance s)
                          * (1 / 100) * zoomSensitivity s)"
proof -
  have "cameraCalls (handleTouchMove e now s) =
           cameraCalls s @
           [zoomCamera (- (calculateDistance (newTouchPoint t1 now) (newTouchPoint t2 now) - previousDistance s)
                          * (1 / 100) * zoomSensitivity s)]"
  proof -
    have c: "previousDistance s = 0 \<or>
               \<bar>calculateDistance (newTouchPoint t1 now) (newTouchPoint t2 now) - previousDistance s\<bar> > 5"
      using assms(4) unfolding handleTouchMove_two_gesture[OF assms(1-3)]
      by (simp split: if_splits)
    show ?thesis
      using c assms(5) unfolding handleTouchMove_two[OF assms(1-3)]
      by (simp add: Let_def handlePinchGesture_def mapValues_def) (simp add: field_simps)?
  qed
  moreover have "zoomSensitivity s > 0 \<and>
              calculateDistance (newTouchPoint t1 now) (newTouchPoint t2 now) < previousDistance s
              \<longrightarrow> 0 < - (calculateDistance (newTouchPoint t1 now) (newTouchPoint t2 now) - previousDistance s)
                          * (1 / 100) * zoomSensitivity s"
    by (simp add: zero_less_mult_iff)
  ultimately show ?thesis by blast
qed

text \<open>
  The scenario of the specification, at the default sensitivity 1: contacts at (100,100)
  and (200,100) move to (125,100) and (175,100); \<^verbatim>\<open>zoomCamera\<close> receives 0.5.
\<close>

theorem pinch_sample_zoom_witness:
  "enabled (handleTouchStart (twoFingers 100 200 100) 0 initialController)
   \<and> ev_touches (twoFingers 125 175 100) = [touch 0 125 100, touch 1 175 100]
   \<and> touch_identifier (touch 0 125 100) \<noteq> touch_identifier (touch 1 175 100)
   \<and> gestureType (handleTouchMove (twoFingers 125 175 100) 16
         (handleTouchStart (twoFingers 100 200 100) 0 initialController)) = Pinch
   \<and> previousDistance (handleTouchStart (twoFingers 100 200 100) 0 initialController) = 100
   \<and> zoomSensitivity (handleTouchStart (twoFingers 100 200 100) 0 initialController) = 1
   \<and> calculateDistance (newTouchPoint (touch 0 125 100) 16) (newTouchPoint (touch 1 175 100) 16) = 50
   \<and> cameraCalls (handleTouchMove (twoFingers 125 175 100) 16
         (handleTouchStart (twoFingers 100 200 100) 0 initialController)) = [zoomCamera (1 / 2)]
   \<and> (0::real) < 1 / 2"
proof -
  let ?s0 = "handleTouchStart (twoFingers 100 200 100) 0 initialController"
  have h1: "enabled ?s0"
    by (simp add: camera_defs calculateDistance_horizontal)
  have h2: "ev_touches (twoFingers 125 175 100) = [touch 0 125 100, touch 1 175 100]"
    by (simp add: twoFingers_def touchEvent_def)
  have h3: "touch_identifier (touch 0 125 100) \<noteq> touch_identifier (touch 1 175 100)"
    by (simp add: touch_def)
  have h4: "gestureType (handleTouchMove (twoFingers 125 175 100) 16 ?s0) = Pinch"
    by (simp add: camera_defs calculateDistance_horizontal)
  have pd: "previousDistance ?s0 = 100" "zoomSensitivity ?s0 = 1" "cameraCalls ?s0 = []"
    by (simp_all add: camera_defs calculateDistance_horizontal)
  have h5: "previousDistance ?s0 > 0" by (simp add: pd)
  have d: "calculateDistance (newTouchPoint (touch 0 125 100) 16) (newTouchPoint (touch 1 175 100) 16) = 50"
    by (simp add: calculateDistance_horizontal newTouchPoint_def touch_def)
  show ?thesis
    using h1 h2 h3 h4 pinch_sample_zoom[OF h1 h2 h3 h4 h5]
    by (simp add: pd d)
qed

text \<open>
  The sensitivity is not clamped: after \<^verbatim>\<open>setZoomSensitivity(-1)\<close> the same closing
  pinch sends \<open>- 0.5\<close>, which is not positive.
\<close>

theorem pinch_closing_nonpositive_zoom_counterexample:
  "gestureType (handleTouchMove (twoFingers 125 175 100) 16
      (handleTouchStart (twoFingers 100 200 100) 0 (setZoomSensitivity (- 1) initialController))) = Pinch
   \<and> previousDistance (handleTouchStart (twoFingers 100 200 100) 0 (setZoomSensitivity (- 1) initialController)) = 100
   \<and> calculateDistance (newTouchPoint (touch 0 125 100) 16) (newTouchPoint (touch 1 175 100) 16) = 50
   \<and> cameraCalls (handleTouchMove (twoFingers 125 175 100) 16
      (handleTouchStart (twoFingers 100 200 100) 0 (setZoomSensitivity (- 1) initialController)))
      = [zoomCamera (- (1 / 2))]
   \<and> \<not> (0::real) < - (1 / 2)"
  by (simp add: camera_defs calculateDistance_horizontal)

subsection \<open>Pinch or Pan on a two contact sample\<close>

text \<open>
  Claim C2, as amended. On a move sample with exactly two contacts the gesture is Pinch
  exactly when the stored \<^verbatim>\<open>previousDistance\<close> is 0 or the current inter-contact distance
  differs from it by more than 5, and Pan otherwise; the sample replaces the stored
  distance by the current one only when it is classified Pinch, a Pan sample leaves it
  as it was.
\<close>

theorem two_contact_classification:
  assumes "enabled s" and "ev_touches e = [t1, t2]"
      and "touch_identifier t1 \<noteq> touch_identifier t2"
  shows "gestureType (handleTouchMove e now s) =
           (if previousDistance s = 0 \<or>
               \<bar>calculateDistance (newTouchPoint t1 now) (newTouchPoint t2 now) - previousDistance s\<bar> > 5
            then Pinch else Pan)
         \<and> previousDistance (handleTouchMove e now s) =
           (if gestureType (handleTouchMove e now s) = Pinch
            then calculateDistance (newTouchPoint t1 now) (newTouchPoint t2 now)
            else previousDistance s)"
  unfolding handleTouchMove_two[OF assms(1-3)]
  by (simp add: Let_def handlePinchGesture_def handlePanGesture_def mapValues_def)

text \<open>A sample 3 units wider than the start is Pan and keeps the baseline 100.\<close>

theorem two_contact_classification_witness:
  "enabled (handleTouchStart (twoFingers 100 200 100) 0 initialController)
   \<and> ev_touches (twoFingers 100 203 100) = [touch 0 100 100, touch 1 203 100]
   \<and> touch_identifier (touch 0 100 100) \<noteq> touch_identifier (touch 1 203 100)
   \<and> gestureType (handleTouchMove (twoFingers 100 203 100) 16
        (handleTouchStart (twoFingers 100 200 100) 0 initialController)) = Pan
   \<and> previousDistance (handleTouchMove (twoFingers 100 203 100) 16
        (handleTouchStart (twoFingers 100 200 100) 0 initialController)) = 100"
proof -
  let ?s0 = "handleTouchStart (twoFingers 100 200 100) 0 initialController"
  have h1: "enabled ?s0"
    by (simp add: camera_defs calculateDistance_horizontal)
  have h2: "ev_touches (twoFingers 100 203 100) = [touch 0 100 100, touch 1 203 100]"
    by (simp add: twoFingers_def touchEvent_def)
  have h3: "touch_identifier (touch 0 100 100) \<noteq> touch_identifier (touch 1 203 100)"
    by (simp add: touch_def)
  have pd: "previousDistance ?s0 = 100"
    by (simp add: camera_defs calculateDistance_horizontal)
  have d: "calculateDistance (newTouchPoint (touch 0 100 100) 16) (newTouchPoint (touch 1 203 100) 16) = 103"
    by (simp add: calculateDistance_horizontal newTouchPoint_def touch_def)
  show ?thesis
    using h1 h2 h3 two_contact_classification[OF h1 h2 h3, of 16]
    by (simp add: pd d)
qed

text \<open>
  The baseline is not the preceding sample: distances 100, 103, 106 give Pan and then
  Pinch, although the last sample differs from the one before it by 3 only.
\<close>

theorem pinch_baseline_not_previous_sample_counterexample:
  "gestureType (run [TouchStart (twoFingers 100 200 100) 0,
                     TouchMove (twoFingers 100 203 100) 16] initialController) = Pan
   \<and> gestureType (run [TouchStart (twoFingers 100 200 100) 0,
                        TouchMove (twoFingers 100 203 100) 16,
                        TouchMove (twoFingers 100 206 100) 32] initialController) = Pinch
   \<and> calculateDistance (newTouchPoint (touch 0 100 100) 16) (newTouchPoint (touch 1 203 100) 16) = 103
   \<and> calculateDistance (newTouchPoint (touch 0 100 100) 32) (newTouchPoint (touch 1 206 100) 32) = 106
   \<and> \<not> \<bar>(106::real) - 103\<bar> > 5"
  by (simp add: camera_defs calculateDistance_horizontal)

subsection \<open>A later two finger start\<close>

text \<open>
  Claim C3 fails on the code. After a two finger gesture that left the stored distance
  100 and the release of both contacts, a new two finger start 102 apart is compared
  with the stale 100 and classified Pan: the stored distance is never put back to 0.
\<close>

theorem second_two_finger_start_is_pan:
  "length (touches (run [TouchStart (twoFingers 100 200 100) 0,
                         TouchEnd (released [touch 0 100 100, touch 1 200 100]) 50] initialController)) = 0
   \<and> previousDistance (run [TouchStart (twoFingers 100 200 100) 0,
                         TouchEnd (released [touch 0 100 100, touch 1 200 100]) 50] initialController) = 100
   \<and> length (touches (run [TouchStart (twoFingers 100 200 100) 0,
                         TouchEnd (released [touch 0 100 100, touch 1 200 100]) 50,
                         TouchStart (twoFingers 100 202 100) 100] initialController)) = 2
   \<and> gestureType (run [TouchStart (twoFingers 100 200 100) 0,
                        TouchEnd (released [touch 0 100 100, touch 1 200 100]) 50,
                        TouchStart (twoFingers 100 202 100) 100] initialController) = Pan"
  by (simp add: camera_defs calculateDistance_horizontal)

subsection \<open>Scheduling and cancelling momentum\<close>

lemma trackedFrames_iff:
  "trackedFrames s \<longleftrightarrow>
     frameCallbacks s = [] \<or> (\<exists>h a. frameCallbacks s = [(h, a)] \<and> momentumAnimationId s = Some h)"
  by (auto simp: trackedFrames_def split: list.splits)

lemma stopMomentum_tracked:
  "trackedFrames s \<Longrightarrow>
   stopMomentum s = s\<lparr>velocity := zeroVelocity, momentumAnimationId := None, frameCallbacks := []\<rparr>"
  by (auto simp: trackedFrames_iff stopMomentum_def cancelAnimationFrame_def split: option.splits)

lemma stopMomentum_fields [simp]:
  "cameraCalls (stopMomentum s) = cameraCalls s"
  "velocity (stopMomentum s) = zeroVelocity"
  "momentumAnimationId (stopMomentum s) = None"
  "enabled (stopMomentum s) = enabled s"
  "momentumEnabled (stopMomentum s) = momentumEnabled s"
  "rotationSensitivity (stopMomentum s) = rotationSensitivity s"
  "nextHandle (stopMomentum s) = nextHandle s"
  "touches (stopMomentum s) = touches s"
  "gestureType (stopMomentum s) = gestureType s"
  "previousDistance (stopMomentum s) = previousDistance s"
  "previousMidpoint (stopMomentum s) = previousMidpoint s"
  by (simp_all add: stopMomentum_def cancelAnimationFrame_def split: option.splits)

lemma stopMomentum_callbacks:
  "trackedFrames s \<Longrightarrow> frameCallbacks (stopMomentum s) = []"
  by (simp add: stopMomentum_tracked)

lemma animationFrame_idle: "frameCallbacks s = [] \<Longrightarrow> animationFrame s = s"
  by (simp add: animationFrame_def)

lemma frames_Suc: "frames (Suc n) s = frames n (animationFrame s)"
  by (simp add: frames_def funpow_swap1)

lemma frames_0 [simp]: "frames 0 s = s"
  by (simp add: frames_def)

lemma frames_idle: "frameCallbacks s = [] \<Longrightarrow> frames n s = s"
  by (induction n) (simp_all add: frames_Suc animationFrame_idle)

lemma frames_add: "frames (m + n) s = frames m (frames n s)"
  by (simp add: frames_def funpow_add)

lemma animationFrame_single:
  "frameCallbacks s = [(h, a)] \<Longrightarrow> animationFrame s = animate a (s\<lparr>frameCallbacks := []\<rparr>)"
  by (simp add: animationFrame_def cancelAnimationFrame_def)

lemma updateGestureType_fields [simp]:
  "cameraCalls (updateGestureType s) = cameraCalls s"
  "velocity (updateGestureType s) = velocity s"
  "momentumAnimationId (updateGestureType s) = momentumAnimationId s"
  "frameCallbacks (updateGestureType s) = frameCallbacks s"
  "touches (updateGestureType s) = touches s"
  "nextHandle (updateGestureType s) = nextHandle s"
  "enabled (updateGestureType s) = enabled s"
  "momentumEnabled (updateGestureType s) = momentumEnabled s"
  "rotationSensitivity (updateGestureType s) = rotationSensitivity s"
  by (simp_all add: updateGestureType_def Let_def)

lemma handleTouchStart_momentum:
  assumes "enabled s"
  shows "frameCallbacks (handleTouchStart e now s) = frameCallbacks (stopMomentum s)"
    and "momentumAnimationId (handleTouchStart e now s) = None"
    and "velocity (handleTouchStart e now s) = zeroVelocity"
    and "cameraCalls (handleTouchStart e now s) = cameraCalls s"
  using assms
  by (simp_all add: handleTouchStart_def Let_def split: list.splits)

text \<open>
  Claim C7. When a momentum session is active (its callback is scheduled) and a touch
  start is handled by the enabled controller, the handler itself cancels the callback
  and clears the stored velocity: nothing is left scheduled, so no later frame makes
  a camera call for the session.
\<close>

theorem touch_start_cancels_momentum:
  assumes "enabled s" and "trackedFrames s" and "frameCallbacks s \<noteq> []"
  shows "frameCallbacks (handleTouchStart e now s) = []
         \<and> momentumAnimationId (handleTouchStart e now s) = None
         \<and> velocity (handleTouchStart e now s) = zeroVelocity
         \<and> cameraCalls (handleTouchStart e now s) = cameraCalls s
         \<and> (\<forall>n. cameraCalls (frames n (handleTouchStart e now s)) = cameraCalls s)"
proof -
  have c: "frameCallbacks (handleTouchStart e now s) = []"
    by (simp add: handleTouchStart_momentum(1)[OF assms(1)] stopMomentum_callbacks[OF assms(2)])
  have "\<forall>n. frames n (handleTouchStart e now s) = handleTouchStart e now s"
    using frames_idle[OF c] by blast
  then show ?thesis
    using c handleTouchStart_momentum(2-4)[OF assms(1)] by simp
qed


lemma animate_idle_stop:
  assumes "frameCallbacks s = []"
      and "\<bar>velocityX a * MOMENTUM_FRICTION\<bar> < MOMENTUM_MIN_VELOCITY"
      and "\<bar>velocityY a * MOMENTUM_FRICTION\<bar> < MOMENTUM_MIN_VELOCITY"
  shows "animate a s = s\<lparr>velocity := zeroVelocity, momentumAnimationId := None\<rparr>"
  using assms
  by (simp add: animate_def stopMomentum_def cancelAnimationFrame_def split: option.splits)

lemma animate_idle_continue:
  assumes "frameCallbacks s = []"
      and "\<not> (\<bar>velocityX a * MOMENTUM_FRICTION\<bar> < MOMENTUM_MIN_VELOCITY
             \<and> \<bar>velocityY a * MOMENTUM_FRICTION\<bar> < MOMENTUM_MIN_VELOCITY)"
  shows "animate a s =
     s\<lparr>cameraCalls := cameraCalls s @
           (if \<bar>velocityX a * MOMENTUM_FRICTION - lastX a\<bar> > 1 / 100
               \<or> \<bar>velocityY a * MOMENTUM_FRICTION - lastY a\<bar> > 1 / 100
            then [rotateCamera ((velocityX a * MOMENTUM_FRICTION - lastX a) * rotationSensitivity s)
                               ((velocityY a * MOMENTUM_FRICTION - lastY a) * rotationSensitivity s)]
            else []),
       frameCallbacks := [(nextHandle s,
            \<lparr>lastX = velocityX a * MOMENTUM_FRICTION, lastY = velocityY a * MOMENTUM_FRICTION,
             velocityX = velocityX a * MOMENTUM_FRICTION, velocityY = velocityY a * MOMENTUM_FRICTION\<rparr>)],
       nextHandle := Suc (nextHandle s),
       momentumAnimationId := Some (nextHandle s)\<rparr>"
  using assms
  by (auto simp: animate_def requestAnimationFrame_def Let_def)

lemma trackedFrames_animationFrame: "trackedFrames s \<Longrightarrow> trackedFrames (animationFrame s)"
proof -
  assume t: "trackedFrames s"
  show ?thesis
  proof (cases "frameCallbacks s")
    case Nil
    then show ?thesis using t by (simp add: animationFrame_idle)
  next
    case (Cons e es)
    with t obtain h a where f: "frameCallbacks s = [(h, a)]"
      by (auto simp: trackedFrames_iff)
    have i: "frameCallbacks (s\<lparr>frameCallbacks := []\<rparr>) = []" by simp
    show ?thesis
    proof (cases "\<bar>velocityX a * MOMENTUM_FRICTION\<bar> < MOMENTUM_MIN_VELOCITY
             \<and> \<bar>velocityY a * MOMENTUM_FRICTION\<bar> < MOMENTUM_MIN_VELOCITY")
      case True
      then show ?thesis
        unfolding animationFrame_single[OF f]
        by (simp add: animate_idle_stop[OF i] trackedFrames_iff)
    next
      case False
      then show ?thesis
        unfolding animationFrame_single[OF f]
        by (simp add: animate_idle_continue[OF i False] trackedFrames_iff)
    qed
  qed
qed

lemma trackedFrames_stopMomentum: "trackedFrames s \<Longrightarrow> trackedFrames (stopMomentum s)"
  by (simp add: stopMomentum_tracked trackedFrames_iff)

lemma trackedFrames_cong:
  "frameCallbacks s' = frameCallbacks s \<Longrightarrow> momentumAnimationId s' = momentumAnimationId s \<Longrightarrow>
   trackedFrames s' = trackedFrames s"
  by (simp add: trackedFrames_iff)

lemma trackedFrames_startMomentum: "trackedFrames s \<Longrightarrow> trackedFrames (startMomentum s)"
  by (simp add: startMomentum_def Let_def requestAnimationFrame_def stopMomentum_tracked trackedFrames_iff)

lemma calculateVelocity_frames [simp]:
  "frameCallbacks (calculateVelocity now s) = frameCallbacks s"
  "momentumAnimationId (calculateVelocity now s) = momentumAnimationId s"
  "momentumEnabled (calculateVelocity now s) = momentumEnabled s"
  "nextHandle (calculateVelocity now s) = nextHandle s"
  "cameraCalls (calculateVelocity now s) = cameraCalls s"
  by (simp_all add: calculateVelocity_def Let_def mapValues_def split: list.splits)

lemma trackedFrames_handleTouchStart: "trackedFrames s \<Longrightarrow> trackedFrames (handleTouchStart e now s)"
proof (cases "enabled s")
  case True
  assume t: "trackedFrames s"
  show ?thesis
    using handleTouchStart_momentum(1,2)[OF True, of e now]
    by (simp add: trackedFrames_iff stopMomentum_callbacks[OF t])
next
  case False
  assume "trackedFrames s"
  then show ?thesis using False by (simp add: handleTouchStart_def)
qed

lemma handleTouchMove_frames [simp]:
  "frameCallbacks (handleTouchMove e now s) = frameCallbacks s"
  "momentumAnimationId (handleTouchMove e now s) = momentumAnimationId s"
  by (simp_all add: handleTouchMove_def Let_def handleRotateGesture_def handlePinchGesture_def
        handlePanGesture_def mapValues_def split: list.splits option.splits)

lemma handleTouchEnd_frames:
  "frameCallbacks (handleTouchEnd e now s) =
     frameCallbacks (if enabled s \<and> momentumEnabled s \<and> gestureType s = Rotate \<and> length (touches s) = 1
                     then startMomentum (calculateVelocity now s) else s)"
  "momentumAnimationId (handleTouchEnd e now s) =
     momentumAnimationId (if enabled s \<and> momentumEnabled s \<and> gestureType s = Rotate \<and> length (touches s) = 1
                     then startMomentum (calculateVelocity now s) else s)"
  "cameraCalls (handleTouchEnd e now s) =
     cameraCalls (if enabled s \<and> momentumEnabled s \<and> gestureType s = Rotate \<and> length (touches s) = 1
                     then startMomentum (calculateVelocity now s) else s)"
  "velocity (handleTouchEnd e now s) =
     velocity (if enabled s \<and> momentumEnabled s \<and> gestureType s = Rotate \<and> length (touches s) = 1
                     then startMomentum (calculateVelocity now s) else s)"
  by (simp_all add: handleTouchEnd_def Let_def)

lemma trackedFrames_handleTouchEnd: "trackedFrames s \<Longrightarrow> trackedFrames (handleTouchEnd e now s)"
proof -
  assume t: "trackedFrames s"
  have t': "trackedFrames (calculateVelocity now s)"
    using t by (simp add: trackedFrames_cong[of "calculateVelocity now s" s])
  have "trackedFrames (if enabled s \<and> momentumEnabled s \<and> gestureType s = Rotate \<and> length (touches s) = 1
                     then startMomentum (calculateVelocity now s) else s)"
    using t trackedFrames_startMomentum[OF t'] by simp
  then show ?thesis
    by (simp only: trackedFrames_cong[OF handleTouchEnd_frames(1,2)])
qed

lemma trackedFrames_step: "trackedFrames s \<Longrightarrow> trackedFrames (step ev s)"
proof (cases ev)
  case (TouchStart e now)
  assume "trackedFrames s"
  then show ?thesis using TouchStart by (simp add: trackedFrames_handleTouchStart)
next
  case (TouchMove e now)
  assume "trackedFrames s"
  then show ?thesis using TouchMove by (simp add: trackedFrames_cong[of "handleTouchMove e now s" s])
next
  case (TouchEnd e now)
  assume "trackedFrames s"
  then show ?thesis using TouchEnd by (simp add: trackedFrames_handleTouchEnd)
next
  case (TouchCancel e now)
  assume "trackedFrames s"
  then show ?thesis using TouchCancel by (simp add: handleTouchCancel_def trackedFrames_handleTouchEnd)
next
  case AnimationFrame
  assume "trackedFrames s"
  then show ?thesis using AnimationFrame by (simp add: trackedFrames_animationFrame)
next
  case (SetMomentumEnabled b)
  assume t: "trackedFrames s"
  have "trackedFrames (s\<lparr>momentumEnabled := b\<rparr>)" using t by (simp add: trackedFrames_iff)
  then show ?thesis
    using SetMomentumEnabled by (cases b) (simp_all add: setMomentumEnabled_def Let_def trackedFrames_stopMomentum)
next
  case Disable
  assume t: "trackedFrames s"
  have "trackedFrames (s\<lparr>enabled := False, touches := [], gestureType := GNone\<rparr>)"
    using t by (simp add: trackedFrames_iff)
  then show ?thesis using Disable by (simp add: disable_def trackedFrames_stopMomentum)
next
  case Destroy
  assume t: "trackedFrames s"
  show ?thesis using Destroy trackedFrames_stopMomentum[OF t] by (simp add: destroy_def trackedFrames_iff)
qed (simp_all add: trackedFrames_iff setRotationSensitivity_def setZoomSensitivity_def
       setPanSensitivity_def enable_def)

lemma trackedFrames_run: "trackedFrames s \<Longrightarrow> trackedFrames (run es s)"
  by (induction es arbitrary: s) (simp_all add: trackedFrames_step)

lemma trackedFrames_reachable: "trackedFrames (run es initialController)"
  by (rule trackedFrames_run) (simp add: trackedFrames_iff initialController_def)


text \<open>A drag and its release schedule momentum; the next touch start cancels it.\<close>

theorem touch_start_cancels_momentum_witness:
  "enabled (run [TouchStart (oneFinger 100 100) 1000, TouchMove (oneFinger 200 100) 1016,
                 TouchEnd (released [touch 0 200 100]) 1032] initialController)
   \<and> trackedFrames (run [TouchStart (oneFinger 100 100) 1000, TouchMove (oneFinger 200 100) 1016,
                 TouchEnd (released [touch 0 200 100]) 1032] initialController)
   \<and> frameCallbacks (run [TouchStart (oneFinger 100 100) 1000, TouchMove (oneFinger 200 100) 1016,
                 TouchEnd (released [touch 0 200 100]) 1032] initialController) \<noteq> []
   \<and> frameCallbacks (handleTouchStart (oneFinger 150 150) 1050
         (run [TouchStart (oneFinger 100 100) 1000, TouchMove (oneFinger 200 100) 1016,
               TouchEnd (released [touch 0 200 100]) 1032] initialController)) = []
   \<and> cameraCalls (frames 5 (handleTouchStart (oneFinger 150 150) 1050
         (run [TouchStart (oneFinger 100 100) 1000, TouchMove (oneFinger 200 100) 1016,
               TouchEnd (released [touch 0 200 100]) 1032] initialController))) = [rotateCamera 100 0]"
proof -
  let ?s = "run [TouchStart (oneFinger 100 100) 1000, TouchMove (oneFinger 200 100) 1016,
                 TouchEnd (released [touch 0 200 100]) 1032] initialController"
  have h1: "enabled ?s" by (simp add: camera_defs)
  have h2: "trackedFrames ?s" by (simp add: camera_defs trackedFrames_def)
  have h3: "frameCallbacks ?s \<noteq> []" by (simp add: camera_defs)
  have c: "cameraCalls ?s = [rotateCamera 100 0]" by (simp add: camera_defs)
  show ?thesis
    using h1 h2 h3 touch_start_cancels_momentum[OF h1 h2 h3, of "oneFinger 150 150" 1050]
    by (simp add: c del: run.simps)
qed

lemma startMomentum_tracked:
  assumes "trackedFrames s" and "momentumEnabled s"
  shows "startMomentum s =
     s\<lparr>velocity := zeroVelocity,
       frameCallbacks := [(nextHandle s, \<lparr>lastX = 0, lastY = 0, velocityX = 0, velocityY = 0\<rparr>)],
       nextHandle := Suc (nextHandle s),
       momentumAnimationId := Some (nextHandle s)\<rparr>"
  using assms(2)
  by (simp add: startMomentum_def Let_def requestAnimationFrame_def stopMomentum_tracked[OF assms(1)]
        zeroVelocity_def)

lemma frames_stopping_session:
  assumes "frameCallbacks s = [(h, a)]"
      and "\<bar>velocityX a * MOMENTUM_FRICTION\<bar> < MOMENTUM_MIN_VELOCITY"
      and "\<bar>velocityY a * MOMENTUM_FRICTION\<bar> < MOMENTUM_MIN_VELOCITY"
  shows "cameraCalls (frames n s) = cameraCalls s"
    and "frameCallbacks (frames (Suc n) s) = []"
proof -
  have i: "frameCallbacks (s\<lparr>frameCallbacks := []\<rparr>) = []" by simp
  have a: "animationFrame s = s\<lparr>frameCallbacks := [], velocity := zeroVelocity, momentumAnimationId := None\<rparr>"
    unfolding animationFrame_single[OF assms(1)]
    by (simp add: animate_idle_stop[OF i assms(2,3)])
  have f: "frames (Suc n) s = animationFrame s" for n
    unfolding frames_Suc by (rule frames_idle) (simp add: a)
  show "frameCallbacks (frames (Suc n) s) = []" by (simp add: f a)
  show "cameraCalls (frames n s) = cameraCalls s"
    by (cases n) (simp_all add: f a)
qed

text \<open>
  Claim C1. On the release of a Rotate gesture (momentum enabled) whose time since the
  last velocity sample is above 100 ms or not positive, \<^verbatim>\<open>calculateVelocity\<close> does not
  divide by that time: it stores the release point as a new anchor; \<^verbatim>\<open>startMomentum\<close>
  then resets the stored velocity to zero, the momentum session starts from velocity
  zero, and no frame of it calls \<^verbatim>\<open>rotateCamera\<close>.
\<close>

theorem degenerate_release_zero_velocity:
  assumes "enabled s" and "trackedFrames s" and "momentumEnabled s"
      and "gestureType s = Rotate" and "touches s = [(i, p)]"
      and "100 < now - vtimestamp (velocity s) \<or> now - vtimestamp (velocity s) \<le> 0"
  shows "velocity (calculateVelocity now s) = \<lparr>vx = tx p, vy = ty p, vtimestamp = now\<rparr>
         \<and> velocity (handleTouchEnd e now s) = zeroVelocity
         \<and> frameCallbacks (handleTouchEnd e now s) =
             [(nextHandle s, \<lparr>lastX = 0, lastY = 0, velocityX = 0, velocityY = 0\<rparr>)]
         \<and> momentumAnimationId (handleTouchEnd e now s) = Some (nextHandle s)
         \<and> (\<forall>n. cameraCalls (frames n (handleTouchEnd e now s)) = cameraCalls s)"
proof -
  let ?s' = "handleTouchEnd e now s"
  have t': "trackedFrames (calculateVelocity now s)"
    using assms(2) by (simp add: trackedFrames_cong[of "calculateVelocity now s" s])
  have g: "enabled s \<and> momentumEnabled s \<and> gestureType s = Rotate \<and> length (touches s) = 1"
    using assms by simp
  have m: "momentumEnabled (calculateVelocity now s)" using assms(3) by simp
  note sm = startMomentum_tracked[OF t' m]
  have v: "velocity ?s' = zeroVelocity"
    unfolding handleTouchEnd_frames(4) using g by (simp add: sm)
  have f: "frameCallbacks ?s' = [(nextHandle s, \<lparr>lastX = 0, lastY = 0, velocityX = 0, velocityY = 0\<rparr>)]"
    unfolding handleTouchEnd_frames(1) using g by (simp add: sm)
  have i: "momentumAnimationId ?s' = Some (nextHandle s)"
    unfolding handleTouchEnd_frames(2) using g by (simp add: sm)
  have c: "cameraCalls ?s' = cameraCalls s"
    unfolding handleTouchEnd_frames(3) using g by (simp add: sm)
  have "cameraCalls (frames n ?s') = cameraCalls s" for n
    using frames_stopping_session(1)[OF f, of n]
    by (simp add: c MOMENTUM_MIN_VELOCITY_def)
  moreover have "velocity (calculateVelocity now s) = \<lparr>vx = tx p, vy = ty p, vtimestamp = now\<rparr>"
    using assms(5,6) by (auto simp: calculateVelocity_def Let_def mapValues_def)
  ultimately show ?thesis using v f i by blast
qed

text \<open>
  A drag from (100,100) to (200,100) released at time 1032: the last velocity sample has
  time 0, the only camera call ever made is the drag's own \<open>rotateCamera 100 0\<close>.
\<close>

theorem degenerate_release_zero_velocity_witness:
  "enabled (run [TouchStart (oneFinger 100 100) 1000, TouchMove (oneFinger 200 100) 1016] initialController)
   \<and> trackedFrames (run [TouchStart (oneFinger 100 100) 1000, TouchMove (oneFinger 200 100) 1016] initialController)
   \<and> momentumEnabled (run [TouchStart (oneFinger 100 100) 1000, TouchMove (oneFinger 200 100) 1016] initialController)
   \<and> gestureType (run [TouchStart (oneFinger 100 100) 1000, TouchMove (oneFinger 200 100) 1016] initialController) = Rotate
   \<and> touches (run [TouchStart (oneFinger 100 100) 1000, TouchMove (oneFinger 200 100) 1016] initialController)
        = [(0, newTouchPoint (touch 0 200 100) 1016)]
   \<and> (100::real) < 1032 - vtimestamp (velocity (run [TouchStart (oneFinger 100 100) 1000, TouchMove (oneFinger 200 100) 1016] initialController))
   \<and> velocity (handleTouchEnd (released [touch 0 200 100]) 1032
        (run [TouchStart (oneFinger 100 100) 1000, TouchMove (oneFinger 200 100) 1016] initialController)) = zeroVelocity
   \<and> cameraCalls (frames 3 (handleTouchEnd (released [touch 0 200 100]) 1032
        (run [TouchStart (oneFinger 100 100) 1000, TouchMove (oneFinger 200 100) 1016] initialController)))
        = [rotateCamera 100 0]"
proof -
  let ?s = "run [TouchStart (oneFinger 100 100) 1000, TouchMove (oneFinger 200 100) 1016] initialController"
  have h1: "enabled ?s" by (simp add: camera_defs)
  have h2: "trackedFrames ?s" by (simp add: camera_defs trackedFrames_def)
  have h3: "momentumEnabled ?s" by (simp add: camera_defs)
  have h4: "gestureType ?s = Rotate" by (simp add: camera_defs)
  have h5: "touches ?s = [(0, newTouchPoint (touch 0 200 100) 1016)]" by (simp add: camera_defs)
  have h6: "100 < 1032 - vtimestamp (velocity ?s) \<or> 1032 - vtimestamp (velocity ?s) \<le> 0"
    by (simp add: camera_defs)
  have h6': "(100::real) < 1032 - vtimestamp (velocity ?s)"
    by (simp add: camera_defs)
  have c: "cameraCalls ?s = [rotateCamera 100 0]" by (simp add: camera_defs)
  show ?thesis
    using h1 h2 h3 h4 h5 h6' degenerate_release_zero_velocity[OF h1 h2 h3 h4 h5 h6, of "released [touch 0 200 100]"]
    by (simp add: c del: run.simps)
qed

subsection \<open>The decay of a momentum session\<close>

lemma belowThreshold_1:
  "belowThreshold a (Suc 0) \<longleftrightarrow>
     \<bar>velocityX a * MOMENTUM_FRICTION\<bar> < MOMENTUM_MIN_VELOCITY
     \<and> \<bar>velocityY a * MOMENTUM_FRICTION\<bar> < MOMENTUM_MIN_VELOCITY"
  by (simp add: belowThreshold_def)

lemma friction_power_le: "j \<le> k \<Longrightarrow> \<bar>v * MOMENTUM_FRICTION ^ k\<bar> \<le> \<bar>v * MOMENTUM_FRICTION ^ j\<bar>"
proof -
  assume "j \<le> k"
  then have "MOMENTUM_FRICTION ^ k \<le> MOMENTUM_FRICTION ^ j"
    by (intro power_decreasing) (simp_all add: MOMENTUM_FRICTION_def)
  moreover have "0 \<le> MOMENTUM_FRICTION ^ k" "0 \<le> MOMENTUM_FRICTION ^ j"
    by (simp_all add: MOMENTUM_FRICTION_def)
  ultimately show ?thesis
    by (simp add: abs_mult mult_left_mono)
qed

lemma belowThreshold_mono: "belowThreshold a j \<Longrightarrow> j \<le> k \<Longrightarrow> belowThreshold a k"
  unfolding belowThreshold_def
  using friction_power_le[of j k "velocityX a"] friction_power_le[of j k "velocityY a"]
  by linarith

lemma belowThreshold_decayed: "belowThreshold (decayed a j) k = belowThreshold a (j + k)"
  by (simp add: belowThreshold_def decayed_def power_add mult.assoc)

lemma decayed_decayed: "decayed (decayed a j) k = decayed a (j + k)"
  by (simp add: decayed_def power_add mult.assoc)

lemma animationFrame_session_stop:
  assumes "frameCallbacks s = [(h, a)]" and "belowThreshold a (Suc 0)"
  shows "animationFrame s = s\<lparr>frameCallbacks := [], velocity := zeroVelocity, momentumAnimationId := None\<rparr>"
proof -
  have i: "frameCallbacks (s\<lparr>frameCallbacks := []\<rparr>) = []" by simp
  show ?thesis
    unfolding animationFrame_single[OF assms(1)]
    using assms(2) by (simp add: animate_idle_stop[OF i] belowThreshold_1)
qed

lemma animationFrame_session_continue:
  assumes "frameCallbacks s = [(h, a)]" and "\<not> belowThreshold a (Suc 0)"
  shows "animationFrame s =
     s\<lparr>cameraCalls := cameraCalls s @
           (if \<bar>velocityX a * MOMENTUM_FRICTION - lastX a\<bar> > 1 / 100
               \<or> \<bar>velocityY a * MOMENTUM_FRICTION - lastY a\<bar> > 1 / 100
            then [rotateCamera ((velocityX a * MOMENTUM_FRICTION - lastX a) * rotationSensitivity s)
                               ((velocityY a * MOMENTUM_FRICTION - lastY a) * rotationSensitivity s)]
            else []),
       frameCallbacks := [(nextHandle s, decayed a (Suc 0))],
       nextHandle := Suc (nextHandle s),
       momentumAnimationId := Some (nextHandle s)\<rparr>"
proof -
  have i: "frameCallbacks (s\<lparr>frameCallbacks := []\<rparr>) = []" by simp
  have n: "\<not> (\<bar>velocityX a * MOMENTUM_FRICTION\<bar> < MOMENTUM_MIN_VELOCITY
             \<and> \<bar>velocityY a * MOMENTUM_FRICTION\<bar> < MOMENTUM_MIN_VELOCITY)"
    using assms(2) by (simp add: belowThreshold_1)
  show ?thesis
    unfolding animationFrame_single[OF assms(1)] animate_idle_continue[OF i n]
    by (simp add: decayed_def)
qed

lemma session_after_frames:
  assumes "frameCallbacks s = [(h, a)]"
  shows "frameCallbacks (frames (Suc k) s) =
           (if belowThreshold a (Suc k) then [] else [(nextHandle s + k, decayed a (Suc k))])
         \<and> (\<not> belowThreshold a (Suc k) \<longrightarrow> momentumAnimationId (frames (Suc k) s) = Some (nextHandle s + k))"
  using assms
proof (induction k arbitrary: s h a)
  case 0
  show ?case
  proof (cases "belowThreshold a (Suc 0)")
    case True
    then show ?thesis
      by (simp add: frames_Suc animationFrame_session_stop[OF 0 True])
  next
    case False
    then show ?thesis
      by (simp add: frames_Suc animationFrame_session_continue[OF 0 False])
  qed
next
  case (Suc k)
  show ?case
  proof (cases "belowThreshold a (Suc 0)")
    case True
    have b: "belowThreshold a (Suc (Suc k))"
      by (rule belowThreshold_mono[OF True]) simp
    have "frameCallbacks (animationFrame s) = []"
      by (simp add: animationFrame_session_stop[OF Suc.prems True])
    then have "frames (Suc k) (animationFrame s) = animationFrame s"
      by (rule frames_idle)
    then show ?thesis
      using b by (simp add: frames_Suc[of "Suc k"] animationFrame_session_stop[OF Suc.prems True])
  next
    case False
    let ?s1 = "animationFrame s"
    have f1: "frameCallbacks ?s1 = [(nextHandle s, decayed a (Suc 0))]"
      and n1: "nextHandle ?s1 = Suc (nextHandle s)"
      by (simp_all add: animationFrame_session_continue[OF Suc.prems False])
    note ih = Suc.IH[OF f1]
    show ?thesis
      unfolding frames_Suc[of "Suc k"]
      using ih by (simp add: n1 belowThreshold_decayed decayed_decayed)
  qed
qed


lemma animationFrame_sensitivity: "frameCallbacks s = [(h, a)] \<Longrightarrow>
   rotationSensitivity (animationFrame s) = rotationSensitivity s"
  by (cases "belowThreshold a (Suc 0)")
     (simp_all add: animationFrame_session_stop animationFrame_session_continue)

lemma later_call_smaller:
  assumes "\<bar>dx\<bar> \<le> (92 / 100) * \<bar>ex\<bar>" and "\<bar>dy\<bar> \<le> (92 / 100) * \<bar>ey\<bar>"
  shows "notLarger (rotateCamera (ex * r) (ey * r)) (rotateCamera (dx * r) (dy * r))"
    and "r \<noteq> 0 \<Longrightarrow> \<bar>ex\<bar> > 1 / 100 \<or> \<bar>ey\<bar> > 1 / 100 \<Longrightarrow>
         smallerCall (rotateCamera (ex * r) (ey * r)) (rotateCamera (dx * r) (dy * r))"
proof -
  have x: "\<bar>dx\<bar> * \<bar>r\<bar> \<le> (92 / 100) * (\<bar>ex\<bar> * \<bar>r\<bar>)"
    using mult_right_mono[OF assms(1), of "\<bar>r\<bar>"] by simp
  have y: "\<bar>dy\<bar> * \<bar>r\<bar> \<le> (92 / 100) * (\<bar>ey\<bar> * \<bar>r\<bar>)"
    using mult_right_mono[OF assms(2), of "\<bar>r\<bar>"] by simp
  have px: "0 \<le> \<bar>ex\<bar> * \<bar>r\<bar>" and py: "0 \<le> \<bar>ey\<bar> * \<bar>r\<bar>" by simp_all
  have wx: "\<bar>dx\<bar> * \<bar>r\<bar> \<le> \<bar>ex\<bar> * \<bar>r\<bar>" using x px by linarith
  have wy: "\<bar>dy\<bar> * \<bar>r\<bar> \<le> \<bar>ey\<bar> * \<bar>r\<bar>" using y py by linarith
  show n: "notLarger (rotateCamera (ex * r) (ey * r)) (rotateCamera (dx * r) (dy * r))"
    using wx wy by (simp add: notLarger_def abs_mult)
  assume r: "r \<noteq> 0" and e: "\<bar>ex\<bar> > 1 / 100 \<or> \<bar>ey\<bar> > 1 / 100"
  from e show "smallerCall (rotateCamera (ex * r) (ey * r)) (rotateCamera (dx * r) (dy * r))"
  proof
    assume "\<bar>ex\<bar> > 1 / 100"
    then have "0 < \<bar>ex\<bar> * \<bar>r\<bar>" using r by simp
    then have "\<bar>dx\<bar> * \<bar>r\<bar> < \<bar>ex\<bar> * \<bar>r\<bar>" using x by linarith
    then show ?thesis using n by (simp add: smallerCall_def abs_mult)
  next
    assume "\<bar>ey\<bar> > 1 / 100"
    then have "0 < \<bar>ey\<bar> * \<bar>r\<bar>" using r by simp
    then have "\<bar>dy\<bar> * \<bar>r\<bar> < \<bar>ey\<bar> * \<bar>r\<bar>" using y by linarith
    then show ?thesis using n by (simp add: smallerCall_def abs_mult)
  qed
qed

text \<open>Calls of a session whose closure already holds \<open>last = velocity\<close>.\<close>

lemma running_session_calls:
  assumes "frameCallbacks s = [(h, a)]" and "lastX a = velocityX a" and "lastY a = velocityY a"
  shows "\<exists>cs. cameraCalls (frames n s) = cameraCalls s @ cs
            \<and> sorted_wrt notLarger cs
            \<and> (rotationSensitivity s \<noteq> 0 \<longrightarrow> sorted_wrt smallerCall cs)
            \<and> (\<forall>c \<in> set cs. \<exists>dx dy. c = rotateCamera (dx * rotationSensitivity s) (dy * rotationSensitivity s)
                    \<and> \<bar>dx\<bar> \<le> (8 / 100) * \<bar>velocityX a\<bar> \<and> \<bar>dy\<bar> \<le> (8 / 100) * \<bar>velocityY a\<bar>)"
  using assms
proof (induction n arbitrary: s h a)
  case 0
  show ?case by simp
next
  case (Suc n)
  let ?r = "rotationSensitivity s"
  show ?case
  proof (cases "belowThreshold a (Suc 0)")
    case True
    have "cameraCalls (frames (Suc n) s) = cameraCalls s"
      using frames_stopping_session(1)[OF Suc.prems(1), of "Suc n"] True
      by (simp add: belowThreshold_1)
    then show ?thesis by simp
  next
    case False
    let ?s1 = "animationFrame s"
    let ?ex = "velocityX a * MOMENTUM_FRICTION - lastX a"
    let ?ey = "velocityY a * MOMENTUM_FRICTION - lastY a"
    let ?c1 = "rotateCamera (?ex * ?r) (?ey * ?r)"
    let ?c1s = "if \<bar>?ex\<bar> > 1 / 100 \<or> \<bar>?ey\<bar> > 1 / 100 then [?c1] else []"
    have f1: "frameCallbacks ?s1 = [(nextHandle s, decayed a (Suc 0))]"
      and c1: "cameraCalls ?s1 = cameraCalls s @ ?c1s"
      and r1: "rotationSensitivity ?s1 = ?r"
      by (simp_all add: animationFrame_session_continue[OF Suc.prems(1) False])
    have l1: "lastX (decayed a (Suc 0)) = velocityX (decayed a (Suc 0))"
             "lastY (decayed a (Suc 0)) = velocityY (decayed a (Suc 0))"
      by (simp_all add: decayed_def)
    from Suc.IH[OF f1 l1] obtain cs where
      cs: "cameraCalls (frames n ?s1) = cameraCalls ?s1 @ cs"
      and so: "sorted_wrt notLarger cs"
      and st: "?r \<noteq> 0 \<longrightarrow> sorted_wrt smallerCall cs"
      and bd: "\<forall>c \<in> set cs. \<exists>dx dy. c = rotateCamera (dx * ?r) (dy * ?r)
                    \<and> \<bar>dx\<bar> \<le> (8 / 100) * \<bar>velocityX (decayed a (Suc 0))\<bar>
                    \<and> \<bar>dy\<bar> \<le> (8 / 100) * \<bar>velocityY (decayed a (Suc 0))\<bar>"
      unfolding r1 by blast
    have ex: "\<bar>?ex\<bar> = (8 / 100) * \<bar>velocityX a\<bar>" and ey: "\<bar>?ey\<bar> = (8 / 100) * \<bar>velocityY a\<bar>"
      using Suc.prems(2,3) by (simp_all add: MOMENTUM_FRICTION_def)
    have vx1: "\<bar>velocityX (decayed a (Suc 0))\<bar> = (92 / 100) * \<bar>velocityX a\<bar>"
      and vy1: "\<bar>velocityY (decayed a (Suc 0))\<bar> = (92 / 100) * \<bar>velocityY a\<bar>"
      by (simp_all add: decayed_def MOMENTUM_FRICTION_def abs_mult)
    have rel: "notLarger ?c1 d \<and> (?r \<noteq> 0 \<longrightarrow> \<bar>?ex\<bar> > 1 / 100 \<or> \<bar>?ey\<bar> > 1 / 100 \<longrightarrow> smallerCall ?c1 d)"
      if "d \<in> set cs" for d
    proof -
      from bd that obtain dx dy where d: "d = rotateCamera (dx * ?r) (dy * ?r)"
        and bx: "\<bar>dx\<bar> \<le> (8 / 100) * \<bar>velocityX (decayed a (Suc 0))\<bar>"
        and qy: "\<bar>dy\<bar> \<le> (8 / 100) * \<bar>velocityY (decayed a (Suc 0))\<bar>"
        by blast
      have x: "\<bar>dx\<bar> \<le> (92 / 100) * \<bar>?ex\<bar>" using bx unfolding ex vx1 by simp
      have y: "\<bar>dy\<bar> \<le> (92 / 100) * \<bar>?ey\<bar>" using qy unfolding ey vy1 by simp
      show ?thesis
        unfolding d using later_call_smaller[OF x y, of ?r] by blast
    qed
    have bound1: "\<exists>dx dy. c = rotateCamera (dx * ?r) (dy * ?r)
                    \<and> \<bar>dx\<bar> \<le> (8 / 100) * \<bar>velocityX a\<bar> \<and> \<bar>dy\<bar> \<le> (8 / 100) * \<bar>velocityY a\<bar>"
      if "c \<in> set (?c1s @ cs)" for c
    proof (cases "c \<in> set cs")
      case True
      with bd obtain dx dy where d: "c = rotateCamera (dx * ?r) (dy * ?r)"
        and bx: "\<bar>dx\<bar> \<le> (8 / 100) * \<bar>velocityX (decayed a (Suc 0))\<bar>"
        and qy: "\<bar>dy\<bar> \<le> (8 / 100) * \<bar>velocityY (decayed a (Suc 0))\<bar>"
        by blast
      have "\<bar>dx\<bar> \<le> (8 / 100) * \<bar>velocityX a\<bar>" using bx unfolding vx1 by simp
      moreover have "\<bar>dy\<bar> \<le> (8 / 100) * \<bar>velocityY a\<bar>" using qy unfolding vy1 by simp
      ultimately show ?thesis using d by blast
    next
      case False
      with that have "c = ?c1" by (auto split: if_splits)
      then show ?thesis using ex ey by (intro exI[of _ ?ex] exI[of _ ?ey]) simp
    qed
    have "cameraCalls (frames (Suc n) s) = cameraCalls s @ (?c1s @ cs)"
      by (simp add: frames_Suc cs c1)
    moreover have "sorted_wrt notLarger (?c1s @ cs)"
      using so rel by (simp add: sorted_wrt_append)
    moreover have "?r \<noteq> 0 \<longrightarrow> sorted_wrt smallerCall (?c1s @ cs)"
      using st rel by (simp add: sorted_wrt_append)
    ultimately show ?thesis using bound1 by blast
  qed
qed


lemma session_terminates: "\<exists>k. belowThreshold a (Suc k)"
proof -
  define M where "M = \<bar>velocityX a\<bar> + \<bar>velocityY a\<bar> + 1"
  have M: "0 < M" by (simp add: M_def)
  have "\<exists>n. MOMENTUM_FRICTION ^ n < (1 / 10) / M"
    by (rule real_arch_pow_inv) (use M in \<open>simp_all add: MOMENTUM_FRICTION_def\<close>)
  then obtain n where n: "MOMENTUM_FRICTION ^ n < (1 / 10) / M" by blast
  have p: "0 \<le> MOMENTUM_FRICTION ^ Suc n" by (simp add: MOMENTUM_FRICTION_def)
  have "MOMENTUM_FRICTION ^ Suc n \<le> MOMENTUM_FRICTION ^ n"
    by (intro power_decreasing) (simp_all add: MOMENTUM_FRICTION_def)
  then have q: "MOMENTUM_FRICTION ^ Suc n < (1 / 10) / M" using n by linarith
  then have m: "M * MOMENTUM_FRICTION ^ Suc n < 1 / 10"
    using M by (simp add: field_simps)
  have "\<bar>velocityX a\<bar> * MOMENTUM_FRICTION ^ Suc n \<le> M * MOMENTUM_FRICTION ^ Suc n"
    by (rule mult_right_mono[OF _ p]) (simp add: M_def)
  moreover have "\<bar>velocityY a\<bar> * MOMENTUM_FRICTION ^ Suc n \<le> M * MOMENTUM_FRICTION ^ Suc n"
    by (rule mult_right_mono[OF _ p]) (simp add: M_def)
  ultimately have "\<bar>velocityX a\<bar> * MOMENTUM_FRICTION ^ Suc n < 1 / 10"
    and "\<bar>velocityY a\<bar> * MOMENTUM_FRICTION ^ Suc n < 1 / 10"
    using m by linarith+
  moreover have "\<bar>MOMENTUM_FRICTION ^ Suc n\<bar> = MOMENTUM_FRICTION ^ Suc n"
    using p by simp
  ultimately have "belowThreshold a (Suc n)"
    unfolding belowThreshold_def MOMENTUM_MIN_VELOCITY_def abs_mult by simp
  then show ?thesis by blast
qed

lemma fresh_session_calls:
  assumes "frameCallbacks s = [(h, a)]" and "lastX a = 0" and "lastY a = 0"
  shows "sorted_wrt notLarger (newCalls s (frames n s))
         \<and> (rotationSensitivity s \<noteq> 0 \<longrightarrow> sorted_wrt smallerCall (newCalls s (frames n s)))"
proof (cases n)
  case 0
  then show ?thesis by (simp add: newCalls_def)
next
  case (Suc m)
  let ?r = "rotationSensitivity s"
  show ?thesis
  proof (cases "belowThreshold a (Suc 0)")
    case True
    have "cameraCalls (frames n s) = cameraCalls s"
      using frames_stopping_session(1)[OF assms(1), of n] True
      by (simp add: belowThreshold_1)
    then show ?thesis by (simp add: newCalls_def)
  next
    case False
    let ?s1 = "animationFrame s"
    let ?ex = "velocityX a * MOMENTUM_FRICTION - lastX a"
    let ?ey = "velocityY a * MOMENTUM_FRICTION - lastY a"
    let ?c1 = "rotateCamera (?ex * ?r) (?ey * ?r)"
    let ?c1s = "if \<bar>?ex\<bar> > 1 / 100 \<or> \<bar>?ey\<bar> > 1 / 100 then [?c1] else []"
    have f1: "frameCallbacks ?s1 = [(nextHandle s, decayed a (Suc 0))]"
      and c1: "cameraCalls ?s1 = cameraCalls s @ ?c1s"
      and r1: "rotationSensitivity ?s1 = ?r"
      by (simp_all add: animationFrame_session_continue[OF assms(1) False])
    have l1: "lastX (decayed a (Suc 0)) = velocityX (decayed a (Suc 0))"
             "lastY (decayed a (Suc 0)) = velocityY (decayed a (Suc 0))"
      by (simp_all add: decayed_def)
    from running_session_calls[OF f1 l1, of m] obtain cs where
      cs: "cameraCalls (frames m ?s1) = cameraCalls ?s1 @ cs"
      and so: "sorted_wrt notLarger cs"
      and st: "?r \<noteq> 0 \<longrightarrow> sorted_wrt smallerCall cs"
      and bd: "\<forall>c \<in> set cs. \<exists>dx dy. c = rotateCamera (dx * ?r) (dy * ?r)
                    \<and> \<bar>dx\<bar> \<le> (8 / 100) * \<bar>velocityX (decayed a (Suc 0))\<bar>
                    \<and> \<bar>dy\<bar> \<le> (8 / 100) * \<bar>velocityY (decayed a (Suc 0))\<bar>"
      unfolding r1 by blast
    have ex: "\<bar>?ex\<bar> = \<bar>velocityX (decayed a (Suc 0))\<bar>" and ey: "\<bar>?ey\<bar> = \<bar>velocityY (decayed a (Suc 0))\<bar>"
      using assms(2,3) by (simp_all add: decayed_def)
    have rel: "notLarger ?c1 d \<and> (?r \<noteq> 0 \<longrightarrow> \<bar>?ex\<bar> > 1 / 100 \<or> \<bar>?ey\<bar> > 1 / 100 \<longrightarrow> smallerCall ?c1 d)"
      if "d \<in> set cs" for d
    proof -
      from bd that obtain dx dy where d: "d = rotateCamera (dx * ?r) (dy * ?r)"
        and qx: "\<bar>dx\<bar> \<le> (8 / 100) * \<bar>velocityX (decayed a (Suc 0))\<bar>"
        and qy: "\<bar>dy\<bar> \<le> (8 / 100) * \<bar>velocityY (decayed a (Suc 0))\<bar>"
        by blast
      have x: "\<bar>dx\<bar> \<le> (92 / 100) * \<bar>?ex\<bar>" using qx unfolding ex by simp
      have y: "\<bar>dy\<bar> \<le> (92 / 100) * \<bar>?ey\<bar>" using qy unfolding ey by simp
      show ?thesis
        unfolding d using later_call_smaller[OF x y, of ?r] by blast
    qed
    have "cameraCalls (frames n s) = cameraCalls s @ (?c1s @ cs)"
      by (simp add: Suc frames_Suc cs c1)
    then have nc: "newCalls s (frames n s) = ?c1s @ cs"
      by (simp add: newCalls_def)
    have "sorted_wrt notLarger (?c1s @ cs)"
      using so rel by (simp add: sorted_wrt_append)
    moreover have "?r \<noteq> 0 \<longrightarrow> sorted_wrt smallerCall (?c1s @ cs)"
      using st rel by (simp add: sorted_wrt_append)
    ultimately show ?thesis unfolding nc by blast
  qed
qed

text \<open>
  Claim C8. For a scheduled momentum session whose closure starts with \<open>last = 0\<close>:
  after \<open>k + 1\<close> frames the closure's velocity is the start velocity times
  \<open>0.92 ^ (k + 1)\<close> on both axes, as long as the session lives; the session is over after
  frame \<open>k + 1\<close> exactly when some step up to it found both magnitudes below 0.1, and
  some frame does end it; the calls the frames make never grow on either axis from one
  call to a later one, and when the rotation sensitivity is not zero they strictly
  shrink on at least one axis; once the session is over no frame makes a call.
\<close>

theorem momentum_session_decay:
  assumes "frameCallbacks s = [(h, a)]" and "momentumAnimationId s = Some h"
      and "lastX a = 0" and "lastY a = 0"
  shows "(\<forall>k. frameCallbacks (frames (Suc k) s) =
               (if belowThreshold a (Suc k) then [] else [(nextHandle s + k, decayed a (Suc k))]))
       \<and> (\<forall>k. frameCallbacks (frames (Suc k) s) = [] \<longleftrightarrow> (\<exists>j\<le>k. belowThreshold a (Suc j)))
       \<and> (\<exists>k. frameCallbacks (frames k s) = [])
       \<and> (\<forall>n. sorted_wrt notLarger (newCalls s (frames n s)))
       \<and> (rotationSensitivity s \<noteq> 0 \<longrightarrow> (\<forall>n. sorted_wrt smallerCall (newCalls s (frames n s))))
       \<and> (\<forall>k m. frameCallbacks (frames k s) = [] \<and> k \<le> m \<longrightarrow>
              cameraCalls (frames m s) = cameraCalls (frames k s))"
proof -
  have a: "frameCallbacks (frames (Suc k) s) =
               (if belowThreshold a (Suc k) then [] else [(nextHandle s + k, decayed a (Suc k))])" for k
    using session_after_frames[OF assms(1), of k] by blast
  have b: "frameCallbacks (frames (Suc k) s) = [] \<longleftrightarrow> (\<exists>j\<le>k. belowThreshold a (Suc j))" for k
  proof
    assume "frameCallbacks (frames (Suc k) s) = []"
    then have "belowThreshold a (Suc k)" unfolding a by (simp split: if_splits)
    then show "\<exists>j\<le>k. belowThreshold a (Suc j)" by blast
  next
    assume "\<exists>j\<le>k. belowThreshold a (Suc j)"
    then obtain j where "j \<le> k" and "belowThreshold a (Suc j)" by blast
    then have "belowThreshold a (Suc k)" using belowThreshold_mono[of a "Suc j" "Suc k"] by simp
    then show "frameCallbacks (frames (Suc k) s) = []" unfolding a by simp
  qed
  have c: "\<exists>k. frameCallbacks (frames k s) = []"
  proof -
    from session_terminates[of a] obtain k where "belowThreshold a (Suc k)" by blast
    then have "frameCallbacks (frames (Suc k) s) = []" unfolding a by simp
    then show ?thesis by blast
  qed
  have d: "cameraCalls (frames m s) = cameraCalls (frames k s)"
    if "frameCallbacks (frames k s) = []" and "k \<le> m" for k m
  proof -
    have "frames m s = frames (m - k) (frames k s)"
      using that(2) frames_add[of "m - k" k s] by simp
    then show ?thesis using frames_idle[OF that(1), of "m - k"] by simp
  qed
  show ?thesis
    using a b c d fresh_session_calls[OF assms(1,3,4)] by blast
qed


text \<open>
  From velocity (1, 0) two frames call \<open>rotateCamera 0.92 0\<close> and then
  \<open>rotateCamera (- 0.0736) 0\<close>; from (0.12, 0) the third frame ends the session; the
  session a released drag schedules holds velocity (0, 0) and its first frame ends it.
\<close>

theorem momentum_session_decay_witness:
  "frameCallbacks (seededSession 1 0) = [(1, \<lparr>lastX = 0, lastY = 0, velocityX = 1, velocityY = 0\<rparr>)]
   \<and> momentumAnimationId (seededSession 1 0) = Some 1
   \<and> frameCallbacks (frames (Suc (Suc 0)) (seededSession 1 0)) =
        [(3, \<lparr>lastX = 529 / 625, lastY = 0, velocityX = 529 / 625, velocityY = 0\<rparr>)]
   \<and> newCalls (seededSession 1 0) (frames (Suc (Suc 0)) (seededSession 1 0)) =
        [rotateCamera (23 / 25) 0, rotateCamera (- (46 / 625)) 0]
   \<and> sorted_wrt smallerCall [rotateCamera (23 / 25) 0, rotateCamera (- (46 / 625)) 0]
   \<and> frameCallbacks (seededSession (3 / 25) 0) = [(1, \<lparr>lastX = 0, lastY = 0, velocityX = 3 / 25, velocityY = 0\<rparr>)]
   \<and> frameCallbacks (frames (Suc (Suc 0)) (seededSession (3 / 25) 0)) \<noteq> []
   \<and> frameCallbacks (frames (Suc (Suc (Suc 0))) (seededSession (3 / 25) 0)) = []
   \<and> cameraCalls (frames 7 (seededSession (3 / 25) 0)) = [rotateCamera (69 / 625) 0]
   \<and> frameCallbacks (run [TouchStart (oneFinger 100 100) 1000, TouchMove (oneFinger 200 100) 1016,
                            TouchEnd (released [touch 0 200 100]) 1032] initialController)
        = [(1, \<lparr>lastX = 0, lastY = 0, velocityX = 0, velocityY = 0\<rparr>)]
   \<and> frameCallbacks (frames (Suc 0) (run [TouchStart (oneFinger 100 100) 1000,
                            TouchMove (oneFinger 200 100) 1016,
                            TouchEnd (released [touch 0 200 100]) 1032] initialController)) = []"
proof -
  let ?a = "\<lparr>lastX = 0, lastY = 0, velocityX = 1, velocityY = 0\<rparr>"
  let ?b = "\<lparr>lastX = 0, lastY = 0, velocityX = 3 / 25, velocityY = 0\<rparr>"
  have h1: "frameCallbacks (seededSession 1 0) = [(1, ?a)]"
    and h2: "momentumAnimationId (seededSession 1 0) = Some 1"
    and h3: "lastX ?a = 0" and h4: "lastY ?a = 0"
    and r: "rotationSensitivity (seededSession 1 0) \<noteq> 0"
    and n: "nextHandle (seededSession 1 0) = 2"
    by (simp_all add: seededSession_def initialController_def)
  note A = momentum_session_decay[OF h1 h2 h3 h4]
  have g1: "frameCallbacks (seededSession (3 / 25) 0) = [(1, ?b)]"
    and g2: "momentumAnimationId (seededSession (3 / 25) 0) = Some 1"
    and g3: "lastX ?b = 0" and g4: "lastY ?b = 0"
    by (simp_all add: seededSession_def initialController_def)
  note B = momentum_session_decay[OF g1 g2 g3 g4]
  have nb: "\<not> belowThreshold ?a (Suc (Suc 0))"
    by (simp add: belowThreshold_def MOMENTUM_FRICTION_def MOMENTUM_MIN_VELOCITY_def)
  have d2: "decayed ?a (Suc (Suc 0)) = \<lparr>lastX = 529 / 625, lastY = 0, velocityX = 529 / 625, velocityY = 0\<rparr>"
    by (simp add: decayed_def MOMENTUM_FRICTION_def)
  have c1: "frameCallbacks (frames (Suc (Suc 0)) (seededSession 1 0)) =
        [(3, \<lparr>lastX = 529 / 625, lastY = 0, velocityX = 529 / 625, velocityY = 0\<rparr>)]"
    using A nb by (simp add: n d2)
  have ev: "cameraCalls (frames (Suc (Suc 0)) (seededSession 1 0)) =
        [rotateCamera (23 / 25) 0, rotateCamera (- (46 / 625)) 0]"
    by (simp add: frames_def seededSession_def camera_defs)
  have c2: "newCalls (seededSession 1 0) (frames (Suc (Suc 0)) (seededSession 1 0)) =
        [rotateCamera (23 / 25) 0, rotateCamera (- (46 / 625)) 0]"
    by (simp add: newCalls_def ev) (simp add: seededSession_def initialController_def)
  have c3: "sorted_wrt smallerCall [rotateCamera (23 / 25) 0, rotateCamera (- (46 / 625)) 0]"
    using A r c2 by metis
  have b2: "\<not> belowThreshold ?b (Suc (Suc 0))" "\<not> belowThreshold ?b (Suc 0)"
    and b3: "belowThreshold ?b (Suc (Suc (Suc 0)))"
    by (simp_all add: belowThreshold_def MOMENTUM_FRICTION_def MOMENTUM_MIN_VELOCITY_def)
  have c4: "frameCallbacks (frames (Suc (Suc 0)) (seededSession (3 / 25) 0)) \<noteq> []"
    using B b2 by simp
  have c5: "frameCallbacks (frames (Suc (Suc (Suc 0))) (seededSession (3 / 25) 0)) = []"
    using B b3 by simp
  have ev3: "cameraCalls (frames (Suc (Suc (Suc 0))) (seededSession (3 / 25) 0)) = [rotateCamera (69 / 625) 0]"
    by (simp add: frames_def seededSession_def camera_defs)
  have "cameraCalls (frames 7 (seededSession (3 / 25) 0)) =
        cameraCalls (frames (Suc (Suc (Suc 0))) (seededSession (3 / 25) 0))"
    using B c5 by simp
  then have c6: "cameraCalls (frames 7 (seededSession (3 / 25) 0)) = [rotateCamera (69 / 625) 0]"
    by (simp add: ev3)
  let ?z = "\<lparr>lastX = 0, lastY = 0, velocityX = 0, velocityY = 0\<rparr>"
  let ?d = "run [TouchStart (oneFinger 100 100) 1000, TouchMove (oneFinger 200 100) 1016,
                 TouchEnd (released [touch 0 200 100]) 1032] initialController"
  have d1: "frameCallbacks ?d = [(1, ?z)]"
    and d2: "momentumAnimationId ?d = Some 1"
    and d3: "lastX ?z = 0" and d4: "lastY ?z = 0"
    by (simp_all add: camera_defs)
  note D = momentum_session_decay[OF d1 d2 d3 d4]
  have bz: "belowThreshold ?z (Suc 0)"
    by (simp add: belowThreshold_def MOMENTUM_MIN_VELOCITY_def)
  have c7: "frameCallbacks (frames (Suc 0) ?d) = []"
    using D bz by (simp del: run.simps)
  show ?thesis
    using h1 h2 g1 c1 c2 c3 c4 c5 c6 d1 c7 by blast
qed

section \<open>TouchManager and TouchBlockController: properties\<close>

lemmas tm_defs =
  handleTouchStart_TM_def handleTouchMove_TM_def handleTouchEnd_TM_def handleTouchCancel_TM_def
  handleTwoFingerGestures_def triggerTapCallbacks_def triggerLongPressCallbacks_def
  triggerDragCallbacks_def triggerPinchCallbacks_def startLongPressTimer_TM_def
  cancelLongPressTimer_def longPressTimeout_TM_def runTimeout_TM_def
  onTap_def onLongPress_TM_def onDrag_def onPinch_def initialTouchManager_def
  TAP_THRESHOLD_MS_def TAP_MOVE_THRESHOLD_PX_def LONG_PRESS_MOVE_THRESHOLD_PX_def
  throwingListener_def quietListener_def envAt_def touch_def touchEvent_def
  oneFinger_def twoFingers_def released_def mapDelete_def Let_def

lemma forEachListener_quiet:
  "\<forall>l \<in> set ls. \<not> throwsOn l ev \<Longrightarrow>
   forEachListener ls ev s =
     Normal (s\<lparr>invocations := invocations s @ map (\<lambda>c. (listenerId c, ev)) ls\<rparr>)"
  by (induction ls arbitrary: s) (simp_all add: Let_def)

lemma forEachListener_throw:
  assumes "\<forall>l \<in> set ls1. \<not> throwsOn l ev" and "throwsOn l ev"
  shows "forEachListener (ls1 @ l # ls2) ev s =
     Thrown (s\<lparr>invocations := invocations s @ map (\<lambda>c. (listenerId c, ev)) (ls1 @ [l])\<rparr>)"
  using assms
  by (induction ls1 arbitrary: s) (simp_all add: Let_def)

lemma cancelLongPressTimer_fields [simp]:
  "activeTouches (cancelLongPressTimer i s) = activeTouches s"
  "tapCallbacks (cancelLongPressTimer i s) = tapCallbacks s"
  "invocations (cancelLongPressTimer i s) = invocations s"
  by (simp_all add: cancelLongPressTimer_def split: option.splits)

subsection \<open>A listener that throws\<close>

text \<open>
  Claim C6, as amended. \<^verbatim>\<open>forEach\<close> has no \<^verbatim>\<open>try\<close>: when a registered listener throws on
  a tap, long press, drag or pinch event, the listeners registered before it have been
  invoked, it has been invoked, those registered after it are not, and the exception
  leaves the trigger. For a tap it leaves \<^verbatim>\<open>handleTouchEnd\<close> as well: the ended touch is
  still in \<^verbatim>\<open>activeTouches\<close> and the remaining changed touches are not looked at.
\<close>

theorem listener_throw_aborts_dispatch:
  assumes "\<forall>c \<in> set ls1. \<not> throwsOn c ev" and "throwsOn l ev"
  shows "(tapCallbacks s = ls1 @ l # ls2 \<longrightarrow>
            triggerTapCallbacks ev s =
              Thrown (s\<lparr>invocations := invocations s @ map (\<lambda>c. (listenerId c, ev)) (ls1 @ [l])\<rparr>))
       \<and> (longPressCallbacks_TM s = ls1 @ l # ls2 \<longrightarrow>
            triggerLongPressCallbacks ev s =
              Thrown (s\<lparr>invocations := invocations s @ map (\<lambda>c. (listenerId c, ev)) (ls1 @ [l])\<rparr>))
       \<and> (dragCallbacks s = ls1 @ l # ls2 \<longrightarrow>
            triggerDragCallbacks ev s =
              Thrown (s\<lparr>invocations := invocations s @ map (\<lambda>c. (listenerId c, ev)) (ls1 @ [l])\<rparr>))
       \<and> (pinchCallbacks s = ls1 @ l # ls2 \<longrightarrow>
            triggerPinchCallbacks ev s =
              Thrown (s\<lparr>invocations := invocations s @ map (\<lambda>c. (listenerId c, ev)) (ls1 @ [l])\<rparr>))
       \<and> (tapCallbacks s = ls1 @ l # ls2
            \<and> ev_changedTouches e = t # ts
            \<and> map_of (activeTouches s) (touch_identifier t) = Some p
            \<and> ev = TapEvent (startX_TM p) (startY_TM p)
            \<and> env_now env - timestamp_TM p < TAP_THRESHOLD_MS
            \<and> sqrt ((clientX t - rect_left env - startX_TM p)\<^sup>2
                     + (clientY t - rect_top env - startY_TM p)\<^sup>2) < TAP_MOVE_THRESHOLD_PX
            \<longrightarrow> isThrown (handleTouchEnd_TM env e s)
                \<and> invocations (stateOf (handleTouchEnd_TM env e s)) =
                     invocations s @ map (\<lambda>c. (listenerId c, ev)) (ls1 @ [l])
                \<and> activeTouches (stateOf (handleTouchEnd_TM env e s)) = activeTouches s)"
proof -
  note th = forEachListener_throw[OF assms]
  have d: "(tapCallbacks s = ls1 @ l # ls2 \<longrightarrow>
            triggerTapCallbacks ev s =
              Thrown (s\<lparr>invocations := invocations s @ map (\<lambda>c. (listenerId c, ev)) (ls1 @ [l])\<rparr>))
       \<and> (longPressCallbacks_TM s = ls1 @ l # ls2 \<longrightarrow>
            triggerLongPressCallbacks ev s =
              Thrown (s\<lparr>invocations := invocations s @ map (\<lambda>c. (listenerId c, ev)) (ls1 @ [l])\<rparr>))
       \<and> (dragCallbacks s = ls1 @ l # ls2 \<longrightarrow>
            triggerDragCallbacks ev s =
              Thrown (s\<lparr>invocations := invocations s @ map (\<lambda>c. (listenerId c, ev)) (ls1 @ [l])\<rparr>))
       \<and> (pinchCallbacks s = ls1 @ l # ls2 \<longrightarrow>
            triggerPinchCallbacks ev s =
              Thrown (s\<lparr>invocations := invocations s @ map (\<lambda>c. (listenerId c, ev)) (ls1 @ [l])\<rparr>))"
    by (simp add: triggerTapCallbacks_def triggerLongPressCallbacks_def triggerDragCallbacks_def
        triggerPinchCallbacks_def th)
  have h: "isThrown (handleTouchEnd_TM env e s)
           \<and> invocations (stateOf (handleTouchEnd_TM env e s)) =
                 invocations s @ map (\<lambda>c. (listenerId c, ev)) (ls1 @ [l])
           \<and> activeTouches (stateOf (handleTouchEnd_TM env e s)) = activeTouches s"
    if c: "tapCallbacks s = ls1 @ l # ls2" and e: "ev_changedTouches e = t # ts"
      and p: "map_of (activeTouches s) (touch_identifier t) = Some p"
      and v: "TapEvent (startX_TM p) (startY_TM p) = ev"
      and u: "env_now env - timestamp_TM p < TAP_THRESHOLD_MS"
      and m: "sqrt ((clientX t - rect_left env - startX_TM p)\<^sup>2
                     + (clientY t - rect_top env - startY_TM p)\<^sup>2) < TAP_MOVE_THRESHOLD_PX"
  proof -
    have "handleTouchEnd_TM env e s =
            Thrown ((cancelLongPressTimer (touch_identifier t) s)
                     \<lparr>invocations := invocations s @ map (\<lambda>c. (listenerId c, ev)) (ls1 @ [l])\<rparr>)"
      using u m by (simp add: handleTouchEnd_TM_def e p v Let_def triggerTapCallbacks_def c th)
    then show ?thesis by simp
  qed
  show ?thesis using d h by (simp only: eq_commute[of ev]) blast
qed

text \<open>With a throwing listener registered first, the second listener is never called.\<close>

theorem listener_throw_aborts_dispatch_witness:
  "throwsOn (throwingListener 1) (TapEvent 100 200)
   \<and> tapCallbacks tapSetup = [] @ throwingListener 1 # [quietListener 2]
   \<and> triggerTapCallbacks (TapEvent 100 200) tapSetup =
        Thrown (tapSetup\<lparr>invocations := [(1, TapEvent 100 200)]\<rparr>)"
proof -
  have h1: "\<forall>c \<in> set ([]::Listener list). \<not> throwsOn c (TapEvent 100 200)" by simp
  have h2: "throwsOn (throwingListener 1) (TapEvent 100 200)" by (simp add: throwingListener_def)
  have h3: "tapCallbacks tapSetup = [] @ throwingListener 1 # [quietListener 2]"
    by (simp add: tapSetup_def onTap_def initialTouchManager_def)
  have i: "invocations tapSetup = []" by (simp add: tapSetup_def onTap_def initialTouchManager_def)
  show ?thesis
    using h2 h3 listener_throw_aborts_dispatch[OF h1 h2, of tapSetup "[quietListener 2]"]
    by (simp add: i throwingListener_def)
qed

text \<open>
  A tap at (100, 200) with listeners 1 (throws) and 2: only listener 1 is invoked, the
  handler throws, and the ended touch is still tracked.
\<close>

theorem throwing_listener_counterexample:
  "tapCallbacks tapSetup = [throwingListener 1, quietListener 2]
   \<and> isThrown (handleTouchEnd_TM (envAt 50) (released [touch 0 100 200])
        (handleTouchStart_TM (envAt 0) (oneFinger 100 200) tapSetup))
   \<and> invocations (stateOf (handleTouchEnd_TM (envAt 50) (released [touch 0 100 200])
        (handleTouchStart_TM (envAt 0) (oneFinger 100 200) tapSetup))) = [(1, TapEvent 100 200)]
   \<and> length (activeTouches (stateOf (handleTouchEnd_TM (envAt 50) (released [touch 0 100 200])
        (handleTouchStart_TM (envAt 0) (oneFinger 100 200) tapSetup)))) = 1"
  by (simp add: tapSetup_def tm_defs)

lemmas tbc_defs =
  handleTouchStart_TBC_def handleTouchMove_TBC_def handleTouchEnd_TBC_def handleTouchCancel_TBC_def
  cancelLongPress_def startLongPressTimer_def longPressTimeout_def runTimeout_TBC_def handleTap_def
  initialTouchBlockController_def setCurrentBlock_def onLongPress_def
  envAt_def touch_def touchEvent_def oneFinger_def twoFingers_def released_def Let_def

lemma sqrt_less_iff: "0 \<le> c \<Longrightarrow> sqrt x < c \<longleftrightarrow> x < c\<^sup>2"
  by (metis abs_of_nonneg real_sqrt_abs real_sqrt_less_iff)

lemma sqrt_le_iff: "0 \<le> c \<Longrightarrow> sqrt x \<le> c \<longleftrightarrow> x \<le> c\<^sup>2"
  by (metis abs_of_nonneg real_sqrt_abs real_sqrt_le_iff)

lemma less_sqrt_iff: "0 \<le> c \<Longrightarrow> c < sqrt x \<longleftrightarrow> c\<^sup>2 < x"
  by (metis abs_of_nonneg real_sqrt_abs real_sqrt_less_iff)

lemma cancelLongPress_fields [simp]:
  "currentTouch (cancelLongPress s) = currentTouch s"
  "enabled_TBC (cancelLongPress s) = enabled_TBC s"
  "blockCalls (cancelLongPress s) = blockCalls s"
  "tapMovementThreshold (cancelLongPress s) = tapMovementThreshold s"
  "tapDurationThreshold (cancelLongPress s) = tapDurationThreshold s"
  "getBlockAtPosition (cancelLongPress s) = getBlockAtPosition s"
  "currentBlock (cancelLongPress s) = currentBlock s"
  "touchCount (cancelLongPress s) = touchCount s"
  "longPressTimer (cancelLongPress s) = None"
  by (simp_all add: cancelLongPress_def split: option.splits)

lemma sample_step:
  assumes "enabled_TBC s" and "currentTouch s = Some ct" and "singleContactSample i"
  shows "\<exists>ct'. currentTouch (step_TBC i s) = Some ct'
           \<and> startX_TBC ct' = startX_TBC ct \<and> startY_TBC ct' = startY_TBC ct
           \<and> timestamp_TBC ct' = timestamp_TBC ct
           \<and> moved ct' = (moved ct \<or> movedBeyond (startX_TBC ct) (startY_TBC ct) (tapMovementThreshold s) i)"
    and "enabled_TBC (step_TBC i s)"
    and "tapMovementThreshold (step_TBC i s) = tapMovementThreshold s"
    and "tapDurationThreshold (step_TBC i s) = tapDurationThreshold s"
    and "getBlockAtPosition (step_TBC i s) = getBlockAtPosition s"
    and "currentBlock (step_TBC i s) = currentBlock s"
proof -
  have "(\<exists>ct'. currentTouch (step_TBC i s) = Some ct'
           \<and> startX_TBC ct' = startX_TBC ct \<and> startY_TBC ct' = startY_TBC ct
           \<and> timestamp_TBC ct' = timestamp_TBC ct
           \<and> moved ct' = (moved ct \<or> movedBeyond (startX_TBC ct) (startY_TBC ct) (tapMovementThreshold s) i))
        \<and> enabled_TBC (step_TBC i s)
        \<and> tapMovementThreshold (step_TBC i s) = tapMovementThreshold s
        \<and> tapDurationThreshold (step_TBC i s) = tapDurationThreshold s
        \<and> getBlockAtPosition (step_TBC i s) = getBlockAtPosition s
        \<and> currentBlock (step_TBC i s) = currentBlock s"
  proof (cases i)
    case (Move_TBC env e)
    with assms(3) obtain t where t: "ev_touches e = [t]"
      by (cases "ev_touches e") auto
    show ?thesis
      using assms(1,2) by (simp add: Move_TBC handleTouchMove_TBC_def t Let_def)
  next
    case (Timeout_TBC h)
    show ?thesis
      using assms(1,2)
      by (simp add: Timeout_TBC runTimeout_TBC_def longPressTimeout_def split: option.splits)
  qed (use assms(3) in simp_all)
  then show "\<exists>ct'. currentTouch (step_TBC i s) = Some ct'
           \<and> startX_TBC ct' = startX_TBC ct \<and> startY_TBC ct' = startY_TBC ct
           \<and> timestamp_TBC ct' = timestamp_TBC ct
           \<and> moved ct' = (moved ct \<or> movedBeyond (startX_TBC ct) (startY_TBC ct) (tapMovementThreshold s) i)"
    and "enabled_TBC (step_TBC i s)"
    and "tapMovementThreshold (step_TBC i s) = tapMovementThreshold s"
    and "tapDurationThreshold (step_TBC i s) = tapDurationThreshold s"
    and "getBlockAtPosition (step_TBC i s) = getBlockAtPosition s"
    and "currentBlock (step_TBC i s) = currentBlock s"
    by blast+
qed

lemma samples_run:
  assumes "enabled_TBC s" and "currentTouch s = Some ct" and "\<forall>i \<in> set mid. singleContactSample i"
  shows "(\<exists>ct'. currentTouch (run_TBC mid s) = Some ct'
           \<and> startX_TBC ct' = startX_TBC ct \<and> startY_TBC ct' = startY_TBC ct
           \<and> timestamp_TBC ct' = timestamp_TBC ct
           \<and> moved ct' = (moved ct \<or> (\<exists>i \<in> set mid.
                 movedBeyond (startX_TBC ct) (startY_TBC ct) (tapMovementThreshold s) i)))
        \<and> enabled_TBC (run_TBC mid s)
        \<and> tapMovementThreshold (run_TBC mid s) = tapMovementThreshold s
        \<and> tapDurationThreshold (run_TBC mid s) = tapDurationThreshold s
        \<and> getBlockAtPosition (run_TBC mid s) = getBlockAtPosition s
        \<and> currentBlock (run_TBC mid s) = currentBlock s"
  using assms
proof (induction mid arbitrary: s ct)
  case Nil
  then show ?case by simp
next
  case (Cons i mid)
  have si: "singleContactSample i" and sm: "\<forall>i \<in> set mid. singleContactSample i"
    using Cons.prems(3) by simp_all
  note st = sample_step[OF Cons.prems(1,2) si]
  from st(1) obtain c1 where c1: "currentTouch (step_TBC i s) = Some c1"
    and x: "startX_TBC c1 = startX_TBC ct" and y: "startY_TBC c1 = startY_TBC ct"
    and ts: "timestamp_TBC c1 = timestamp_TBC ct"
    and m: "moved c1 = (moved ct \<or> movedBeyond (startX_TBC ct) (startY_TBC ct) (tapMovementThreshold s) i)"
    by blast
  from Cons.IH[OF st(2) c1 sm] show ?case
    by (simp add: x y ts m st(3-6))
qed

lemma envAt_simps [simp]:
  "env_now (envAt t) = t" "rect_left (envAt t) = 0" "rect_top (envAt t) = 0"
  by (simp_all add: envAt_def)

lemma touch_simps [simp]:
  "touch_identifier (touch i a b) = i" "clientX (touch i a b) = a" "clientY (touch i a b) = b"
  by (simp_all add: touch_def)

lemma run_TBC_append: "run_TBC (xs @ ys) s = run_TBC ys (run_TBC xs s)"
  by (induction xs arbitrary: s) simp_all

lemma handleTouchStart_TBC_single:
  assumes "enabled_TBC s" and "ev_touches e = [t]"
  shows "currentTouch (handleTouchStart_TBC env e s) =
           Some \<lparr>x_TBC = clientX t - rect_left env, y_TBC = clientY t - rect_top env,
                 startX_TBC = clientX t - rect_left env, startY_TBC = clientY t - rect_top env,
                 timestamp_TBC = env_now env, moved = False\<rparr>"
    and "enabled_TBC (handleTouchStart_TBC env e s)"
    and "tapMovementThreshold (handleTouchStart_TBC env e s) = tapMovementThreshold s"
    and "tapDurationThreshold (handleTouchStart_TBC env e s) = tapDurationThreshold s"
    and "getBlockAtPosition (handleTouchStart_TBC env e s) = getBlockAtPosition s"
    and "currentBlock (handleTouchStart_TBC env e s) = currentBlock s"
  using assms
  by (simp_all add: handleTouchStart_TBC_def startLongPressTimer_def Let_def)

lemma handleTouchEnd_TBC_last:
  assumes "enabled_TBC s" and "currentTouch s = Some ct"
      and "ev_touches e = []" and "ev_changedTouches e = t # ts"
  shows "blockCalls (stateOf (handleTouchEnd_TBC env e s)) =
           blockCalls s @
           (if \<not> moved ct \<and> env_now env - timestamp_TBC ct < tapDurationThreshold s
            then [if getBlockAtPosition s (clientX t - rect_left env) (clientY t - rect_top env) \<noteq> AIR
                  then onRemoveBlock (clientX t - rect_left env) (clientY t - rect_top env)
                  else onPlaceBlock (clientX t - rect_left env) (clientY t - rect_top env) (currentBlock s)]
            else [])"
  using assms
  by (simp add: handleTouchEnd_TBC_def Let_def handleTap_def)

lemma handleTouchEnd_TM_single:
  assumes "ev_changedTouches f = [u]" and "map_of (activeTouches m) (touch_identifier u) = Some p"
      and "\<forall>c \<in> set (tapCallbacks m). \<not> throwsOn c (TapEvent (startX_TM p) (startY_TM p))"
  shows "handleTouchEnd_TM env f m =
           Normal ((cancelLongPressTimer (touch_identifier u) m)
             \<lparr>invocations := invocations m @
                 (if env_now env - timestamp_TM p < TAP_THRESHOLD_MS
                     \<and> sqrt ((clientX u - rect_left env - startX_TM p)\<^sup>2
                             + (clientY u - rect_top env - startY_TM p)\<^sup>2) < TAP_MOVE_THRESHOLD_PX
                  then map (\<lambda>c. (listenerId c, TapEvent (startX_TM p) (startY_TM p))) (tapCallbacks m)
                  else []),
               activeTouches := mapDelete (touch_identifier u) (activeTouches m)\<rparr>)"
  using assms
  by (simp add: handleTouchEnd_TM_def Let_def triggerTapCallbacks_def forEachListener_quiet)

subsection \<open>When a release is a tap\<close>

text \<open>
  Claim C4, as amended. In TouchBlockController, the release of a single contact makes
  exactly one block call (remove or place) if and only if it comes less than
  \<^verbatim>\<open>tapDurationThreshold\<close> (300) ms after the start and no move sample of the contact was
  farther than \<^verbatim>\<open>tapMovementThreshold\<close> (10) from the start: one such sample disqualifies
  the contact for good. In TouchManager, the release invokes every tap listener once if
  and only if it comes less than 300 ms after the start and the release point is less
  than 10 from the start; what the contact did in between does not matter.
\<close>

theorem tap_resolution:
  assumes "enabled_TBC s" and "ev_touches e0 = [t0]" and "\<forall>i \<in> set mid. singleContactSample i"
      and "ev_touches e1 = []" and "ev_changedTouches e1 = t1 # ts"
      and "ev_changedTouches f = [u]" and "map_of (activeTouches m) (touch_identifier u) = Some p"
      and "\<forall>c \<in> set (tapCallbacks m). \<not> throwsOn c (TapEvent (startX_TM p) (startY_TM p))"
  shows "blockCalls (run_TBC (Start_TBC env0 e0 # mid @ [End_TBC env1 e1]) s) =
           blockCalls (run_TBC (Start_TBC env0 e0 # mid) s) @
           (if env_now env1 - env_now env0 < tapDurationThreshold s
               \<and> \<not> (\<exists>i \<in> set mid. movedBeyond (clientX t0 - rect_left env0) (clientY t0 - rect_top env0)
                                    (tapMovementThreshold s) i)
            then [if getBlockAtPosition s (clientX t1 - rect_left env1) (clientY t1 - rect_top env1) \<noteq> AIR
                  then onRemoveBlock (clientX t1 - rect_left env1) (clientY t1 - rect_top env1)
                  else onPlaceBlock (clientX t1 - rect_left env1) (clientY t1 - rect_top env1) (currentBlock s)]
            else [])
       \<and> invocations (stateOf (handleTouchEnd_TM env f m)) =
           invocations m @
           (if env_now env - timestamp_TM p < TAP_THRESHOLD_MS
               \<and> sqrt ((clientX u - rect_left env - startX_TM p)\<^sup>2
                       + (clientY u - rect_top env - startY_TM p)\<^sup>2) < TAP_MOVE_THRESHOLD_PX
            then map (\<lambda>c. (listenerId c, TapEvent (startX_TM p) (startY_TM p))) (tapCallbacks m)
            else [])"
proof -
  let ?s0 = "handleTouchStart_TBC env0 e0 s"
  let ?ct = "\<lparr>x_TBC = clientX t0 - rect_left env0, y_TBC = clientY t0 - rect_top env0,
                 startX_TBC = clientX t0 - rect_left env0, startY_TBC = clientY t0 - rect_top env0,
                 timestamp_TBC = env_now env0, moved = False\<rparr>"
  note st = handleTouchStart_TBC_single[OF assms(1,2), of env0]
  from samples_run[OF st(2) st(1) assms(3)] obtain ct' where
    c: "currentTouch (run_TBC mid ?s0) = Some ct'"
    and ts: "timestamp_TBC ct' = env_now env0"
    and mv: "moved ct' = (\<exists>i \<in> set mid. movedBeyond (clientX t0 - rect_left env0) (clientY t0 - rect_top env0)
                                    (tapMovementThreshold s) i)"
    and en: "enabled_TBC (run_TBC mid ?s0)"
    and td: "tapDurationThreshold (run_TBC mid ?s0) = tapDurationThreshold s"
    and gb: "getBlockAtPosition (run_TBC mid ?s0) = getBlockAtPosition s"
    and cb: "currentBlock (run_TBC mid ?s0) = currentBlock s"
    by (auto simp: st(3-6))
  have "blockCalls (run_TBC (Start_TBC env0 e0 # mid @ [End_TBC env1 e1]) s) =
        blockCalls (stateOf (handleTouchEnd_TBC env1 e1 (run_TBC mid ?s0)))"
    by (simp add: run_TBC_append)
  also have "\<dots> = blockCalls (run_TBC (Start_TBC env0 e0 # mid) s) @
           (if env_now env1 - env_now env0 < tapDurationThreshold s
               \<and> \<not> (\<exists>i \<in> set mid. movedBeyond (clientX t0 - rect_left env0) (clientY t0 - rect_top env0)
                                    (tapMovementThreshold s) i)
            then [if getBlockAtPosition s (clientX t1 - rect_left env1) (clientY t1 - rect_top env1) \<noteq> AIR
                  then onRemoveBlock (clientX t1 - rect_left env1) (clientY t1 - rect_top env1)
                  else onPlaceBlock (clientX t1 - rect_left env1) (clientY t1 - rect_top env1) (currentBlock s)]
            else [])"
    unfolding handleTouchEnd_TBC_last[OF en c assms(4,5)]
    by (simp add: ts mv td gb cb conj_commute)
  finally show ?thesis
    using handleTouchEnd_TM_single[OF assms(6,7,8), of env] by simp
qed

text \<open>
  TouchManager: a contact that moves 100 px away and comes back before its release
  150 ms after the start is a tap.
\<close>

theorem away_and_back_counterexample:
  "invocations (run_TM [Start_TM (envAt 0) (oneFinger 100 200),
                        Move_TM (envAt 50) (oneFinger 200 200),
                        Move_TM (envAt 100) (oneFinger 100 200),
                        End_TM (envAt 150) (released [touch 0 100 200])] tapListener)
     = [(1, TapEvent 100 200)]
   \<and> (10::real) < sqrt ((200 - 100)\<^sup>2 + (200 - 200)\<^sup>2)"
  by (simp add: tapListener_def tm_defs less_sqrt_iff sqrt_less_iff)

text \<open>
  The same gesture on both controllers: no block call from TouchBlockController, one tap
  from TouchManager; without the excursion TouchBlockController places a block.
\<close>

theorem tap_resolution_witness:
  "enabled_TBC emptyWorld
   \<and> ev_touches (oneFinger 100 200) = [touch 0 100 200]
   \<and> singleContactSample (Move_TBC (envAt 50) (oneFinger 200 200))
   \<and> singleContactSample (Move_TBC (envAt 100) (oneFinger 100 200))
   \<and> ev_touches (released [touch 0 100 200]) = []
   \<and> ev_changedTouches (released [touch 0 100 200]) = touch 0 100 200 # []
   \<and> map_of (activeTouches (run_TM [Start_TM (envAt 0) (oneFinger 100 200),
                        Move_TM (envAt 50) (oneFinger 200 200),
                        Move_TM (envAt 100) (oneFinger 100 200)] tapListener)) (touch_identifier (touch 0 100 200))
        = Some \<lparr>id_TM = 0, x_TM = 100, y_TM = 200, startX_TM = 100, startY_TM = 200, timestamp_TM = 0\<rparr>
   \<and> tapCallbacks (run_TM [Start_TM (envAt 0) (oneFinger 100 200),
                        Move_TM (envAt 50) (oneFinger 200 200),
                        Move_TM (envAt 100) (oneFinger 100 200)] tapListener) = [quietListener 1]
   \<and> \<not> throwsOn (quietListener 1) (TapEvent 100 200)
   \<and> blockCalls (run_TBC (Start_TBC (envAt 0) (oneFinger 100 200) #
         [Move_TBC (envAt 50) (oneFinger 200 200), Move_TBC (envAt 100) (oneFinger 100 200)]
         @ [End_TBC (envAt 150) (released [touch 0 100 200])]) emptyWorld) = []
   \<and> blockCalls (run_TBC (Start_TBC (envAt 0) (oneFinger 100 200) # []
         @ [End_TBC (envAt 150) (released [touch 0 100 200])]) emptyWorld) = [onPlaceBlock 100 200 GRASS]
   \<and> invocations (stateOf (handleTouchEnd_TM (envAt 150) (released [touch 0 100 200])
         (run_TM [Start_TM (envAt 0) (oneFinger 100 200),
                        Move_TM (envAt 50) (oneFinger 200 200),
                        Move_TM (envAt 100) (oneFinger 100 200)] tapListener))) = [(1, TapEvent 100 200)]"
proof -
  let ?mid = "[Move_TBC (envAt 50) (oneFinger 200 200), Move_TBC (envAt 100) (oneFinger 100 200)]"
  let ?m = "run_TM [Start_TM (envAt 0) (oneFinger 100 200),
                        Move_TM (envAt 50) (oneFinger 200 200),
                        Move_TM (envAt 100) (oneFinger 100 200)] tapListener"
  let ?p = "\<lparr>id_TM = 0, x_TM = 100, y_TM = 200, startX_TM = 100, startY_TM = 200, timestamp_TM = 0\<rparr>"
  have h1: "enabled_TBC emptyWorld" by (simp add: emptyWorld_def initialTouchBlockController_def)
  have h2: "ev_touches (oneFinger 100 200) = [touch 0 100 200]" by (simp add: oneFinger_def touchEvent_def)
  have h3: "\<forall>i \<in> set ?mid. singleContactSample i" by (simp add: oneFinger_def touchEvent_def)
  have h3': "\<forall>i \<in> set ([]::Input_TBC list). singleContactSample i" by simp
  have h4: "ev_touches (released [touch 0 100 200]) = []" by (simp add: released_def touchEvent_def)
  have h5: "ev_changedTouches (released [touch 0 100 200]) = touch 0 100 200 # []"
    by (simp add: released_def touchEvent_def)
  have h6: "ev_changedTouches (released [touch 0 100 200]) = [touch 0 100 200]"
    by (simp add: released_def touchEvent_def)
  have h7: "map_of (activeTouches ?m) (touch_identifier (touch 0 100 200)) = Some ?p"
    by (simp add: tapListener_def tm_defs less_sqrt_iff sqrt_less_iff)
  have tc: "tapCallbacks ?m = [quietListener 1]" "invocations ?m = []"
    by (simp_all add: tapListener_def tm_defs less_sqrt_iff sqrt_less_iff)
  have h8: "\<forall>c \<in> set (tapCallbacks ?m). \<not> throwsOn c (TapEvent (startX_TM ?p) (startY_TM ?p))"
    unfolding tc by (simp add: quietListener_def)
  have h8': "\<forall>c \<in> set (tapCallbacks ?m). \<not> throwsOn c (TapEvent 100 200)"
    unfolding tc by (simp add: quietListener_def)
  note A = tap_resolution[OF h1 h2 h3 h4 h5 h6 h7 h8, of "envAt 0" "envAt 150" "envAt 150"]
  note B = tap_resolution[OF h1 h2 h3' h4 h5 h6 h7 h8, of "envAt 0" "envAt 150" "envAt 150"]
  have mb: "\<exists>i \<in> set ?mid. movedBeyond (clientX (touch 0 100 200) - rect_left (envAt 0))
              (clientY (touch 0 100 200) - rect_top (envAt 0)) (tapMovementThreshold emptyWorld) i"
    by (simp add: emptyWorld_def initialTouchBlockController_def oneFinger_def
          touchEvent_def less_sqrt_iff)
  have b0: "blockCalls (run_TBC (Start_TBC (envAt 0) (oneFinger 100 200) # ?mid) emptyWorld) = []"
           "blockCalls (run_TBC [Start_TBC (envAt 0) (oneFinger 100 200)] emptyWorld) = []"
    by (simp_all add: emptyWorld_def tbc_defs less_sqrt_iff)
  have f: "tapDurationThreshold emptyWorld = 300" "getBlockAtPosition emptyWorld = (\<lambda>x y. AIR)"
     "currentBlock emptyWorld = GRASS"
    by (simp_all add: emptyWorld_def initialTouchBlockController_def)
  have c1: "blockCalls (run_TBC (Start_TBC (envAt 0) (oneFinger 100 200) # ?mid
         @ [End_TBC (envAt 150) (released [touch 0 100 200])]) emptyWorld) = []"
    using A mb by (simp add: b0 del: run_TBC.simps run_TM.simps)
  have c2: "blockCalls (run_TBC (Start_TBC (envAt 0) (oneFinger 100 200) # []
         @ [End_TBC (envAt 150) (released [touch 0 100 200])]) emptyWorld) = [onPlaceBlock 100 200 GRASS]"
    using B by (simp add: b0 f del: run_TBC.simps run_TM.simps)
  have c3: "invocations (stateOf (handleTouchEnd_TM (envAt 150) (released [touch 0 100 200]) ?m))
              = [(1, TapEvent 100 200)]"
    using A by (simp add: tc quietListener_def TAP_THRESHOLD_MS_def
          TAP_MOVE_THRESHOLD_PX_def del: run_TM.simps run_TBC.simps)
  have q: "\<not> throwsOn (quietListener 1) (TapEvent 100 200)" by (simp add: quietListener_def)
  have h3a: "singleContactSample (Move_TBC (envAt 50) (oneFinger 200 200))"
            "singleContactSample (Move_TBC (envAt 100) (oneFinger 100 200))"
    using h3 by simp_all
  show ?thesis
    using h1 h2 h3a h4 h5 h7 tc(1) q c1 c2 c3 by blast
qed

subsection \<open>Contacts that overlap\<close>

lemma timersTracked_iff:
  "timersTracked s \<longleftrightarrow>
     timeouts_TBC s = [] \<or> (\<exists>h x y. timeouts_TBC s = [(h, x, y)] \<and> longPressTimer s = Some h)"
  by (auto simp: timersTracked_def split: list.splits)

lemma cancelLongPress_tracked: "timersTracked s \<Longrightarrow> timeouts_TBC (cancelLongPress s) = []"
  by (auto simp: timersTracked_iff cancelLongPress_def split: option.splits)

lemma cancelLongPress_idle: "timeouts_TBC s = [] \<Longrightarrow> timeouts_TBC (cancelLongPress s) = []"
  by (simp add: cancelLongPress_def split: option.splits)

lemma multi_start:
  assumes "enabled_TBC s" and "timersTracked s" and "length (ev_touches e) \<noteq> 1"
  shows "timeouts_TBC (handleTouchStart_TBC env e s) = []"
    and "blockCalls (handleTouchStart_TBC env e s) = blockCalls s"
    and "longPressTimer (handleTouchStart_TBC env e s) = None"
proof -
  have t: "timersTracked (s\<lparr>touchCount := length (ev_touches e)\<rparr>)"
    using assms(2) by (simp add: timersTracked_iff)
  have "handleTouchStart_TBC env e s = cancelLongPress (s\<lparr>touchCount := length (ev_touches e)\<rparr>)"
    using assms(1,3) by (auto simp: handleTouchStart_TBC_def Let_def split: list.splits)
  then show "timeouts_TBC (handleTouchStart_TBC env e s) = []"
    and "blockCalls (handleTouchStart_TBC env e s) = blockCalls s"
    and "longPressTimer (handleTouchStart_TBC env e s) = None"
    using cancelLongPress_tracked[OF t] by simp_all
qed

lemma phase1_step:
  assumes "timeouts_TBC s = []" and "multiTouchPhase i"
  shows "timeouts_TBC (step_TBC i s) = [] \<and> blockCalls (step_TBC i s) = blockCalls s"
proof (cases i)
  case (Start_TBC env e)
  then show ?thesis
    using assms
    by (auto simp: handleTouchStart_TBC_def Let_def cancelLongPress_idle split: list.splits)
next
  case (Move_TBC env e)
  then show ?thesis
    using assms
    by (auto simp: handleTouchMove_TBC_def Let_def cancelLongPress_idle split: list.splits option.splits)
next
  case (End_TBC env e)
  then show ?thesis
    using assms
    by (auto simp: handleTouchEnd_TBC_def Let_def cancelLongPress_idle split: option.splits)
next
  case (Cancel_TBC env e)
  then show ?thesis
    using assms
    by (auto simp: handleTouchCancel_TBC_def handleTouchEnd_TBC_def Let_def cancelLongPress_idle
          split: option.splits)
next
  case (Timeout_TBC h)
  then show ?thesis using assms by (simp add: runTimeout_TBC_def)
qed

lemma phase1_run:
  assumes "timeouts_TBC s = []" and "\<forall>i \<in> set is. multiTouchPhase i"
  shows "timeouts_TBC (run_TBC is s) = [] \<and> blockCalls (run_TBC is s) = blockCalls s"
  using assms
proof (induction "is" arbitrary: s)
  case Nil
  then show ?case by simp
next
  case (Cons i "is")
  have a: "timeouts_TBC (step_TBC i s) = []" and b: "blockCalls (step_TBC i s) = blockCalls s"
    using phase1_step[OF Cons.prems(1), of i] Cons.prems(2) by simp_all
  from Cons.IH[OF a] Cons.prems(2) show ?case by (simp add: b)
qed

lemma release_with_remaining:
  assumes "timeouts_TBC s = []" and "ev_touches e \<noteq> []"
  shows "timeouts_TBC (step_TBC (End_TBC env e) s) = []"
    and "blockCalls (step_TBC (End_TBC env e) s) = blockCalls s"
    and "enabled_TBC s \<Longrightarrow> currentTouch (step_TBC (End_TBC env e) s) = None"
  using assms
  by (auto simp: handleTouchEnd_TBC_def Let_def cancelLongPress_idle split: option.splits)

lemma phase2_step:
  assumes "timeouts_TBC s = []" and "currentTouch s = None" and "noNewCandidate i"
  shows "timeouts_TBC (step_TBC i s) = [] \<and> currentTouch (step_TBC i s) = None
         \<and> blockCalls (step_TBC i s) = blockCalls s"
proof (cases i)
  case (Start_TBC env e)
  then show ?thesis
    using assms
    by (auto simp: handleTouchStart_TBC_def Let_def cancelLongPress_idle split: list.splits)
next
  case (Move_TBC env e)
  then show ?thesis using assms by (simp add: handleTouchMove_TBC_def)
next
  case (End_TBC env e)
  then show ?thesis
    using assms
    by (auto simp: handleTouchEnd_TBC_def Let_def cancelLongPress_idle split: option.splits)
next
  case (Cancel_TBC env e)
  then show ?thesis
    using assms
    by (auto simp: handleTouchCancel_TBC_def handleTouchEnd_TBC_def Let_def cancelLongPress_idle
          split: option.splits)
next
  case (Timeout_TBC h)
  then show ?thesis using assms by (simp add: runTimeout_TBC_def)
qed

lemma phase2_run:
  assumes "timeouts_TBC s = []" and "currentTouch s = None" and "\<forall>i \<in> set is. noNewCandidate i"
  shows "blockCalls (run_TBC is s) = blockCalls s"
  using assms
proof (induction "is" arbitrary: s)
  case Nil
  then show ?case by simp
next
  case (Cons i "is")
  have a: "timeouts_TBC (step_TBC i s) = []" and c: "currentTouch (step_TBC i s) = None"
    and b: "blockCalls (step_TBC i s) = blockCalls s"
    using phase2_step[OF Cons.prems(1,2), of i] Cons.prems(3) by simp_all
  from Cons.IH[OF a c] Cons.prems(3) show ?case by (simp add: b)
qed

lemma enabled_step [simp]: "enabled_TBC (step_TBC i s) = enabled_TBC s"
  by (cases i)
     (auto simp: handleTouchStart_TBC_def handleTouchMove_TBC_def handleTouchEnd_TBC_def
        handleTouchCancel_TBC_def runTimeout_TBC_def longPressTimeout_def startLongPressTimer_def
        handleTap_def Let_def
        split: list.splits option.splits)

lemma enabled_run [simp]: "enabled_TBC (run_TBC is s) = enabled_TBC s"
  by (induction "is" arbitrary: s) simp_all

text \<open>Every state the block controller reaches from its initial state tracks its timer.\<close>

lemma timersTracked_cancel: "timersTracked s \<Longrightarrow> timersTracked (cancelLongPress s)"
  by (simp add: timersTracked_iff cancelLongPress_tracked)

lemma timersTracked_step: "timersTracked s \<Longrightarrow> timersTracked (step_TBC i s)"
proof (cases i)
  case (Start_TBC env e)
  assume t: "timersTracked s"
  have t': "timersTracked (s\<lparr>touchCount := length (ev_touches e)\<rparr>)"
    using t by (simp add: timersTracked_iff)
  have c: "timeouts_TBC (cancelLongPress (s\<lparr>touchCount := length (ev_touches e), currentTouch := ct\<rparr>)) = []" for ct
    by (rule cancelLongPress_tracked) (use t in \<open>simp add: timersTracked_iff\<close>)
  show ?thesis
    using t timersTracked_cancel[OF t'] c
    by (auto simp: Start_TBC handleTouchStart_TBC_def startLongPressTimer_def Let_def timersTracked_iff
          split: list.splits)
next
  case (Move_TBC env e)
  assume t: "timersTracked s"
  have t': "timersTracked (s\<lparr>touchCount := length (ev_touches e)\<rparr>)"
    using t by (simp add: timersTracked_iff)
  have c: "timeouts_TBC (cancelLongPress (s\<lparr>touchCount := length (ev_touches e)\<rparr>)) = []"
    by (rule cancelLongPress_tracked[OF t'])
  show ?thesis
    using t c
    by (auto simp: Move_TBC handleTouchMove_TBC_def Let_def timersTracked_iff
          split: list.splits option.splits)
next
  case (End_TBC env e)
  assume t: "timersTracked s"
  have c: "timeouts_TBC (cancelLongPress s) = []"
    by (rule cancelLongPress_tracked[OF t])
  show ?thesis
    using t c
    by (auto simp: End_TBC handleTouchEnd_TBC_def Let_def timersTracked_iff handleTap_def
          split: list.splits option.splits)
next
  case (Cancel_TBC env e)
  assume t: "timersTracked s"
  have c: "timeouts_TBC (cancelLongPress s) = []"
    by (rule cancelLongPress_tracked[OF t])
  show ?thesis
    using t c
    by (auto simp: Cancel_TBC handleTouchCancel_TBC_def handleTouchEnd_TBC_def Let_def timersTracked_iff
          handleTap_def split: list.splits option.splits)
next
  case (Timeout_TBC h)
  assume t: "timersTracked s"
  show ?thesis
    using t
    by (auto simp: Timeout_TBC runTimeout_TBC_def longPressTimeout_def timersTracked_iff
          split: option.splits if_splits)
qed

lemma timersTracked_run: "timersTracked s \<Longrightarrow> timersTracked (run_TBC is s)"
  by (induction "is" arbitrary: s) (simp_all add: timersTracked_step del: step_TBC.simps)

lemma timersTracked_reachable: "timersTracked (run_TBC is (initialTouchBlockController query vib))"
  by (rule timersTracked_run) (simp add: timersTracked_def initialTouchBlockController_def)

lemma map_of_mapDelete: "map_of (mapDelete k m) k' = (if k' = k then None else map_of m k')"
  by (induction m) (auto simp: mapDelete_def)

lemma cancelLongPressTimer_invocations_same [simp]:
  "(cancelLongPressTimer i m)\<lparr>invocations := invocations m\<rparr> = cancelLongPressTimer i m"
  by (simp add: cancelLongPressTimer_def split: option.splits)

lemma endTouches_TM_quiet:
  assumes "map_of (activeTouches m) (touch_identifier u) = Some p"
      and "\<forall>c \<in> set (tapCallbacks m). \<not> throwsOn c (TapEvent (startX_TM p) (startY_TM p))"
  shows "endTouches_TM env (u # us) m =
           endTouches_TM env us ((cancelLongPressTimer (touch_identifier u) m)
             \<lparr>invocations := invocations m @
                 (if env_now env - timestamp_TM p < TAP_THRESHOLD_MS
                     \<and> sqrt ((clientX u - rect_left env - startX_TM p)\<^sup>2
                             + (clientY u - rect_top env - startY_TM p)\<^sup>2) < TAP_MOVE_THRESHOLD_PX
                  then map (\<lambda>c. (listenerId c, TapEvent (startX_TM p) (startY_TM p))) (tapCallbacks m)
                  else []),
               activeTouches := mapDelete (touch_identifier u) (activeTouches m)\<rparr>)"
  using assms
  by (simp add: Let_def triggerTapCallbacks_def forEachListener_quiet)

lemma map_of_mapSet: "map_of (mapSet k v m) k' = (if k' = k then Some v else map_of m k')"
  by (induction m) auto

lemma forEachListener_keeps [simp]:
  "activeTouches (stateOf (forEachListener ls ev s)) = activeTouches s"
  "tapCallbacks (stateOf (forEachListener ls ev s)) = tapCallbacks s"
  "longPressTimers (stateOf (forEachListener ls ev s)) = longPressTimers s"
  "timeouts_TM (stateOf (forEachListener ls ev s)) = timeouts_TM s"
  by (induction ls arbitrary: s; simp add: Let_def)+

lemma startLongPressTimer_TM_keeps [simp]:
  "activeTouches (startLongPressTimer_TM p s) = activeTouches s"
  "tapCallbacks (startLongPressTimer_TM p s) = tapCallbacks s"
  by (simp_all add: startLongPressTimer_TM_def Let_def)

lemma startTouches_TM_other:
  "i \<notin> set (map touch_identifier ts) \<Longrightarrow>
   map_of (activeTouches (startTouches_TM env ts s)) i = map_of (activeTouches s) i"
  by (induction ts arbitrary: s) (simp_all add: Let_def map_of_mapSet)

lemma startTouches_TM_listed:
  assumes "distinct (map touch_identifier ts)" and "t \<in> set ts"
  shows "map_of (activeTouches (startTouches_TM env ts s)) (touch_identifier t) =
           Some \<lparr>id_TM = touch_identifier t,
                 x_TM = clientX t - rect_left env, y_TM = clientY t - rect_top env,
                 startX_TM = clientX t - rect_left env, startY_TM = clientY t - rect_top env,
                 timestamp_TM = env_now env\<rparr>"
  using assms
proof (induction ts arbitrary: s)
  case Nil
  then show ?case by simp
next
  case (Cons u ts)
  show ?case
  proof (cases "t = u")
    case True
    have "touch_identifier u \<notin> set (map touch_identifier ts)" using Cons.prems(1) by simp
    then show ?thesis
      using True by (simp add: Let_def startTouches_TM_other map_of_mapSet)
  next
    case False
    then have "t \<in> set ts" using Cons.prems(2) by simp
    moreover have "distinct (map touch_identifier ts)" using Cons.prems(1) by simp
    ultimately show ?thesis using Cons.IH by (simp add: Let_def)
  qed
qed

lemma tapCallbacks_startTouches [simp]: "tapCallbacks (startTouches_TM env ts s) = tapCallbacks s"
  by (induction ts arbitrary: s) (simp_all add: Let_def)

lemma recordedStart_cong:
  "map_of (activeTouches m') i = map_of (activeTouches m) i \<Longrightarrow> recordedStart m' i = recordedStart m i"
  by (simp add: recordedStart_def)

lemma recordedStart_update:
  "recordedStart s i = Some r \<Longrightarrow> recordedStart (updateTouches_TM env ts s) i = Some r"
proof (induction ts arbitrary: s)
  case Nil
  then show ?case by simp
next
  case (Cons u ts)
  show ?case
  proof (cases "map_of (activeTouches s) (touch_identifier u)")
    case None
    then have ne: "touch_identifier u \<noteq> i"
      using Cons.prems by (auto simp: recordedStart_def)
    have "recordedStart (s\<lparr>activeTouches := mapSet (touch_identifier u)
                      \<lparr>id_TM = touch_identifier u, x_TM = clientX u - rect_left env,
                       y_TM = clientY u - rect_top env,
                       startX_TM = clientX u - rect_left env, startY_TM = clientY u - rect_top env,
                       timestamp_TM = env_now env\<rparr> (activeTouches s)\<rparr>) i = Some r"
      using Cons.prems ne by (simp add: recordedStart_def map_of_mapSet)
    from Cons.IH[OF this] show ?thesis using None by (simp add: Let_def)
  next
    case (Some tp)
    let ?s1 = "if sqrt ((clientX u - rect_left env - startX_TM tp)\<^sup>2
                      + (clientY u - rect_top env - startY_TM tp)\<^sup>2) > LONG_PRESS_MOVE_THRESHOLD_PX
               then cancelLongPressTimer (id_TM tp) s else s"
    have a: "activeTouches ?s1 = activeTouches s" by simp
    have "recordedStart (?s1\<lparr>activeTouches := mapSet (touch_identifier u)
              (tp\<lparr>x_TM := clientX u - rect_left env, y_TM := clientY u - rect_top env\<rparr>)
              (activeTouches ?s1)\<rparr>) i = Some r"
      using Cons.prems Some unfolding a by (auto simp: recordedStart_def map_of_mapSet)
    from Cons.IH[OF this] show ?thesis using Some by (simp add: Let_def)
  qed
qed

lemma handleTwoFingerGestures_keeps [simp]:
  "activeTouches (stateOf (handleTwoFingerGestures env a b s)) = activeTouches s"
proof -
  have k: "activeTouches (stateOf (bindC r f)) = activeTouches s"
    if "activeTouches (stateOf r) = activeTouches s"
      and "\<And>s1. activeTouches s1 = activeTouches s \<Longrightarrow> activeTouches (stateOf (f s1)) = activeTouches s"
    for r :: "TouchManager Completion" and f
    using that by (cases r) auto
  show ?thesis
    unfolding handleTwoFingerGestures_def Let_def
    by (auto split: option.splits intro!: k
          simp: triggerPinchCallbacks_def triggerDragCallbacks_def)
qed

lemma recordedStart_move:
  assumes "recordedStart s i = Some r"
  shows "recordedStart (stateOf (handleTouchMove_TM env e s)) i = Some r"
proof -
  have k: "recordedStart (stateOf (bindC c (\<lambda>s1. Normal (updateTouches_TM env ts s1)))) i = Some r"
    if "activeTouches (stateOf c) = activeTouches s" for c :: "TouchManager Completion" and ts
  proof -
    have "recordedStart (stateOf c) i = Some r"
      using assms that by (simp add: recordedStart_def)
    then show ?thesis by (cases c) (simp_all add: recordedStart_update del: updateTouches_TM.simps)
  qed
  have d: "activeTouches (stateOf (case map_of (activeTouches s) (touch_identifier u) of
                   None \<Rightarrow> Normal s
                 | Some touchPoint \<Rightarrow>
                     (let x = clientX u - rect_left env;
                          y = clientY u - rect_top env;
                          deltaX = x - x_TM touchPoint;
                          deltaY = y - y_TM touchPoint
                      in if \<bar>deltaX\<bar> > 1 / 10 \<or> \<bar>deltaY\<bar> > 1 / 10
                         then triggerDragCallbacks (DragEvent deltaX deltaY 1 x y) s
                         else Normal s))) = activeTouches s" for u
    by (simp add: Let_def triggerDragCallbacks_def split: option.splits)
  show ?thesis
  proof (cases "ev_touches e")
    case Nil
    then show ?thesis using assms by (simp add: handleTouchMove_TM_def)
  next
    case (Cons u1 r1)
    note c1 = this
    show ?thesis
    proof (cases r1)
      case Nil
      show ?thesis
        unfolding handleTouchMove_TM_def c1 Nil list.case
        by (rule k) (rule d)
    next
      case (Cons u2 r2)
      note c2 = this
      show ?thesis
      proof (cases r2)
        case Nil
        show ?thesis
          unfolding handleTouchMove_TM_def c1 c2 Nil list.case
          by (rule k) simp
      next
        case (Cons u3 r3)
        show ?thesis
          unfolding handleTouchMove_TM_def c1 c2 Cons list.case stateOf.simps
          by (rule recordedStart_update[OF assms])
      qed
    qed
  qed
qed

lemma endTouches_TM_other:
  "i \<notin> set (map touch_identifier cs) \<Longrightarrow>
   map_of (activeTouches (stateOf (endTouches_TM env cs s))) i = map_of (activeTouches s) i"
proof (induction cs arbitrary: s)
  case Nil
  then show ?case by simp
next
  case (Cons u cs)
  have ne: "touch_identifier u \<noteq> i" and rest: "i \<notin> set (map touch_identifier cs)"
    using Cons.prems by auto
  show ?case
  proof (cases "map_of (activeTouches s) (touch_identifier u)")
    case None
    then show ?thesis using Cons.IH[OF rest] by simp
  next
    case (Some tp)
    let ?s1 = "cancelLongPressTimer (touch_identifier u) s"
    let ?r = "if env_now env - timestamp_TM tp < TAP_THRESHOLD_MS
                 \<and> sqrt ((clientX u - rect_left env - startX_TM tp)\<^sup>2
                         + (clientY u - rect_top env - startY_TM tp)\<^sup>2) < TAP_MOVE_THRESHOLD_PX
              then triggerTapCallbacks (TapEvent (startX_TM tp) (startY_TM tp)) ?s1
              else Normal ?s1"
    have a: "activeTouches (stateOf ?r) = activeTouches s"
      by (simp add: triggerTapCallbacks_def)
    have e: "endTouches_TM env (u # cs) s =
               bindC ?r (\<lambda>s2. endTouches_TM env cs
                         (s2\<lparr>activeTouches := mapDelete (touch_identifier u) (activeTouches s2)\<rparr>))"
      using Some by (simp add: Let_def)
    show ?thesis
    proof (cases ?r)
      case (Normal s2)
      then have "activeTouches s2 = activeTouches s" using a by simp
      then show ?thesis
        unfolding e Normal
        using Cons.IH[OF rest, of "s2\<lparr>activeTouches := mapDelete (touch_identifier u) (activeTouches s2)\<rparr>"] ne
        by (simp add: map_of_mapDelete)
    next
      case (Thrown s2)
      then have "activeTouches s2 = activeTouches s" using a by simp
      then show ?thesis unfolding e Thrown by simp
    qed
  qed
qed

lemma cancelTouches_TM_other:
  "i \<notin> set (map touch_identifier cs) \<Longrightarrow>
   map_of (activeTouches (cancelTouches_TM cs s)) i = map_of (activeTouches s) i"
  by (induction cs arbitrary: s) (auto simp: Let_def map_of_mapDelete)

lemma runTimeout_TM_keeps [simp]:
  "activeTouches (stateOf (runTimeout_TM h s)) = activeTouches s"
proof -
  have k: "activeTouches (stateOf (bindC r (\<lambda>s1. Normal (s1\<lparr>longPressTimers := g s1\<rparr>)))) = A"
    if "activeTouches (stateOf r) = A" for r :: "TouchManager Completion" and g A
    using that by (cases r) auto
  show ?thesis
    unfolding runTimeout_TM_def longPressTimeout_TM_def Let_def
    by (auto split: option.splits intro!: k simp: triggerLongPressCallbacks_def)
qed

lemma recordedStart_step:
  assumes "recordedStart s i = Some r" and "keepsRecord i x"
  shows "recordedStart (step_TM x s) i = Some r"
proof (cases x)
  case (Start_TM env e)
  then show ?thesis
    using assms
    by (simp add: handleTouchStart_TM_def recordedStart_def startTouches_TM_other)
next
  case (Move_TM env e)
  then show ?thesis using recordedStart_move[OF assms(1)] by simp
next
  case (End_TM env e)
  then show ?thesis
    using assms
    by (simp add: handleTouchEnd_TM_def recordedStart_def endTouches_TM_other)
next
  case (Cancel_TM e)
  then show ?thesis
    using assms
    by (simp add: handleTouchCancel_TM_def recordedStart_def cancelTouches_TM_other)
next
  case (Timeout_TM h)
  then show ?thesis using assms(1) by (simp add: recordedStart_def)
qed

lemma recordedStart_run:
  assumes "recordedStart s i = Some r" and "\<forall>x \<in> set xs. keepsRecord i x"
  shows "recordedStart (run_TM xs s) i = Some r"
  using assms
proof (induction xs arbitrary: s)
  case Nil
  then show ?case by simp
next
  case (Cons x xs)
  have "recordedStart (step_TM x s) i = Some r"
    using recordedStart_step[OF Cons.prems(1)] Cons.prems(2) by simp
  from Cons.IH[OF this] Cons.prems(2) show ?case by simp
qed

lemma tapOutcome_cong:
  "map_of (activeTouches m') (touch_identifier t) = map_of (activeTouches m) (touch_identifier t) \<Longrightarrow>
   tapCallbacks m' = tapCallbacks m \<Longrightarrow> tapOutcome env m' t = tapOutcome env m t"
  by (simp add: tapOutcome_def split: option.splits)

lemma endTouches_TM_outcomes:
  assumes "distinct (map touch_identifier cs)"
      and "\<forall>c \<in> set (tapCallbacks s). \<forall>ev. \<not> throwsOn c ev"
  shows "invocations (stateOf (endTouches_TM env cs s)) =
           invocations s @ concat (map (tapOutcome env s) cs)"
  using assms
proof (induction cs arbitrary: s)
  case Nil
  then show ?case by simp
next
  case (Cons u cs)
  have d: "distinct (map touch_identifier cs)"
    and nu: "touch_identifier u \<notin> set (map touch_identifier cs)"
    using Cons.prems(1) by simp_all
  show ?case
  proof (cases "map_of (activeTouches s) (touch_identifier u)")
    case None
    then show ?thesis
      using Cons.IH[OF d Cons.prems(2)] by (simp add: tapOutcome_def)
  next
    case (Some p)
    define m1 where "m1 = (cancelLongPressTimer (touch_identifier u) s)
             \<lparr>invocations := invocations s @
                 (if env_now env - timestamp_TM p < TAP_THRESHOLD_MS
                     \<and> sqrt ((clientX u - rect_left env - startX_TM p)\<^sup>2
                             + (clientY u - rect_top env - startY_TM p)\<^sup>2) < TAP_MOVE_THRESHOLD_PX
                  then map (\<lambda>c. (listenerId c, TapEvent (startX_TM p) (startY_TM p))) (tapCallbacks s)
                  else []),
               activeTouches := mapDelete (touch_identifier u) (activeTouches s)\<rparr>"
    have q: "\<forall>c \<in> set (tapCallbacks s). \<not> throwsOn c (TapEvent (startX_TM p) (startY_TM p))"
      using Cons.prems(2) by blast
    have e: "endTouches_TM env (u # cs) s = endTouches_TM env cs m1"
      unfolding m1_def by (rule endTouches_TM_quiet[OF Some q])
    have t1: "tapCallbacks m1 = tapCallbacks s" by (simp add: m1_def)
    have q1: "\<forall>c \<in> set (tapCallbacks m1). \<forall>ev. \<not> throwsOn c ev"
      using Cons.prems(2) by (simp add: t1)
    have i1: "invocations m1 = invocations s @ tapOutcome env s u"
      by (simp add: m1_def tapOutcome_def Some)
    have "tapOutcome env m1 t = tapOutcome env s t" if "t \<in> set cs" for t
    proof -
      have "touch_identifier t \<noteq> touch_identifier u"
        using that nu by (metis image_eqI set_map)
      then show ?thesis
        by (intro tapOutcome_cong) (simp_all add: m1_def map_of_mapDelete)
    qed
    then have "map (tapOutcome env m1) cs = map (tapOutcome env s) cs"
      by (intro map_cong) simp_all
    then have "concat (map (tapOutcome env m1) cs) = concat (map (tapOutcome env s) cs)"
      by (rule arg_cong)
    with Cons.IH[OF d q1] show ?thesis
      unfolding e by (simp add: i1)
  qed
qed


lemma tapCallbacks_bindC:
  assumes "tapCallbacks (stateOf r) = T"
      and "\<And>s1. tapCallbacks s1 = T \<Longrightarrow> tapCallbacks (stateOf (f s1)) = T"
  shows "tapCallbacks (stateOf (bindC r f)) = T"
  using assms by (cases r) auto

lemma tapCallbacks_updateTouches [simp]:
  "tapCallbacks (updateTouches_TM env ts s) = tapCallbacks s"
  by (induction ts arbitrary: s) (simp_all add: Let_def split: option.splits)

lemma tapCallbacks_twoFinger [simp]:
  "tapCallbacks (stateOf (handleTwoFingerGestures env a b s)) = tapCallbacks s"
  unfolding handleTwoFingerGestures_def Let_def
  by (auto split: option.splits intro!: tapCallbacks_bindC
        simp: triggerPinchCallbacks_def triggerDragCallbacks_def)

lemma tapCallbacks_move [simp]:
  "tapCallbacks (stateOf (handleTouchMove_TM env e s)) = tapCallbacks s"
  unfolding handleTouchMove_TM_def Let_def
  by (auto split: list.splits option.splits intro!: tapCallbacks_bindC
        simp: triggerDragCallbacks_def simp del: updateTouches_TM.simps)

lemma tapCallbacks_endTouches [simp]:
  "tapCallbacks (stateOf (endTouches_TM env cs s)) = tapCallbacks s"
proof (induction cs arbitrary: s)
  case Nil
  then show ?case by simp
next
  case (Cons u cs)
  show ?case
    by (auto simp: Let_def Cons.IH triggerTapCallbacks_def split: option.splits
          intro!: tapCallbacks_bindC)
qed

lemma tapCallbacks_cancelTouches [simp]:
  "tapCallbacks (cancelTouches_TM cs s) = tapCallbacks s"
  by (induction cs arbitrary: s) (simp_all add: Let_def)

lemma tapCallbacks_runTimeout [simp]:
  "tapCallbacks (stateOf (runTimeout_TM h s)) = tapCallbacks s"
  unfolding runTimeout_TM_def longPressTimeout_TM_def Let_def
  by (auto split: option.splits intro!: tapCallbacks_bindC simp: triggerLongPressCallbacks_def)

lemma tapCallbacks_step: "tapCallbacks (step_TM x s) = tapCallbacks s"
  by (cases x) (simp_all add: handleTouchStart_TM_def handleTouchEnd_TM_def handleTouchCancel_TM_def)

lemma tapCallbacks_run: "tapCallbacks (run_TM xs s) = tapCallbacks s"
  by (induction xs arbitrary: s) (simp_all add: tapCallbacks_step del: step_TM.simps)

lemma run_TM_append: "run_TM (xs @ ys) s = run_TM ys (run_TM xs s)"
  by (induction xs arbitrary: s) simp_all

lemma recordedStart_after_start:
  assumes "distinct (map touch_identifier (ev_touches g0))" and "t0 \<in> set (ev_touches g0)"
      and "\<forall>x \<in> set mid. keepsRecord (touch_identifier t0) x"
  shows "recordedStart (run_TM (Start_TM v0 g0 # mid) m) (touch_identifier t0) =
           Some (clientX t0 - rect_left v0, clientY t0 - rect_top v0, env_now v0)"
proof -
  have "recordedStart (step_TM (Start_TM v0 g0) m) (touch_identifier t0) =
          Some (clientX t0 - rect_left v0, clientY t0 - rect_top v0, env_now v0)"
    by (simp add: recordedStart_def handleTouchStart_TM_def startTouches_TM_listed[OF assms(1,2)])
  from recordedStart_run[OF this assms(3)] show ?thesis by (simp del: step_TM.simps)
qed

lemma tapOutcome_recorded:
  assumes "recordedStart M (touch_identifier u) = Some (sx, sy, ts)"
  shows "tapOutcome v1 M u =
           (if env_now v1 - ts < TAP_THRESHOLD_MS
               \<and> sqrt ((clientX u - rect_left v1 - sx)\<^sup>2 + (clientY u - rect_top v1 - sy)\<^sup>2)
                   < TAP_MOVE_THRESHOLD_PX
            then map (\<lambda>c. (listenerId c, TapEvent sx sy)) (tapCallbacks M)
            else [])"
  using assms by (auto simp: recordedStart_def tapOutcome_def)

text \<open>
  Claim C5, as amended. In TouchBlockController, a touch start that reports more than
  one contact cancels the long press timer, and a touch end that leaves a contact down
  drops the tap candidate: from such a start, through any moves, timer firings and
  further multi-contact starts, to such an end and on until the next touch start with
  exactly one contact, no block call and no long press call is made. (What a release
  of all contacts in one event does before any such end is not covered here.) In
  TouchManager taps are not suppressed: a touch end resolves every ended contact on its
  own, against the record stored for it, whatever other contacts are or were down and
  however many end in the event; the tap listeners (none of which throws) are called
  when the time since the record's timestamp is under 300 ms and the release point is
  less than 10 px from the record's start point. That record is the one written by the
  latest touch start that listed the contact, for a touch start registers anew every
  contact it lists: the start point is the contact's position in that event and the
  timestamp is the time of that event, also when the contact was already down.
\<close>

theorem multi_touch_resolution:
  assumes "enabled_TBC s" and "timersTracked s" and "length (ev_touches e0) \<noteq> 1"
      and "\<forall>i \<in> set is1. multiTouchPhase i" and "ev_touches e1 \<noteq> []"
      and "\<forall>i \<in> set is2. noNewCandidate i"
      and "distinct (map touch_identifier (ev_touches g0))" and "t0 \<in> set (ev_touches g0)"
      and "\<forall>x \<in> set mid. keepsRecord (touch_identifier t0) x"
      and "M = run_TM (Start_TM v0 g0 # mid) m"
      and "distinct (map touch_identifier (ev_changedTouches g1))"
      and "\<forall>c \<in> set (tapCallbacks m). \<forall>ev. \<not> throwsOn c ev"
      and "touch_identifier u = touch_identifier t0"
  shows "blockCalls (run_TBC (Start_TBC env0 e0 # is1 @ End_TBC env1 e1 # is2) s) = blockCalls s
       \<and> recordedStart M (touch_identifier t0) =
           Some (clientX t0 - rect_left v0, clientY t0 - rect_top v0, env_now v0)
       \<and> tapOutcome v1 M u =
           (if env_now v1 - env_now v0 < TAP_THRESHOLD_MS
               \<and> sqrt ((clientX u - rect_left v1 - (clientX t0 - rect_left v0))\<^sup>2
                       + (clientY u - rect_top v1 - (clientY t0 - rect_top v0))\<^sup>2)
                   < TAP_MOVE_THRESHOLD_PX
            then map (\<lambda>c. (listenerId c, TapEvent (clientX t0 - rect_left v0) (clientY t0 - rect_top v0)))
                   (tapCallbacks m)
            else [])
       \<and> invocations (run_TM (Start_TM v0 g0 # mid @ [End_TM v1 g1]) m) =
           invocations M @ concat (map (tapOutcome v1 M) (ev_changedTouches g1))"
proof -
  let ?s0 = "step_TBC (Start_TBC env0 e0) s"
  let ?s1 = "run_TBC is1 ?s0"
  let ?s2 = "step_TBC (End_TBC env1 e1) ?s1"
  have ms: "timeouts_TBC ?s0 = []" "blockCalls ?s0 = blockCalls s"
    using multi_start[OF assms(1,2,3), of env0] by simp_all
  from phase1_run[OF ms(1) assms(4)]
  have t1: "timeouts_TBC ?s1 = []" and b1: "blockCalls ?s1 = blockCalls s"
    by (simp_all add: ms(2) del: step_TBC.simps)
  have en: "enabled_TBC ?s1"
    using assms(1) by (simp del: step_TBC.simps)
  note rr = release_with_remaining[OF t1 assms(5), of env1]
  have "blockCalls (run_TBC is2 ?s2) = blockCalls ?s2"
    by (rule phase2_run[OF rr(1) rr(3)[OF en] assms(6)])
  moreover have "run_TBC (Start_TBC env0 e0 # is1 @ End_TBC env1 e1 # is2) s = run_TBC is2 ?s2"
    by (simp add: run_TBC_append del: step_TBC.simps)
  ultimately have blocks:
    "blockCalls (run_TBC (Start_TBC env0 e0 # is1 @ End_TBC env1 e1 # is2) s) = blockCalls s"
    by (simp only: rr(2) b1)
  have rec: "recordedStart M (touch_identifier t0) =
           Some (clientX t0 - rect_left v0, clientY t0 - rect_top v0, env_now v0)"
    unfolding assms(10) by (rule recordedStart_after_start[OF assms(7,8,9)])
  have tc: "tapCallbacks M = tapCallbacks m"
    unfolding assms(10) by (rule tapCallbacks_run)
  have out: "tapOutcome v1 M u =
           (if env_now v1 - env_now v0 < TAP_THRESHOLD_MS
               \<and> sqrt ((clientX u - rect_left v1 - (clientX t0 - rect_left v0))\<^sup>2
                       + (clientY u - rect_top v1 - (clientY t0 - rect_top v0))\<^sup>2)
                   < TAP_MOVE_THRESHOLD_PX
            then map (\<lambda>c. (listenerId c, TapEvent (clientX t0 - rect_left v0) (clientY t0 - rect_top v0)))
                   (tapCallbacks m)
            else [])"
    using tapOutcome_recorded[of M u, unfolded assms(13), OF rec, of v1] by (simp only: tc)
  have q: "\<forall>c \<in> set (tapCallbacks M). \<forall>ev. \<not> throwsOn c ev"
    using assms(12) by (simp only: tc)
  have "run_TM (Start_TM v0 g0 # mid @ [End_TM v1 g1]) m = stateOf (handleTouchEnd_TM v1 g1 M)"
    unfolding assms(10) using run_TM_append[of "Start_TM v0 g0 # mid" "[End_TM v1 g1]" m]
    by (simp del: step_TM.simps) simp
  then have inv: "invocations (run_TM (Start_TM v0 g0 # mid @ [End_TM v1 g1]) m) =
           invocations M @ concat (map (tapOutcome v1 M) (ev_changedTouches g1))"
    by (simp only: handleTouchEnd_TM_def endTouches_TM_outcomes[OF assms(11) q])
  show ?thesis
    using blocks rec out inv by blast
qed

text \<open>
  TouchManager: two contacts start together; the first is released 50 ms later where it
  started, while the second is still down, and the tap listener is called.
\<close>

theorem tap_with_second_contact_counterexample:
  "length (activeTouches (run_TM [Start_TM (envAt 0) (twoFingers 100 200 100)] tapListener)) = 2
   \<and> invocations (run_TM [Start_TM (envAt 0) (twoFingers 100 200 100),
                          End_TM (envAt 50) (touchEvent [touch 1 200 100] [touch 0 100 100])] tapListener)
       = [(1, TapEvent 100 100)]"
  by (simp add: tapListener_def tm_defs less_sqrt_iff sqrt_less_iff)

text \<open>
  A defect of TouchBlockController, left out of the amended claim: a touch start with
  several contacts keeps the tap candidate of the contact that was already down, so a
  touch end that releases all contacts at once, within 300 ms of the first press,
  resolves the tap and places a block. The controller's unit test
  \<^verbatim>\<open>should not place block during multi-touch\<close> expects no call for a gesture with
  more than one contact.
\<close>

theorem simultaneous_release_taps:
  "blockCalls (run_TBC [Start_TBC (envAt 0) (oneFinger 100 100),
                        Start_TBC (envAt 20) (twoFingers 100 200 100),
                        End_TBC (envAt 100) (released [touch 0 100 100, touch 1 200 100])] emptyWorld)
     = [onPlaceBlock 100 100 GRASS]"
  by (simp add: emptyWorld_def tbc_defs)

text \<open>
  TouchManager: a contact pressed at (100, 100) is 9 px from there and 200 ms old when
  it is lifted, but a second contact landed at 100 ms, when the first was at
  (120, 100): the record was restarted there, the release is 11 px from it, and the
  tap listener is not called.
\<close>

lemma restarted_record_blocks_tap:
  "invocations
     (run_TM [Start_TM (envAt 0) (oneFinger 100 100),
              Move_TM (envAt 50) (oneFinger 120 100),
              Start_TM (envAt 100) (touchEvent [touch 0 120 100, touch 1 400 400] [touch 1 400 400]),
              Move_TM (envAt 150) (touchEvent [touch 0 109 100, touch 1 400 400] [touch 0 109 100]),
              End_TM (envAt 200) (touchEvent [touch 1 400 400] [touch 0 109 100])] tapListener) = []"
  by (simp add: tapListener_def tm_defs less_sqrt_iff sqrt_less_iff)

text \<open>
  A second contact joins a held one, both move, the first is lifted, then the second:
  no call at all, although the long press timer fires twice on the way. In
  TouchManager a contact pressed at (100, 100) is dragged to (300, 300); a second
  contact lands after 1000 ms and restarts the record of the first, which is lifted
  50 ms later where it is: the tap listener is called, with the restarted start point.
\<close>

theorem multi_touch_resolution_witness:
  "enabled_TBC heldContact
   \<and> timersTracked heldContact
   \<and> timeouts_TBC heldContact = [(1, 100, 100)]
   \<and> longPressCallbacks heldContact = [7]
   \<and> blockCalls (run_TBC (Start_TBC (envAt 20) (twoFingers 100 200 100)
         # [Move_TBC (envAt 40) (twoFingers 110 210 100), Timeout_TBC 1]
         @ End_TBC (envAt 100) (touchEvent [touch 1 210 100] [touch 0 110 100])
         # [Timeout_TBC 1, End_TBC (envAt 150) (released [touch 1 210 100])]) heldContact) = []
   \<and> recordedStart
         (run_TM [Start_TM (envAt 0) (oneFinger 100 100), Move_TM (envAt 500) (oneFinger 300 300)]
            tapListener) 0 = Some (100, 100, 0)
   \<and> recordedStart
         (run_TM (Start_TM (envAt 1000) (touchEvent [touch 0 300 300, touch 1 500 500] [touch 1 500 500])
                  # [Move_TM (envAt 1020) (touchEvent [touch 0 300 300, touch 1 510 500] [touch 1 510 500])])
            (run_TM [Start_TM (envAt 0) (oneFinger 100 100), Move_TM (envAt 500) (oneFinger 300 300)]
               tapListener)) 0 = Some (300, 300, 1000)
   \<and> invocations
         (run_TM (Start_TM (envAt 1000) (touchEvent [touch 0 300 300, touch 1 500 500] [touch 1 500 500])
                  # [Move_TM (envAt 1020) (touchEvent [touch 0 300 300, touch 1 510 500] [touch 1 510 500])]
                  @ [End_TM (envAt 1050) (touchEvent [touch 1 510 500] [touch 0 300 300])])
            (run_TM [Start_TM (envAt 0) (oneFinger 100 100), Move_TM (envAt 500) (oneFinger 300 300)]
               tapListener)) = [(1, TapEvent 300 300)]"
proof -
  let ?m = "run_TM [Start_TM (envAt 0) (oneFinger 100 100), Move_TM (envAt 500) (oneFinger 300 300)]
              tapListener"
  let ?g0 = "touchEvent [touch 0 300 300, touch 1 500 500] [touch 1 500 500]"
  let ?mid = "[Move_TM (envAt 1020) (touchEvent [touch 0 300 300, touch 1 510 500] [touch 1 510 500])]"
  let ?g1 = "touchEvent [touch 1 510 500] [touch 0 300 300]"
  let ?M = "run_TM (Start_TM (envAt 1000) ?g0 # ?mid) ?m"
  have h1: "enabled_TBC heldContact"
    and h2: "timersTracked heldContact"
    and h2': "timeouts_TBC heldContact = [(1, 100, 100)]"
    and h2'': "longPressCallbacks heldContact = [7]"
    and b0: "blockCalls heldContact = []"
    by (simp_all add: heldContact_def emptyWorld_def tbc_defs timersTracked_def)
  have h3: "length (ev_touches (twoFingers 100 200 100)) \<noteq> 1"
    by (simp add: twoFingers_def touchEvent_def)
  have h4: "\<forall>i \<in> set [Move_TBC (envAt 40) (twoFingers 110 210 100), Timeout_TBC 1]. multiTouchPhase i"
    by simp
  have h5: "ev_touches (touchEvent [touch 1 210 100] [touch 0 110 100]) \<noteq> []"
    by (simp add: touchEvent_def)
  have h6: "\<forall>i \<in> set [Timeout_TBC 1, End_TBC (envAt 150) (released [touch 1 210 100])]. noNewCandidate i"
    by simp
  have h7: "distinct (map touch_identifier (ev_touches ?g0))"
    and h8: "touch 0 300 300 \<in> set (ev_touches ?g0)"
    and h11: "distinct (map touch_identifier (ev_changedTouches ?g1))"
    by (simp_all add: touchEvent_def)
  have h9: "\<forall>x \<in> set ?mid. keepsRecord (touch_identifier (touch 0 300 300)) x"
    by simp
  have h12: "\<forall>c \<in> set (tapCallbacks ?m). \<forall>ev. \<not> throwsOn c ev"
    by (simp add: tapCallbacks_run tapListener_def onTap_def quietListener_def initialTouchManager_def
          del: run_TM.simps)
  have before: "recordedStart ?m 0 = Some (100, 100, 0)"
    by (simp add: recordedStart_def tapListener_def tm_defs less_sqrt_iff sqrt_less_iff)
  have i0: "invocations ?M = []"
    by (simp add: tapListener_def tm_defs less_sqrt_iff sqrt_less_iff)
  have tl: "tapCallbacks ?m = [quietListener 1]"
    by (simp add: tapCallbacks_run tapListener_def onTap_def initialTouchManager_def del: run_TM.simps)
  note A = multi_touch_resolution[OF h1 h2 h3 h4 h5 h6 h7 h8 h9 refl h11 h12 refl,
      of "envAt 20" "envAt 100" "envAt 1000" "envAt 1050"]
  have c1: "blockCalls (run_TBC (Start_TBC (envAt 20) (twoFingers 100 200 100)
         # [Move_TBC (envAt 40) (twoFingers 110 210 100), Timeout_TBC 1]
         @ End_TBC (envAt 100) (touchEvent [touch 1 210 100] [touch 0 110 100])
         # [Timeout_TBC 1, End_TBC (envAt 150) (released [touch 1 210 100])]) heldContact) = []"
    using A by (simp only: b0)
  have c2: "recordedStart ?M 0 = Some (300, 300, 1000)"
    using A by (simp del: run_TM.simps run_TBC.simps)
  have out: "tapOutcome (envAt 1050) ?M (touch 0 300 300) = [(1, TapEvent 300 300)]"
    using A
    by (simp add: tl quietListener_def TAP_THRESHOLD_MS_def TAP_MOVE_THRESHOLD_PX_def
          del: run_TM.simps run_TBC.simps)
  have c3: "invocations (run_TM (Start_TM (envAt 1000) ?g0 # ?mid @ [End_TM (envAt 1050) ?g1]) ?m)
              = [(1, TapEvent 300 300)]"
  proof -
    have cg: "ev_changedTouches ?g1 = [touch 0 300 300]"
      by (simp add: touchEvent_def)
    from A have "invocations (run_TM (Start_TM (envAt 1000) ?g0 # ?mid @ [End_TM (envAt 1050) ?g1]) ?m)
              = invocations ?M @ concat (map (tapOutcome (envAt 1050) ?M) (ev_changedTouches ?g1))"
      by (rule conjunct2[THEN conjunct2, THEN conjunct2])
    then show ?thesis
      by (simp only: cg i0 out list.map concat.simps append_Nil append_Nil2)
  qed
  show ?thesis
    using h1 h2 h2' h2'' c1 before c2 c3 by blast
qed

end
